(* ===== verification/Prelude.thy ===== *)
theory Prelude
  imports Main "HOL-Library.Sublist"
begin

section \<open>Shared vocabulary of the development\<close>

text \<open>
  The parts of Go and of its standard library that every component uses: byte strings and the
  few functions of the package strings that the program calls, decimal and quoted formatting
  of package fmt, error values with wrapping, loops that stop at the first error. Go strings
  are byte strings, and a HOL \<^typ>\<open>string\<close> is a list of 8-bit characters, so \<^term>\<open>length\<close> counts
  what Go's len counts.
\<close>

named_theorems go_simps \<open>equations that unfold what a component sends or returns\<close>

subsection \<open>Strings\<close>

text \<open>Package strings: TrimPrefix, and SplitN with a one-byte separator and limit 2.\<close>

definition TrimPrefix :: "string \<Rightarrow> string \<Rightarrow> string" where
  "TrimPrefix s p = (if prefix p s then drop (length p) s else s)"

definition SplitN2 :: "string \<Rightarrow> char \<Rightarrow> string list" where
  "SplitN2 s c =
     (case dropWhile (\<lambda>x. x \<noteq> c) s of
        [] \<Rightarrow> [s]
      | _ # rest \<Rightarrow> [takeWhile (\<lambda>x. x \<noteq> c) s, rest])"

lemma TrimPrefix_append [simp]: "TrimPrefix (p @ s) p = s"
  by (simp add: TrimPrefix_def)

lemma SplitN2_sep [simp]: "c \<notin> set a \<Longrightarrow> SplitN2 (a @ c # b) c = [a, b]"
proof -
  assume "c \<notin> set a"
  then have "\<And>x. x \<in> set a \<Longrightarrow> x \<noteq> c" by auto
  then show ?thesis
    by (simp add: SplitN2_def dropWhile_append2 takeWhile_append2)
qed

lemma SplitN2_nosep [simp]: "c \<notin> set s \<Longrightarrow> SplitN2 s c = [s]"
proof -
  assume "c \<notin> set s"
  then have "dropWhile (\<lambda>x. x \<noteq> c) s = []" by (auto simp: dropWhile_eq_Nil_conv)
  then show ?thesis unfolding SplitN2_def by (simp only: list.case)
qed

lemma SplitN2_two:
  "SplitN2 s c = [a, b] \<Longrightarrow> c \<notin> set a \<and> s = a @ c # b"
proof -
  assume eq: "SplitN2 s c = [a, b]"
  then obtain x where d: "dropWhile (\<lambda>x. x \<noteq> c) s = x # b"
    and a: "a = takeWhile (\<lambda>x. x \<noteq> c) s"
    by (auto simp: SplitN2_def split: list.splits)
  from d have "x = c" by (metis (mono_tags, lifting) hd_dropWhile list.distinct(1) list.sel(1))
  moreover have "s = a @ x # b"
    using a d takeWhile_dropWhile_id [of "\<lambda>x. x \<noteq> c" s] by simp
  moreover have "c \<notin> set a"
    unfolding a using set_takeWhileD by fastforce
  ultimately show ?thesis by blast
qed

text \<open>Comparison of bytes, as in \<open>'a' <= c && c <= 'z'\<close>.\<close>

definition byte_in :: "char \<Rightarrow> char \<Rightarrow> char \<Rightarrow> bool" where
  "byte_in a b c \<longleftrightarrow> (of_char a :: nat) \<le> of_char c \<and> (of_char c :: nat) \<le> of_char b"

definition is_alnum :: "char \<Rightarrow> bool" where
  "is_alnum c \<longleftrightarrow> byte_in CHR ''a'' CHR ''z'' c \<or> byte_in CHR ''A'' CHR ''Z'' c \<or> byte_in CHR ''0'' CHR ''9'' c"

text \<open>A separator that does not occur in the first part can be split off again.\<close>

lemma append_sep_inject:
  fixes a a' b b' :: string
  shows "c \<notin> set a \<Longrightarrow> c \<notin> set a' \<Longrightarrow> a @ c # b = a' @ c # b' \<longleftrightarrow> a = a' \<and> b = b'"
  by (metis SplitN2_sep list.inject)

text \<open>
  The verbs of package fmt: percent-d on integers, and percent-q on strings. Quoting is exact
  on 7-bit strings; bytes above 127 are copied, as percent-q does for printable UTF-8 text.
\<close>

fun show_nat :: "nat \<Rightarrow> string" where
  "show_nat n = (if n < 10 then [char_of (48 + n)] else show_nat (n div 10) @ [char_of (48 + n mod 10)])"

declare show_nat.simps [simp del]

definition show_int :: "int \<Rightarrow> string" where
  "show_int i = (if i < 0 then CHR ''-'' # show_nat (nat (- i)) else show_nat (nat i))"

definition hex_digit :: "nat \<Rightarrow> char" where
  "hex_digit n = (if n < 10 then char_of (48 + n) else char_of (87 + n))"

definition quote_char :: "char \<Rightarrow> string" where
  "quote_char c =
     (let n = (of_char c :: nat) in
      if n = 34 \<or> n = 92 then [CHR 0x5C, c]
      else if n = 7 then [CHR 0x5C, CHR ''a'']
      else if n = 8 then [CHR 0x5C, CHR ''b'']
      else if n = 9 then [CHR 0x5C, CHR ''t'']
      else if n = 10 then [CHR 0x5C, CHR ''n'']
      else if n = 11 then [CHR 0x5C, CHR ''v'']
      else if n = 12 then [CHR 0x5C, CHR ''f'']
      else if n = 13 then [CHR 0x5C, CHR ''r'']
      else if n < 32 \<or> n = 127 then [CHR 0x5C, CHR ''x'', hex_digit (n div 16), hex_digit (n mod 16)]
      else [c])"

definition go_quote :: "string \<Rightarrow> string" where
  "go_quote s = [CHR 0x22] @ concat (map quote_char s) @ [CHR 0x22]"

subsection \<open>Errors\<close>

text \<open>
  Go error values. \<open>ErrMsg\<close> is an error of which the program uses only its text, \<open>ErrNotFound\<close>
  the API server's NotFound status, \<open>ErrUnknownModel\<close> the error type of internal/bedrock/cost.go,
  and \<open>Wrapf p e\<close> is \<open>fmt.Errorf("p: %w", e)\<close>.
\<close>

datatype go_error =
    ErrMsg string
  | ErrNotFound string
  | ErrUnknownModel string
  | Wrapf string go_error

primrec error_text :: "go_error \<Rightarrow> string" where
  "error_text (ErrMsg s) = s"
| "error_text (ErrNotFound s) = s"
| "error_text (ErrUnknownModel m) =
     ''no pricing data for model '' @ go_quote m @ ''; cost tracking disabled for this invocation''"
| "error_text (Wrapf p e) = p @ '': '' @ error_text e"

text \<open>errors.IsNotFound looks through wrapped errors.\<close>

primrec IsNotFound :: "go_error \<Rightarrow> bool" where
  "IsNotFound (ErrMsg s) = False"
| "IsNotFound (ErrNotFound s) = True"
| "IsNotFound (ErrUnknownModel m) = False"
| "IsNotFound (Wrapf p e) = IsNotFound e"

subsection \<open>Loops that stop at the first error\<close>

fun mapE :: "('a \<Rightarrow> 'e + 'b) \<Rightarrow> 'a list \<Rightarrow> 'e + 'b list" where
  "mapE f [] = Inr []"
| "mapE f (x # xs) =
     (case f x of Inl e \<Rightarrow> Inl e
      | Inr y \<Rightarrow> (case mapE f xs of Inl e \<Rightarrow> Inl e | Inr ys \<Rightarrow> Inr (y # ys)))"

fun foldE :: "('s \<Rightarrow> 'a \<Rightarrow> 'e + 's) \<Rightarrow> 's \<Rightarrow> 'a list \<Rightarrow> 'e + 's" where
  "foldE f s [] = Inr s"
| "foldE f s (x # xs) = (case f s x of Inl e \<Rightarrow> Inl e | Inr s' \<Rightarrow> foldE f s' xs)"

lemma mapE_Inr_iff: "mapE f xs = Inr ys \<longleftrightarrow> list_all2 (\<lambda>x y. f x = Inr y) xs ys"
  by (induction xs arbitrary: ys) (auto simp: list_all2_Cons1 split: sum.splits, metis sum.inject(2))

lemma mapE_pure [simp]: "mapE (\<lambda>x. Inr (g x)) xs = Inr (map g xs)"
  by (induction xs) auto

end
