(* ===== verification/Float64.thy ===== *)
theory Float64
  imports Prelude "HOL-Library.Log_Nat" Complex_Main
begin

section \<open>IEEE 754 binary64 arithmetic, as Go's float64 uses it\<close>

text \<open>
  A finite float64 is modelled by its exact rational value; every operation is the exact one
  followed by \<open>f64\<close>, rounding to nearest with ties to even at 53 bits and at least exponent
  -1074. Overflow to infinity, NaN and the sign of zero are left out: no quantity of the program
  (prices, token counts of 64 bits, seconds) comes near \<open>2^1024\<close>. Operations are rounded
  one by one, as Go compiles them for amd64 (no fused multiply-add).
\<close>

subsection \<open>Rounding to an integer\<close>

definition rne :: "rat \<Rightarrow> int" where
  "rne x = (let n = \<lfloor>x\<rfloor>; r = x - of_int n in
     if r < 1 / 2 then n else if 1 / 2 < r then n + 1 else if even n then n else n + 1)"

text \<open>math.Round: halfway cases away from zero.\<close>

definition math_Round :: "rat \<Rightarrow> int" where
  "math_Round x = (if x < 0 then - \<lfloor>- x + 1 / 2\<rfloor> else \<lfloor>x + 1 / 2\<rfloor>)"

lemma floor_frac: "of_int \<lfloor>x\<rfloor> \<le> x \<and> x < of_int \<lfloor>x\<rfloor> + (1 :: rat)"
  using floor_correct [of x] by simp

lemma rne_err: "\<bar>of_int (rne x) - x\<bar> \<le> 1 / 2"
  using floor_frac [of x] by (auto simp: rne_def Let_def)

lemma rne_of_int [simp]: "rne (of_int n) = n"
  by (simp add: rne_def)

lemma rne_unique: "\<bar>x - of_int n\<bar> < 1 / 2 \<Longrightarrow> rne x = n"
proof -
  assume "\<bar>x - of_int n\<bar> < 1 / 2"
  then have "\<bar>of_int (rne x) - of_int n :: rat\<bar> < 1"
    using rne_err [of x] by linarith
  then have "\<bar>of_int (rne x - n) :: rat\<bar> < 1" by simp
  then show ?thesis by linarith
qed

lemma rne_mono: "x \<le> y \<Longrightarrow> rne x \<le> rne y"
proof (rule ccontr)
  assume le: "x \<le> y" and "\<not> rne x \<le> rne y"
  then have gt: "rne y + 1 \<le> rne x" by simp
  then have gt': "(of_int (rne y) :: rat) + 1 \<le> of_int (rne x)"
    by (metis of_int_1 of_int_add of_int_le_iff)
  have x: "x = of_int (rne x) - 1 / 2" and y: "y = of_int (rne y) + 1 / 2"
    and eq: "rne x = rne y + 1"
    using rne_err [of x] rne_err [of y] le gt gt' by linarith+
  from eq x y have "x = y" by simp
  with eq show False by simp
qed

lemma rne_uminus [simp]: "rne (- x) = - rne x"
proof (cases "\<bar>x - of_int (rne x)\<bar> = 1 / 2")
  case False
  with rne_err [of x] have "\<bar>- x - of_int (- rne x)\<bar> < 1 / 2" by (simp add: abs_minus_commute)
  then show ?thesis by (rule rne_unique)
next
  case True
  then have two: "x = of_int \<lfloor>x\<rfloor> + 1 / 2"
    using floor_frac [of x]
    by (auto simp: rne_def Let_def split: if_splits)
  then have m: "- x = of_int (- \<lfloor>x\<rfloor> - 1) + 1 / 2" by simp
  then have "\<lfloor>- x\<rfloor> = - \<lfloor>x\<rfloor> - 1" by (simp add: floor_unique)
  with two m show ?thesis by (simp add: rne_def Let_def)
qed

lemma rne_nonneg: "0 \<le> x \<Longrightarrow> 0 \<le> rne x"
  using rne_mono [of 0 x] rne_of_int [of 0] by simp

lemma rne_le_of_int: "x \<le> of_int n \<Longrightarrow> rne x \<le> n"
  using rne_mono [of x "of_int n"] by simp

lemma rne_ge_of_int: "of_int n \<le> x \<Longrightarrow> n \<le> rne x"
  using rne_mono [of "of_int n" x] by simp

lemma math_Round_mono: "x \<le> y \<Longrightarrow> math_Round x \<le> math_Round y"
proof -
  assume le: "x \<le> y"
  consider "0 \<le> x" | "x < 0" "0 \<le> y" | "y < 0" using le by linarith
  then show ?thesis
  proof cases
    case 1
    with le show ?thesis by (simp add: math_Round_def floor_mono)
  next
    case 2
    then have "0 \<le> \<lfloor>- x + 1 / 2\<rfloor>" "0 \<le> \<lfloor>y + 1 / 2\<rfloor>" by simp_all
    moreover have "math_Round x = - \<lfloor>- x + 1 / 2\<rfloor>" "math_Round y = \<lfloor>y + 1 / 2\<rfloor>"
      using 2 by (auto simp only: math_Round_def split: if_split)
    ultimately show ?thesis by linarith
  next
    case 3
    with le show ?thesis by (simp add: math_Round_def floor_mono)
  qed
qed

lemma math_Round_err: "\<bar>of_int (math_Round x) - x\<bar> \<le> 1 / 2"
  using floor_frac [of "x + 1 / 2"] floor_frac [of "- x + 1 / 2"]
  unfolding math_Round_def by (auto simp only: split: if_split)

lemma math_Round_of_int [simp]: "math_Round (of_int n) = n"
proof -
  have "\<bar>of_int (math_Round (of_int n)) - of_int n :: rat\<bar> \<le> 1 / 2"
    by (rule math_Round_err)
  then have "\<bar>of_int (math_Round (of_int n) - n) :: rat\<bar> \<le> 1 / 2" by simp
  then show ?thesis by linarith
qed

lemma math_Round_0 [simp]: "math_Round 0 = 0"
  using math_Round_of_int [of 0] by (simp only: of_int_0)

subsection \<open>Rounding to binary64\<close>

text \<open>
  \<open>flog2 x\<close> is the exponent of the binade of a positive \<open>x\<close>; \<open>f64_exp x\<close> the exponent of the
  last bit that binary64 keeps there.
\<close>

definition flog2 :: "rat \<Rightarrow> int" where
  "flog2 x = (let (n, d) = quotient_of x; k = bitlen n - bitlen d
     in if 2 powi k \<le> x then k else k - 1)"

definition f64_exp :: "rat \<Rightarrow> int" where
  "f64_exp x = max (- 1074) (flog2 \<bar>x\<bar> - 52)"

definition f64 :: "rat \<Rightarrow> rat" where
  "f64 x = (if x = 0 then 0
     else let q = 2 powi f64_exp x in of_int (rne (x / q)) * q)"

definition fadd :: "rat \<Rightarrow> rat \<Rightarrow> rat" where "fadd x y = f64 (x + y)"
definition fmul :: "rat \<Rightarrow> rat \<Rightarrow> rat" where "fmul x y = f64 (x * y)"
definition fdiv :: "rat \<Rightarrow> rat \<Rightarrow> rat" where "fdiv x y = f64 (x / y)"

lemma bitlen_pow: "0 < n \<Longrightarrow> (2 :: rat) powi (bitlen n - 1) \<le> of_int n \<and> of_int n < (2 :: rat) powi bitlen n"
proof -
  assume n: "0 < n"
  define b where "b = nat (bitlen n)"
  have b: "bitlen n = int b" "0 < b"
    using n bitlen_eq_zero_iff [of n] bitlen_nonneg [of n] by (auto simp: b_def)
  have b1: "nat (bitlen n - 1) = b - 1" using b by simp
  have "2 ^ (b - 1) \<le> n" "n < 2 ^ b"
    using bitlen_bounds [OF n] unfolding b1 by (simp_all add: b)
  then have "(2 :: rat) ^ (b - 1) \<le> of_int n" "of_int n < (2 :: rat) ^ b"
    by (metis of_int_le_iff of_int_numeral of_int_power,
        metis of_int_less_iff of_int_numeral of_int_power)
  moreover have "(2 :: rat) powi (int b - 1) = 2 ^ (b - 1)"
    using b(2) by (simp add: power_int_def nat_diff_distrib')
  ultimately show ?thesis by (simp add: b(1))
qed

lemma flog2_bounds:
  assumes "0 < x"
  shows "2 powi flog2 x \<le> x \<and> x < 2 powi (flog2 x + 1)"
proof -
  obtain n d where q: "quotient_of x = (n, d)" by fastforce
  have d: "0 < d" by (rule quotient_of_denom_pos [OF q])
  have x: "x = of_int n / of_int d" by (rule quotient_of_div [OF q])
  with assms d have n: "0 < n" by (simp add: zero_less_divide_iff)
  define k where "k = bitlen n - bitlen d"
  note bn = bitlen_pow [OF n] and bd = bitlen_pow [OF d]
  have dpos: "(0 :: rat) < of_int d" using d by simp
  have "x * of_int d = of_int n" using x dpos by simp
  have "of_int n < (2 :: rat) powi (k + 1) * 2 powi (bitlen d - 1)"
    using bn by (simp add: power_int_add [symmetric] k_def)
  also have "\<dots> \<le> 2 powi (k + 1) * of_int d"
    using bd by (simp add: mult_left_mono)
  finally have up: "x < 2 powi (k + 1)"
    using dpos x by (simp add: pos_divide_less_eq)
  have "(2 :: rat) powi (k - 1) * of_int d \<le> 2 powi (k - 1) * 2 powi bitlen d"
    using bd by (simp add: mult_left_mono)
  also have "\<dots> \<le> of_int n"
    using bn by (simp add: power_int_add [symmetric] k_def algebra_simps)
  finally have lo: "2 powi (k - 1) \<le> x"
    using dpos x by (simp add: pos_le_divide_eq)
  have fl: "flog2 x = (if 2 powi k \<le> x then k else k - 1)"
    by (simp add: flog2_def q k_def Let_def)
  show ?thesis using up lo fl by auto
qed

lemma powi2_le_iff: "(2 :: rat) powi a < 2 powi b \<Longrightarrow> a < b"
  by (meson linorder_not_less one_le_numeral power_int_increasing)

lemma flog2_mono: "0 < x \<Longrightarrow> x \<le> y \<Longrightarrow> flog2 x \<le> flog2 y"
  using flog2_bounds [of x] flog2_bounds [of y] powi2_le_iff [of "flog2 x" "flog2 y + 1"]
  by fastforce

subsection \<open>Properties of the rounding\<close>

lemma f64_exp_mono: "0 < x \<Longrightarrow> x \<le> y \<Longrightarrow> f64_exp x \<le> f64_exp y"
  by (simp add: f64_exp_def flog2_mono max.coboundedI2 max.coboundedI1)

lemma f64_0 [simp]: "f64 0 = 0"
  by (simp add: f64_def)

lemma f64_uminus [simp]: "f64 (- x) = - f64 x"
  by (simp add: f64_def f64_exp_def Let_def)

lemma f64_nonneg: "0 \<le> x \<Longrightarrow> 0 \<le> f64 x"
  by (simp add: f64_def Let_def rne_nonneg)

text \<open>The significand of a positive number has at most 53 bits, and 53 above the subnormals.\<close>

lemma f64_scaled_upper: "0 < x \<Longrightarrow> x / 2 powi f64_exp x < 2 ^ 53"
proof -
  assume x: "0 < x"
  have "x < 2 powi (flog2 x + 1)" using flog2_bounds [OF x] by simp
  also have "\<dots> \<le> 2 powi (f64_exp x + 53)"
    using x by (intro power_int_increasing) (auto simp: f64_exp_def)
  finally show ?thesis
    by (simp add: pos_divide_less_eq power_int_add mult.commute)
qed

lemma f64_scaled_lower: "0 < x \<Longrightarrow> - 1074 < f64_exp x \<Longrightarrow> 2 ^ 52 \<le> x / 2 powi f64_exp x"
proof -
  assume x: "0 < x" and e: "- 1074 < f64_exp x"
  then have "f64_exp x + 52 = flog2 x" by (auto simp: f64_exp_def max_def split: if_splits)
  moreover have "2 powi flog2 x \<le> x" using flog2_bounds [OF x] by simp
  ultimately have "2 powi (f64_exp x + 52) \<le> x" by simp
  then show ?thesis
    by (simp add: pos_le_divide_eq power_int_add mult.commute)
qed

lemma f64_mono_pos:
  assumes "0 < x" "x \<le> y"
  shows "f64 x \<le> f64 y"
proof (cases "f64_exp x = f64_exp y")
  case True
  with assms show ?thesis
    by (auto simp: f64_def Let_def intro!: mult_right_mono rne_mono divide_right_mono)
next
  case False
  with f64_exp_mono [OF assms] have lt: "f64_exp x + 1 \<le> f64_exp y" by simp
  have y: "0 < y" using assms by simp
  have "rne (x / 2 powi f64_exp x) \<le> 2 ^ 53"
    using f64_scaled_upper [OF assms(1)] by (intro rne_le_of_int) simp
  then have "f64 x \<le> 2 ^ 53 * 2 powi f64_exp x"
    using assms by (auto simp: f64_def Let_def intro!: mult_right_mono)
  also have "\<dots> = 2 ^ 52 * 2 powi (f64_exp x + 1)"
    by (simp add: power_int_add)
  also have "\<dots> \<le> 2 ^ 52 * 2 powi f64_exp y"
    using lt by (intro mult_left_mono power_int_increasing) auto
  also have "\<dots> \<le> f64 y"
  proof -
    have "- 1074 < f64_exp y" using lt by (auto simp: f64_exp_def)
    then have "2 ^ 52 \<le> rne (y / 2 powi f64_exp y)"
      using f64_scaled_lower [OF y] by (intro rne_ge_of_int) simp
    then show ?thesis
      using y by (auto simp: f64_def Let_def intro!: mult_right_mono)
  qed
  finally show ?thesis .
qed

lemma f64_mono: "x \<le> y \<Longrightarrow> f64 x \<le> f64 y"
proof -
  assume le: "x \<le> y"
  consider "0 < x" | "x \<le> 0" "0 \<le> y" | "y < 0" using le by linarith
  then show ?thesis
  proof cases
    case 1
    then show ?thesis using le by (rule f64_mono_pos)
  next
    case 2
    then have "0 \<le> f64 (- x)" "0 \<le> f64 y" by (simp_all only: f64_nonneg neg_0_le_iff_le)
    then show ?thesis by simp
  next
    case 3
    then have "f64 (- y) \<le> f64 (- x)" using le by (intro f64_mono_pos) simp_all
    then show ?thesis by simp
  qed
qed

text \<open>Above the subnormals the error is at most one part in \<open>2^53\<close>.\<close>

lemma f64_rel_pos:
  assumes "2 powi (- 1022) \<le> x"
  shows "\<bar>f64 x - x\<bar> \<le> x / 2 ^ 53"
proof -
  have "(0 :: rat) < 2 powi (- 1022)" by simp
  with assms have x: "0 < x" by linarith
  define q :: rat where "q = 2 powi f64_exp x"
  have q: "0 < q" by (simp add: q_def)
  have "- 1022 < flog2 x + 1"
    using flog2_bounds [OF x] assms by (intro powi2_le_iff) linarith
  then have "f64_exp x = flog2 x - 52" using x by (simp add: f64_exp_def)
  then have "2 ^ 52 * q = 2 powi flog2 x" by (simp add: q_def power_int_diff)
  with flog2_bounds [OF x] have big: "2 ^ 52 * q \<le> x" by simp
  have "\<bar>f64 x - x\<bar> = \<bar>of_int (rne (x / q)) - x / q\<bar> * q"
    using x q by (simp add: f64_def Let_def q_def [symmetric] abs_mult_pos left_diff_distrib)
  also have "\<dots> \<le> 1 / 2 * q"
    using rne_err q by (intro mult_right_mono) auto
  also have "\<dots> \<le> x / 2 ^ 53" using big by simp
  finally show ?thesis .
qed

text \<open>Integers up to \<open>2^53\<close> are represented exactly.\<close>

lemma f64_of_int: "\<bar>n\<bar> \<le> 2 ^ 53 \<Longrightarrow> f64 (of_int n) = of_int n"
proof -
  have pos: "f64 (of_int m) = of_int m" if m: "0 < m" "m \<le> 2 ^ 53" for m
  proof -
    have "(of_int m :: rat) \<le> 2 ^ 53"
      using m(2) by (metis of_int_le_iff of_int_numeral of_int_power)
    moreover have mp: "(0 :: rat) < of_int m" using m(1) by simp
    ultimately have "(2 :: rat) powi flog2 (of_int m) < 2 powi 54"
      using flog2_bounds [OF mp] by simp
    then have e: "f64_exp (of_int m) \<le> 1"
      using powi2_le_iff [of "flog2 (of_int m)" 54] mp by (simp add: f64_exp_def)
    define q :: rat where "q = 2 powi f64_exp (of_int m)"
    have "\<exists>k. of_int m / q = of_int k"
    proof (cases "f64_exp (of_int m) \<le> 0")
      case True
      define j where "j = nat (- f64_exp (of_int m))"
      have "f64_exp (of_int m) = - int j" using True by (simp add: j_def)
      then have "of_int m / q = of_int (m * 2 ^ j)"
        by (simp add: q_def power_int_minus divide_inverse)
      then show ?thesis ..
    next
      case False
      with e have e1: "f64_exp (of_int m) = 1" by simp
      then have "2 ^ 52 \<le> of_int m / (2 :: rat)"
        using f64_scaled_lower [OF mp] by simp
      then have "(2 :: rat) ^ 53 \<le> of_int m" by simp
      then have "m = 2 ^ 53"
        using m(2) by (metis antisym of_int_le_iff of_int_numeral of_int_power)
      with e1 have "of_int m / q = of_int (2 ^ 52)" by (simp add: q_def)
      then show ?thesis ..
    qed
    then obtain k where k: "of_int m / q = of_int k" ..
    have "f64 (of_int m) = of_int (rne (of_int m / q)) * q"
      using m(1) by (simp add: f64_def Let_def q_def)
    also have "\<dots> = of_int m" unfolding k rne_of_int unfolding k [symmetric] by (simp add: q_def)
    finally show ?thesis .
  qed
  assume n: "\<bar>n\<bar> \<le> 2 ^ 53"
  consider "n = 0" | "0 < n" | "n < 0" by linarith
  then show ?thesis
  proof cases
    case 3
    then have "f64 (of_int (- n)) = of_int (- n)" using n by (intro pos) auto
    then show ?thesis by simp
  qed (use n pos in auto)
qed

subsection \<open>The rounding interface\<close>

text \<open>
  What the cost computation relies on: a rounding that is monotone, keeps 0, and above a tiny
  threshold has a relative error of at most \<open>u\<close>. \<open>rounded u n x y\<close> says that \<open>x\<close> is what is left of
  the exact value \<open>y\<close> after at most \<open>n\<close> such errors.
\<close>

definition rounded :: "rat \<Rightarrow> nat \<Rightarrow> rat \<Rightarrow> rat \<Rightarrow> bool" where
  "rounded u n x y \<longleftrightarrow> y * (1 - u) ^ n \<le> x \<and> x \<le> y * (1 + u) ^ n"

lemma rounded_refl [simp]: "rounded u 0 x x"
  by (simp add: rounded_def)

lemma rounded_nonneg: "rounded u n x y \<Longrightarrow> 0 \<le> y \<Longrightarrow> u \<le> 1 \<Longrightarrow> 0 \<le> x"
  by (auto simp: rounded_def intro: order_trans [rotated])

lemma rounded_mult:
  assumes "rounded u m x y" "rounded u n x' y'" "0 \<le> y" "0 \<le> y'" "0 \<le> u" "u \<le> 1"
  shows "rounded u (m + n) (x * x') (y * y')"
proof -
  have nn: "0 \<le> x" "0 \<le> x'" using assms rounded_nonneg by blast+
  have "(y * (1 - u) ^ m) * (y' * (1 - u) ^ n) \<le> x * x'"
    using assms nn by (intro mult_mono) (auto simp: rounded_def)
  moreover have "x * x' \<le> (y * (1 + u) ^ m) * (y' * (1 + u) ^ n)"
    using assms nn by (intro mult_mono) (auto simp: rounded_def)
  ultimately show ?thesis by (simp add: rounded_def power_add algebra_simps)
qed

lemma rounded_add: "rounded u n x y \<Longrightarrow> rounded u n x' y' \<Longrightarrow> rounded u n (x + x') (y + y')"
  by (auto simp: rounded_def distrib_right)

lemma rounded_divide: "rounded u n x y \<Longrightarrow> 0 < c \<Longrightarrow> rounded u n (x / c) (y / c)"
  by (auto simp: rounded_def divide_right_mono)

locale float_rounding =
  fixes rnd :: "rat \<Rightarrow> rat" and u tiny :: rat
  assumes rnd_mono: "x \<le> y \<Longrightarrow> rnd x \<le> rnd y"
    and rnd_0: "rnd 0 = 0"
    and rnd_rel: "tiny \<le> x \<Longrightarrow> \<bar>rnd x - x\<bar> \<le> u * x"
    and u_nonneg: "0 \<le> u" and u_small: "u \<le> 1 / 2"
    and tiny_pos: "0 < tiny"
begin

lemma rnd_nonneg: "0 \<le> x \<Longrightarrow> 0 \<le> rnd x"
  using rnd_mono [of 0 x] by (simp add: rnd_0)

lemma rnd_mult_mono: "0 \<le> p \<Longrightarrow> x \<le> y \<Longrightarrow> rnd (x * p) \<le> rnd (y * p)"
  by (intro rnd_mono mult_right_mono)

lemma rnd_add_mono: "x \<le> y \<Longrightarrow> x' \<le> y' \<Longrightarrow> rnd (x + x') \<le> rnd (y + y')"
  by (intro rnd_mono add_mono)

lemma rounded_rnd:
  assumes w: "rounded u n x y" and y: "0 \<le> y" and x: "x = 0 \<or> tiny \<le> x"
  shows "rounded u (Suc n) (rnd x) y"
proof -
  have x0: "0 \<le> x" using rounded_nonneg [OF w y] u_small by simp
  have r: "x * (1 - u) \<le> rnd x \<and> rnd x \<le> x * (1 + u)"
  proof (cases "x = 0")
    case False
    then have "\<bar>rnd x - x\<bar> \<le> u * x" using x rnd_rel by blast
    then show ?thesis by (simp add: abs_le_iff algebra_simps)
  qed (simp add: rnd_0)
  have "y * (1 - u) ^ n * (1 - u) \<le> x * (1 - u)" "x * (1 + u) \<le> y * (1 + u) ^ n * (1 + u)"
    using w u_small u_nonneg by (auto simp: rounded_def intro: mult_right_mono)
  with r have "y * (1 - u) ^ n * (1 - u) \<le> rnd x" "rnd x \<le> y * (1 + u) ^ n * (1 + u)"
    by (blast intro: order_trans)+
  then show ?thesis by (simp only: rounded_def power_Suc2 mult.assoc)
qed

text \<open>A value that is not tiny stays so after a few roundings.\<close>

lemma rounded_not_tiny:
  assumes "rounded u n x y" "0 \<le> y" "y = 0 \<or> tiny * 2 ^ n \<le> y"
  shows "x = 0 \<or> tiny \<le> x"
proof (cases "y = 0")
  case False
  have half: "(1 / 2) ^ n \<le> (1 - u) ^ n"
    using u_small by (intro power_mono) auto
  have "tiny = tiny * 2 ^ n * (1 / 2) ^ n" by (simp add: power_divide)
  also have "\<dots> \<le> y * (1 - u) ^ n"
    using False assms half tiny_pos by (intro mult_mono) auto
  also have "\<dots> \<le> x" using assms by (simp add: rounded_def)
  finally show ?thesis ..
qed (use assms in \<open>simp add: rounded_def\<close>)

lemma rounded_rnd_big:
  "rounded u n x y \<Longrightarrow> 0 \<le> y \<Longrightarrow> y = 0 \<or> tiny * 2 ^ n \<le> y \<Longrightarrow> rounded u (Suc n) (rnd x) y"
  using rounded_rnd rounded_not_tiny by blast

end

interpretation b64: float_rounding f64 "1 / 2 ^ 53" "2 powi (- 1022)"
proof unfold_locales
  fix x :: rat
  assume "2 powi (- 1022) \<le> x"
  then show "\<bar>f64 x - x\<bar> \<le> 1 / 2 ^ 53 * x" using f64_rel_pos by simp
qed (simp_all add: f64_mono)

subsection \<open>Decimal formatting\<close>

text \<open>
  strconv.FormatFloat(v, 'f', prec, 64): the exact binary value, rounded to prec decimals with
  ties to even, in positional notation. \<open>show_fixed k m\<close> is the last \<open>k\<close> decimal digits of \<open>m\<close>.
\<close>

fun show_fixed :: "nat \<Rightarrow> nat \<Rightarrow> string" where
  "show_fixed 0 m = []"
| "show_fixed (Suc k) m = show_fixed k (m div 10) @ [char_of (48 + m mod 10)]"

definition show_decimal :: "nat \<Rightarrow> nat \<Rightarrow> string" where
  "show_decimal prec n =
     show_nat (n div 10 ^ prec) @ (if prec = 0 then [] else CHR ''.'' # show_fixed prec (n mod 10 ^ prec))"

definition FormatFloat_f :: "rat \<Rightarrow> nat \<Rightarrow> string" where
  "FormatFloat_f v prec =
     (if v < 0 then [CHR ''-''] else []) @ show_decimal prec (nat (rne (\<bar>v\<bar> * 10 ^ prec)))"

text \<open>Reading the digits back.\<close>

definition read_digits :: "string \<Rightarrow> nat" where
  "read_digits s = foldl (\<lambda>n c. n * 10 + (of_char c - 48)) 0 s"

lemma read_digits_snoc [simp]: "read_digits (s @ [c]) = read_digits s * 10 + (of_char c - 48)"
  by (simp add: read_digits_def)

lemma read_digits_Nil [simp]: "read_digits [] = 0"
  by (simp add: read_digits_def)

lemma of_char_digit: "d < 10 \<Longrightarrow> (of_char (char_of (48 + d) :: char) :: nat) = 48 + d"
  by (simp add: of_char_of)

lemma read_show_nat [simp]: "read_digits (show_nat n) = n"
proof (induction n rule: show_nat.induct)
  case (1 n)
  show ?case
  proof (cases "n < 10")
    case True
    then show ?thesis using read_digits_snoc [of "[]" "char_of (48 + n)"]
      by (simp add: show_nat.simps [of n] of_char_digit del: read_digits_snoc)
  next
    case False
    with "1.IH" show ?thesis by (simp add: show_nat.simps [of n] of_char_digit)
  qed
qed

lemma length_show_fixed [simp]: "length (show_fixed k m) = k"
  by (induction k arbitrary: m) auto

lemma read_show_fixed [simp]: "read_digits (show_fixed k m) = m mod 10 ^ k"
proof (induction k arbitrary: m)
  case (Suc k)
  have "m mod 10 ^ Suc k = 10 * (m div 10 mod 10 ^ k) + m mod 10"
    by (simp add: mod_mult2_eq)
  with Suc show ?case by (simp add: of_char_digit)
qed simp

end
