(* ===== verification/Pricing.thy ===== *)
theory Pricing
  imports Float64
begin

section \<open>Pricing table and cost of an invocation (internal/bedrock/cost.go)\<close>

text \<open>
  The on-demand price table, the lookups on it and \<open>CalculateCost\<close>, which turns the token counts
  of a Bedrock response into dollars with float64 arithmetic. The lemmas relate the float64
  computation to the exact cost: it is total on priced models, monotone in both counts and
  within half a micro-dollar (plus rounding) of the exact value, and its decimal rendering with
  six digits is exact.
\<close>

record ModelPricing =
  InputPer1M :: rat
  OutputPer1M :: rat

text \<open>The rates as written in the source; \<open>Pricing\<close> converts them to float64 as the compiler does.\<close>

definition PricingTable :: "(string \<times> rat \<times> rat) list" where
  "PricingTable =
    [
     (''anthropic.claude-opus-4-20250514-v1:0'', 1500 / 100, 7500 / 100),
     (''anthropic.claude-sonnet-4-20250514-v1:0'', 300 / 100, 1500 / 100),
     (''anthropic.claude-sonnet-4-6-20250514-v1:0'', 300 / 100, 1500 / 100),
     (''anthropic.claude-3-7-sonnet-20250219-v1:0'', 300 / 100, 1500 / 100),
     (''anthropic.claude-3-5-sonnet-20241022-v2:0'', 300 / 100, 1500 / 100),
     (''anthropic.claude-3-5-sonnet-20240620-v1:0'', 300 / 100, 1500 / 100),
     (''anthropic.claude-3-5-haiku-20241022-v1:0'', 80 / 100, 400 / 100),
     (''anthropic.claude-3-opus-20240229-v1:0'', 1500 / 100, 7500 / 100),
     (''anthropic.claude-3-sonnet-20240229-v1:0'', 300 / 100, 1500 / 100),
     (''anthropic.claude-3-haiku-20240307-v1:0'', 25 / 100, 125 / 100),
     (''anthropic.claude-haiku-4-5-20251001-v1:0'', 80 / 100, 400 / 100),
     (''meta.llama3-8b-instruct-v1:0'', 30 / 100, 60 / 100),
     (''meta.llama3-70b-instruct-v1:0'', 265 / 100, 350 / 100),
     (''meta.llama3-1-8b-instruct-v1:0'', 22 / 100, 22 / 100),
     (''meta.llama3-1-70b-instruct-v1:0'', 72 / 100, 72 / 100),
     (''meta.llama3-1-405b-instruct-v1:0'', 532 / 100, 1600 / 100),
     (''meta.llama3-2-11b-instruct-v1:0'', 16 / 100, 16 / 100),
     (''meta.llama3-2-90b-instruct-v1:0'', 200 / 100, 200 / 100),
     (''meta.llama3-2-1b-instruct-v1:0'', 10 / 100, 10 / 100),
     (''meta.llama3-2-3b-instruct-v1:0'', 15 / 100, 15 / 100),
     (''meta.llama3-3-70b-instruct-v1:0'', 72 / 100, 72 / 100),
     (''amazon.titan-text-lite-v1'', 30 / 100, 40 / 100),
     (''amazon.titan-text-express-v1'', 80 / 100, 160 / 100),
     (''amazon.titan-text-premier-v1:0'', 50 / 100, 150 / 100),
     (''amazon.nova-micro-v1:0'', 35 / 1000, 14 / 100),
     (''amazon.nova-lite-v1:0'', 6 / 100, 24 / 100),
     (''amazon.nova-pro-v1:0'', 80 / 100, 320 / 100),
     (''amazon.nova-premier-v1:0'', 250 / 100, 1250 / 100),
     (''mistral.mistral-7b-instruct-v0:2'', 15 / 100, 20 / 100),
     (''mistral.mixtral-8x7b-instruct-v0:1'', 45 / 100, 70 / 100),
     (''mistral.mistral-large-2402-v1:0'', 400 / 100, 1200 / 100),
     (''mistral.mistral-large-2407-v1:0'', 300 / 100, 900 / 100),
     (''mistral.mistral-small-2402-v1:0'', 100 / 100, 300 / 100),
     (''cohere.command-r-v1:0'', 50 / 100, 150 / 100),
     (''cohere.command-r-plus-v1:0'', 300 / 100, 1500 / 100),
     (''cohere.command-text-v14'', 150 / 100, 200 / 100),
     (''cohere.command-light-text-v14'', 30 / 100, 60 / 100),
     (''cohere.embed-english-v3'', 10 / 100, 0),
     (''cohere.embed-multilingual-v3'', 10 / 100, 0),
     (''ai21.jamba-1-5-mini-v1:0'', 20 / 100, 40 / 100),
     (''ai21.jamba-1-5-large-v1:0'', 200 / 100, 800 / 100)]"

definition Pricing :: "string \<Rightarrow> ModelPricing option" where
  "Pricing modelId =
     map_option (\<lambda>(i, o'). \<lparr>InputPer1M = f64 i, OutputPer1M = f64 o'\<rparr>) (map_of PricingTable modelId)"

definition CalculateCost :: "string \<Rightarrow> int \<Rightarrow> int \<Rightarrow> go_error + rat" where
  "CalculateCost modelId inputTokens outputTokens =
     (case Pricing modelId of
        None \<Rightarrow> Inl (ErrUnknownModel modelId)
      | Some p \<Rightarrow>
          let inputCost = fmul (fdiv (f64 (of_int inputTokens)) 1000000) (InputPer1M p);
              outputCost = fmul (fdiv (f64 (of_int outputTokens)) 1000000) (OutputPer1M p);
              total = fadd inputCost outputCost
          in Inr (fdiv (of_int (math_Round (fmul total 1000000))) 1000000))"

definition KnownModel :: "string \<Rightarrow> bool" where
  "KnownModel modelId = (case Pricing modelId of None \<Rightarrow> False | Some _ \<Rightarrow> True)"

definition PricingForModel :: "string \<Rightarrow> ModelPricing \<times> bool" where
  "PricingForModel modelId =
     (case Pricing modelId of
        None \<Rightarrow> (\<lparr>InputPer1M = 0, OutputPer1M = 0\<rparr>, False)
      | Some p \<Rightarrow> (p, True))"

subsection \<open>The table\<close>

lemma PricingTable_rates:
  "(m, i, k) \<in> set PricingTable \<Longrightarrow> 1 / 100 \<le> i \<and> (k = 0 \<or> 1 / 100 \<le> k)"
  unfolding PricingTable_def by auto

lemma PricingTable_bounds:
  "(m, i, k) \<in> set PricingTable \<Longrightarrow> 0 \<le> i \<and> i \<le> 100 \<and> 0 \<le> k \<and> k \<le> 100"
  unfolding PricingTable_def by auto

lemma PricingTable_distinct: "distinct (map fst PricingTable)"
  unfolding PricingTable_def by simp

lemma Pricing_Some:
  assumes "Pricing m = Some p"
  obtains i k where "map_of PricingTable m = Some (i, k)"
    "InputPer1M p = f64 i" "OutputPer1M p = f64 k" "1 / 100 \<le> i" "k = 0 \<or> 1 / 100 \<le> k"
  using assms PricingTable_rates
  by (fastforce simp: Pricing_def dest: map_of_SomeD)

lemma KnownModel_iff: "KnownModel m \<longleftrightarrow> m \<in> fst ` set PricingTable"
  by (auto simp: KnownModel_def Pricing_def map_of_eq_None_iff split: option.splits)
    (metis map_of_eq_None_iff option.distinct(1))

subsection \<open>The float64 computation\<close>

text \<open>The number of micro-dollars that \<open>CalculateCost\<close> rounds to.\<close>

definition micro_cost :: "ModelPricing \<Rightarrow> int \<Rightarrow> int \<Rightarrow> int" where
  "micro_cost p i k =
     math_Round (fmul (fadd (fmul (fdiv (f64 (of_int i)) 1000000) (InputPer1M p))
                            (fmul (fdiv (f64 (of_int k)) 1000000) (OutputPer1M p))) 1000000)"

lemma CalculateCost_Pricing:
  "CalculateCost m i k =
     (case Pricing m of None \<Rightarrow> Inl (ErrUnknownModel m)
      | Some p \<Rightarrow> Inr (fdiv (of_int (micro_cost p i k)) 1000000))"
  by (simp add: CalculateCost_def micro_cost_def Let_def split: option.splits)

lemma CalculateCost_Inr_iff:
  "CalculateCost m i k = Inr c \<longleftrightarrow>
     (\<exists>p. Pricing m = Some p \<and> c = fdiv (of_int (micro_cost p i k)) 1000000)"
  by (auto simp: CalculateCost_Pricing split: option.splits)

lemma micro_cost_mono:
  assumes "0 \<le> InputPer1M p" "0 \<le> OutputPer1M p" "i \<le> i'" "k \<le> k'"
  shows "micro_cost p i k \<le> micro_cost p i' k'"
  using assms unfolding micro_cost_def fmul_def fadd_def fdiv_def
  by (intro math_Round_mono b64.rnd_mult_mono b64.rnd_add_mono)
    (auto intro!: f64_mono divide_right_mono)

lemma tiny_small: "(2 :: rat) powi (- 1022) * 2 ^ n \<le> 1 / 10 ^ 9" if "n \<le> 8" for n
proof -
  have "(2 :: rat) powi (- 1022) * 2 ^ n \<le> 2 powi (- 1022) * 2 ^ 8"
    using that by (intro mult_left_mono power_increasing) auto
  also have "\<dots> = 2 powi (- 1014)"
    using power_int_add [of "2 :: rat" "- 1022" 8] by simp
  also have "\<dots> \<le> 2 powi (- 30)" by (intro power_int_increasing) auto
  also have "\<dots> \<le> 1 / 10 ^ 9" by (simp add: power_int_minus)
  finally show ?thesis .
qed

lemma f64_step:
  assumes "rounded (1 / 2 ^ 53) n x y" "0 \<le> y" "y = 0 \<or> 1 / 10 ^ 9 \<le> y" "n \<le> 8"
  shows "rounded (1 / 2 ^ 53) (Suc n) (f64 x) y"
  using assms tiny_small [of n] by (intro b64.rounded_rnd_big) (auto intro: order_trans)

text \<open>One product of the formula: a count, scaled and multiplied by a rate.\<close>

lemma token_cost_rounded:
  assumes "0 \<le> i" "r = 0 \<or> 1 / 100 \<le> r"
  shows "rounded (1 / 2 ^ 53) 4 (fmul (fdiv (f64 (of_int i)) 1000000) (f64 r))
           (of_int i * r / 1000000)"
proof -
  have i: "of_int i = (0 :: rat) \<or> 1 \<le> (of_int i :: rat)" "(0 :: rat) \<le> of_int i"
    using assms(1) by auto
  have r: "0 \<le> r" using assms(2) by auto
  have "rounded (1 / 2 ^ 53) 1 (f64 (of_int i)) (of_int i)"
    using i f64_step [of 0 "of_int i" "of_int i"] by auto
  then have "rounded (1 / 2 ^ 53) 2 (fdiv (f64 (of_int i)) 1000000) (of_int i / 1000000)"
    using i f64_step [of 1 "f64 (of_int i) / 1000000" "of_int i / 1000000"]
    by (auto simp: fdiv_def rounded_divide numeral_2_eq_2)
  moreover have "rounded (1 / 2 ^ 53) 1 (f64 r) r"
    using assms(2) r f64_step [of 0 r r] by auto
  ultimately have "rounded (1 / 2 ^ 53) (2 + 1)
      (fdiv (f64 (of_int i)) 1000000 * f64 r) (of_int i / 1000000 * r)"
    by (rule rounded_mult) (use i r in auto)
  then have "rounded (1 / 2 ^ 53) 3
      (fdiv (f64 (of_int i)) 1000000 * f64 r) (of_int i / 1000000 * r)"
    by (simp only: one_plus_numeral_commute one_plus_numeral numeral_plus_one semiring_norm)
  moreover have "of_int i / 1000000 * r = 0 \<or> 1 / 10 ^ 9 \<le> of_int i / 1000000 * r"
  proof (cases "of_int i = (0 :: rat) \<or> r = 0")
    case False
    then have "1 / 1000000 * (1 / 100) \<le> of_int i / 1000000 * r"
      using i assms(2) by (intro mult_mono divide_right_mono) auto
    then show ?thesis by simp
  qed auto
  ultimately show ?thesis
    using i r f64_step [of 3 "fdiv (f64 (of_int i)) 1000000 * f64 r" "of_int i / 1000000 * r"]
    by (simp add: fmul_def)
qed

lemma micro_cost_rounded:
  assumes "0 \<le> i" "0 \<le> k" "a = 0 \<or> 1 / 100 \<le> a" "b = 0 \<or> 1 / 100 \<le> b"
    and p: "InputPer1M p = f64 a" "OutputPer1M p = f64 b"
  shows "\<exists>t. micro_cost p i k = math_Round t
           \<and> rounded (1 / 2 ^ 53) 6 t (of_int i * a + of_int k * b)"
proof -
  let ?E = "(of_int i * a + of_int k * b) / (1000000 :: rat)"
  define s where "s = fmul (fdiv (f64 (of_int i)) 1000000) (f64 a) + fmul (fdiv (f64 (of_int k)) 1000000) (f64 b)"
  have scaled: "of_int n * r = 0 \<or> 1 / 100 \<le> of_int n * r \<and> 0 \<le> r"
    if "0 \<le> n" "r = 0 \<or> 1 / 100 \<le> r" for n :: int and r :: rat
  proof (cases "n = 0 \<or> r = 0")
    case False
    with that have "1 * (1 / 100) \<le> of_int n * r" by (intro mult_mono) auto
    with that False show ?thesis by auto
  qed auto
  have E: "?E = 0 \<or> 1 / 10 ^ 9 \<le> ?E" "0 \<le> ?E"
    using scaled [OF assms(1,3)] scaled [OF assms(2,4)] by (auto simp: field_simps)
  have "rounded (1 / 2 ^ 53) 4 s ?E"
    using rounded_add [OF token_cost_rounded [OF assms(1,3)] token_cost_rounded [OF assms(2,4)]]
    by (simp add: s_def add_divide_distrib)
  then have "rounded (1 / 2 ^ 53) 5 (f64 s) ?E"
    using E f64_step [of 4 s ?E] by simp
  then have "rounded (1 / 2 ^ 53) 5 (f64 s * 1000000) (?E * 1000000)"
    using E(2) rounded_mult [of _ 5 "f64 s" ?E 0 1000000 1000000] by simp
  then have "rounded (1 / 2 ^ 53) 6 (fmul (f64 s) 1000000) (?E * 1000000)"
    using E f64_step [of 5 "f64 s * 1000000" "?E * 1000000"] by (auto simp: fmul_def)
  then have "rounded (1 / 2 ^ 53) 6 (fmul (f64 s) 1000000) (of_int i * a + of_int k * b)"
    by (simp only: nonzero_divide_eq_eq [THEN iffD1] times_divide_eq_left nonzero_mult_div_cancel_right zero_neq_numeral [symmetric] not_False_eq_True)
  moreover have "micro_cost p i k = math_Round (fmul (f64 s) 1000000)"
    by (simp add: micro_cost_def s_def fadd_def p)
  ultimately show ?thesis by blast
qed

lemma rounded_6_err:
  assumes "rounded (1 / 2 ^ 53) 6 t y" "0 \<le> y"
  shows "\<bar>t - y\<bar> \<le> y / 2 ^ 50"
proof -
  have up: "(1 + 1 / 2 ^ 53 :: rat) ^ 6 \<le> 1 + 1 / 2 ^ 50"
    and lo: "1 - 1 / 2 ^ 50 \<le> (1 - 1 / 2 ^ 53 :: rat) ^ 6" by (simp_all add: power_divide)
  from assms have "t \<le> y * (1 + 1 / 2 ^ 53) ^ 6" "y * (1 - 1 / 2 ^ 53) ^ 6 \<le> t"
    by (simp_all add: rounded_def)
  moreover have "y * (1 + 1 / 2 ^ 53) ^ 6 \<le> y * (1 + 1 / 2 ^ 50)"
    using up assms(2) by (rule mult_left_mono)
  moreover have "y * (1 - 1 / 2 ^ 50) \<le> y * (1 - 1 / 2 ^ 53) ^ 6"
    using lo assms(2) by (rule mult_left_mono)
  ultimately show ?thesis by (simp only: abs_le_iff) (simp add: algebra_simps)
qed

text \<open>Six decimals render a whole number of micro-dollars exactly.\<close>

lemma FormatFloat_micro:
  assumes "0 \<le> k" "k \<le> 2 ^ 51"
  shows "FormatFloat_f (fdiv (of_int k) 1000000) 6 = show_decimal 6 (nat k)"
proof -
  let ?x = "of_int k / (1000000 :: rat)"
  have kr: "(of_int k :: rat) \<le> 2 ^ 51"
    using assms(2) by (metis of_int_le_iff of_int_numeral of_int_power)
  have x0: "0 \<le> ?x" using assms by simp
  then have f0: "0 \<le> f64 ?x" by (rule f64_nonneg)
  have "\<bar>f64 ?x - ?x\<bar> \<le> ?x / 2 ^ 53"
  proof (cases "k = 0")
    case False
    with assms have "1 / 10 ^ 9 \<le> ?x" by simp
    then have "2 powi (- 1022) \<le> ?x" using tiny_small [of 0] by simp
    then show ?thesis by (rule f64_rel_pos)
  qed simp
  then have "\<bar>f64 ?x - ?x\<bar> * 1000000 \<le> of_int k / 2 ^ 53" by simp
  then have "\<bar>f64 ?x * 1000000 - of_int k\<bar> \<le> of_int k / 2 ^ 53"
    by (simp only: abs_mult_pos) (simp add: abs_mult_pos left_diff_distrib)
  also have "\<dots> < 1 / 2" using kr by simp
  finally have "rne (f64 ?x * 1000000) = k" by (rule rne_unique)
  with f0 show ?thesis by (simp add: FormatFloat_f_def fdiv_def)
qed

text \<open>What a priced model with non-negative counts costs.\<close>

lemma CalculateCost_near:
  assumes "(m, a, b) \<in> set PricingTable" "0 \<le> i" "0 \<le> k"
  shows "\<exists>n. CalculateCost m i k = Inr (fdiv (of_int n) 1000000) \<and> 0 \<le> n
    \<and> \<bar>of_int n - (of_int i * a + of_int k * b)\<bar> \<le> 1 / 2 + (of_int i * a + of_int k * b) / 2 ^ 50"
proof -
  let ?E = "of_int i * a + of_int k * b"
  have map: "map_of PricingTable m = Some (a, b)"
    using PricingTable_distinct assms(1) by (rule map_of_is_SomeI)
  have ab: "1 / 100 \<le> a" "b = 0 \<or> 1 / 100 \<le> b" using PricingTable_rates [OF assms(1)] by auto
  then have a': "a = 0 \<or> 1 / 100 \<le> a" by blast
  let ?p = "\<lparr>InputPer1M = f64 a, OutputPer1M = f64 b\<rparr>"
  obtain t where n: "micro_cost ?p i k = math_Round t" and t: "rounded (1 / 2 ^ 53) 6 t ?E"
    using micro_cost_rounded [OF assms(2,3) a' ab(2), of ?p] by auto
  have E0: "0 \<le> ?E" using assms(2,3) ab by (intro add_nonneg_nonneg mult_nonneg_nonneg) auto
  have "0 \<le> t" using rounded_nonneg [OF t E0] by simp
  then have "0 \<le> math_Round t" using math_Round_mono [of 0 t] by simp
  moreover have "\<bar>of_int (math_Round t) - ?E\<bar> \<le> 1 / 2 + ?E / 2 ^ 50"
    using math_Round_err [of t] rounded_6_err [OF t E0] by linarith
  moreover have "CalculateCost m i k = Inr (fdiv (of_int (math_Round t)) 1000000)"
    using n by (simp add: CalculateCost_Pricing Pricing_def map)
  ultimately show ?thesis by blast
qed

lemma CalculateCost_nonneg: "CalculateCost m i k = Inr c \<Longrightarrow> 0 \<le> i \<Longrightarrow> 0 \<le> k \<Longrightarrow> 0 \<le> c"
proof -
  assume c: "CalculateCost m i k = Inr c" and ik: "0 \<le> i" "0 \<le> k"
  then obtain a b where "(m, a, b) \<in> set PricingTable"
    by (auto simp: CalculateCost_Inr_iff elim!: Pricing_Some dest!: map_of_SomeD)
  from CalculateCost_near [OF this ik] c show "0 \<le> c"
    by (auto simp: fdiv_def intro!: f64_nonneg)
qed

subsection \<open>Properties\<close>

text \<open>CalculateCost fails exactly for the models without a price, with ErrUnknownModel carrying
  the model id, and KnownModel and PricingForModel agree with it.\<close>

theorem CalculateCost_unknown:
  "(CalculateCost m i k = Inl e) = (\<not> KnownModel m \<and> e = ErrUnknownModel m)
   \<and> snd (PricingForModel m) = KnownModel m
   \<and> KnownModel m = (m \<in> fst ` set PricingTable)"
  using KnownModel_iff [of m]
  by (auto simp: CalculateCost_Pricing KnownModel_def PricingForModel_def split: option.splits)

text \<open>More input or output tokens never cost less.\<close>

theorem CalculateCost_mono:
  assumes "CalculateCost m i k = Inr c" "CalculateCost m i' k' = Inr c'" "i \<le> i'" "k \<le> k'"
  shows "c \<le> c'"
proof -
  from assms(1,2) obtain p where p: "Pricing m = Some p"
    and c: "c = fdiv (of_int (micro_cost p i k)) 1000000"
    and c': "c' = fdiv (of_int (micro_cost p i' k')) 1000000"
    by (auto simp: CalculateCost_Inr_iff)
  have "0 \<le> InputPer1M p" "0 \<le> OutputPer1M p"
    using p by (elim Pricing_Some; auto intro!: f64_nonneg)+
  then have "micro_cost p i k \<le> micro_cost p i' k'" using assms(3,4) by (rule micro_cost_mono)
  then show ?thesis unfolding c c' fdiv_def by (intro f64_mono divide_right_mono) auto
qed

theorem CalculateCost_mono_witness:
  "\<exists>c c'. CalculateCost ''amazon.nova-lite-v1:0'' 1000 200 = Inr c
     \<and> CalculateCost ''amazon.nova-lite-v1:0'' 5000 300 = Inr c' \<and> c \<le> c'"
proof -
  have "KnownModel ''amazon.nova-lite-v1:0''"
    by (simp add: KnownModel_iff PricingTable_def)
  then obtain p where p: "Pricing ''amazon.nova-lite-v1:0'' = Some p"
    by (auto simp: KnownModel_def split: option.splits)
  then obtain c c' where "CalculateCost ''amazon.nova-lite-v1:0'' 1000 200 = Inr c"
    "CalculateCost ''amazon.nova-lite-v1:0'' 5000 300 = Inr c'"
    by (simp add: CalculateCost_Pricing)
  then show ?thesis using CalculateCost_mono by fastforce
qed

text \<open>C4: for a priced model and non-negative counts the result is a whole number of micro-dollars,
  at most half a micro-dollar (and the rounding errors of the float64 operations, below one part in
  \<open>2^50\<close>) away from the exact product of counts and listed rates.\<close>

theorem CalculateCost_accurate:
  assumes "(m, a, b) \<in> set PricingTable" "0 \<le> i" "0 \<le> k"
  shows "\<exists>n. CalculateCost m i k = Inr (fdiv (of_int n) 1000000) \<and> 0 \<le> n
    \<and> \<bar>of_int n - (of_int i * a + of_int k * b)\<bar> \<le> 1 / 2 + (of_int i * a + of_int k * b) / 2 ^ 50"
  using assms by (rule CalculateCost_near)

theorem CalculateCost_accurate_witness:
  "\<exists>n. CalculateCost ''anthropic.claude-haiku-4-5-20251001-v1:0'' 1000 200 = Inr (fdiv (of_int n) 1000000)
    \<and> 0 \<le> n \<and> \<bar>of_int n - (of_int 1000 * (80 / 100) + of_int 200 * (400 / 100))\<bar>
         \<le> 1 / 2 + (of_int 1000 * (80 / 100) + of_int 200 * (400 / 100 :: rat)) / 2 ^ 50"
  by (rule CalculateCost_accurate) (simp_all add: PricingTable_def)

text \<open>The six-decimal string that the proxy returns for a cost (strconv.FormatFloat) is the
  decimal rendering of a number of micro-dollars at most half of one (and one part in \<open>2^50\<close>) off
  the exact cost, for up to \<open>10^12\<close> tokens each way.\<close>

theorem cost_string_exact:
  assumes "(m, a, b) \<in> set PricingTable" "0 \<le> i" "i \<le> 10 ^ 12" "0 \<le> k" "k \<le> 10 ^ 12"
  shows "\<exists>c n. CalculateCost m i k = Inr c \<and> FormatFloat_f c 6 = show_decimal 6 n
    \<and> \<bar>of_nat n - (of_int i * a + of_int k * b)\<bar> \<le> 1 / 2 + (of_int i * a + of_int k * b) / 2 ^ 50"
proof -
  let ?E = "of_int i * a + of_int k * b"
  obtain n where c: "CalculateCost m i k = Inr (fdiv (of_int n) 1000000)" and n: "0 \<le> n"
    and err: "\<bar>of_int n - ?E\<bar> \<le> 1 / 2 + ?E / 2 ^ 50"
    using CalculateCost_near [OF assms(1,2,4)] by blast
  have ab: "0 \<le> a" "a \<le> 100" "0 \<le> b" "b \<le> 100"
    using PricingTable_bounds [OF assms(1)] by auto
  have ik: "(of_int i :: rat) \<le> 10 ^ 12" "(of_int k :: rat) \<le> 10 ^ 12"
    using assms(3,5) by (metis of_int_le_iff of_int_numeral of_int_power)+
  have "of_int i * a \<le> 10 ^ 12 * 100" "of_int k * b \<le> 10 ^ 12 * 100"
    using ab ik assms(2,4) by (intro mult_mono; simp)+
  then have E: "?E \<le> 200000000000000" by simp
  then have "?E / 2 ^ 50 \<le> 1" by simp
  moreover have "of_int n \<le> ?E + 1 / 2 + ?E / 2 ^ 50" using err by (simp only: abs_le_iff) linarith
  ultimately have "(of_int n :: rat) \<le> 2251799813685248" using E by linarith
  then have "(of_int n :: rat) \<le> of_int (2 ^ 51)" by simp
  then have "n \<le> 2 ^ 51" by (simp only: of_int_le_iff)
  then have "FormatFloat_f (fdiv (of_int n) 1000000) 6 = show_decimal 6 (nat n)"
    using n by (intro FormatFloat_micro)
  moreover have "\<bar>of_nat (nat n) - ?E\<bar> \<le> 1 / 2 + ?E / 2 ^ 50" using err n by simp
  ultimately show ?thesis using c by blast
qed

theorem cost_string_exact_witness:
  "\<exists>c n. CalculateCost ''amazon.nova-micro-v1:0'' 100 50 = Inr c \<and> FormatFloat_f c 6 = show_decimal 6 n
    \<and> \<bar>of_nat n - (of_int 100 * (35 / 1000) + of_int 50 * (14 / 100))\<bar>
         \<le> 1 / 2 + (of_int 100 * (35 / 1000) + of_int 50 * (14 / 100 :: rat)) / 2 ^ 50"
  by (rule cost_string_exact) (simp_all add: PricingTable_def)

end
