(* ===== verification/Api_Types.thy ===== *)
theory Api_Types
  imports Prelude
begin

section \<open>The custom resources (api/v1alpha1)\<close>

text \<open>
  The Go types of the three resources, one record per struct and one field per field, in the
  order of the source; a pointer field is an option, int32 and int64 values are integers (the
  program never does arithmetic on them that could wrap; their ranges are checked where they are
  decoded from JSON). Field names that two structs share carry a prefix. Of the library types
  ObjectMeta and Condition the fields that the program reads or writes are kept. The converted
  constants close the theory.
\<close>

type_synonym time = int

text \<open>
  metav1.ObjectMeta and metav1.Condition (k8s.io/apimachinery). A deletion timestamp is a pointer
  to a time; the zero time is 0.
\<close>

record ObjectMeta =
  Name :: string
  Namespace :: string
  Generation :: int
  DeletionTimestamp :: "time option"
  Finalizers :: "string list"

record NamespacedName =
  nnNamespace :: string
  nnName :: string

definition keyOf :: "ObjectMeta \<Rightarrow> NamespacedName" where
  "keyOf m = \<lparr>nnNamespace = Namespace m, nnName = Name m\<rparr>"

lemma keyOf_Finalizers [simp]: "keyOf (m\<lparr>Finalizers := fs\<rparr>) = keyOf m"
  by (simp add: keyOf_def)

definition IsZero :: "time option \<Rightarrow> bool" where
  "IsZero t = (case t of None \<Rightarrow> True | Some n \<Rightarrow> n = 0)"

datatype ConditionStatus = ConditionTrue | ConditionFalse | ConditionUnknown

record Condition =
  cType :: string
  cStatus :: ConditionStatus
  cReason :: string
  cMessage :: string
  LastTransitionTime :: time

subsection \<open>shared\_types.go\<close>

record BudgetSpec =
  Daily :: string
  Monthly :: string

record RateLimitSpec =
  RequestsPerMinute :: int

record ModelEndpointRef =
  refName :: string

definition ConditionReady :: string where "ConditionReady = ''Ready''"
definition ConditionBedrockReachable :: string where "ConditionBedrockReachable = ''BedrockReachable''"
definition ConditionBudgetBreached :: string where "ConditionBudgetBreached = ''BudgetBreached''"
definition ConditionGuardrailSynced :: string where "ConditionGuardrailSynced = ''GuardrailSynced''"

definition FinalizerName :: string where "FinalizerName = ''ai.kernelpanic09.io/finalizer''"

lemmas condition_types =
  ConditionReady_def ConditionBedrockReachable_def ConditionBudgetBreached_def
  ConditionGuardrailSynced_def

subsection \<open>modelendpoint\_types.go\<close>

record ModelEndpointSpec =
  ModelId :: string
  Region :: string
  IRSARoleArn :: string
  epMaxTokens :: "int option"
  CostBudget :: "BudgetSpec option"
  RateLimit :: "RateLimitSpec option"
  GuardrailPolicyRef :: "string option"

record ModelEndpointStatus =
  Available :: bool
  epConditions :: "Condition list"
  CostThisMonth :: string
  CostToday :: string
  InvocationsToday :: int
  TotalInputTokens :: int
  TotalOutputTokens :: int
  ServiceName :: string
  epObservedGeneration :: int

record ModelEndpoint =
  epMeta :: ObjectMeta
  epSpec :: ModelEndpointSpec
  epStatus :: ModelEndpointStatus

subsection \<open>prompttemplate\_types.go\<close>

datatype TemplateVariableType =
    TemplateVariableTypeString
  | TemplateVariableTypeInteger
  | TemplateVariableTypeBoolean

record TemplateVariable =
  tvName :: string
  tvType :: TemplateVariableType
  tvRequired :: bool
  tvDefault :: string
  tvDescription :: string

record PromptTemplateSpec =
  Template :: string
  Variables :: "TemplateVariable list"
  ptModelEndpointRef :: ModelEndpointRef
  ptSystemPrompt :: string
  ptMaxTokens :: "int option"

record PromptTemplateStatus =
  ptConditions :: "Condition list"
  RenderCount :: int
  ptObservedGeneration :: int

record PromptTemplate =
  ptMeta :: ObjectMeta
  ptSpec :: PromptTemplateSpec
  ptStatus :: PromptTemplateStatus

subsection \<open>guardrailpolicy\_types.go\<close>

record ContentFilterConfig =
  InputStrength :: string
  OutputStrength :: string

record ContentFilter =
  cfType :: string
  cfConfig :: ContentFilterConfig

record ContentPolicyConfig =
  Filters :: "ContentFilter list"

datatype PIIAction = PIIActionBlock | PIIActionAnonymize

record PIIEntityConfig =
  piiType :: string
  piiAction :: PIIAction

record SensitiveInformationPolicyConfig =
  PIIEntities :: "PIIEntityConfig list"

record DeniedTopic =
  dtName :: string
  dtDefinition :: string
  dtExamples :: "string list"

record TopicPolicyConfig =
  Topics :: "DeniedTopic list"

record WordPolicyConfig =
  Words :: "string list"
  ManagedWordLists :: "string list"

record GuardrailPolicySpec =
  gpDescription :: string
  BlockedInputMessage :: string
  BlockedOutputsMessage :: string
  ContentPolicy :: "ContentPolicyConfig option"
  SensitiveInformationPolicy :: "SensitiveInformationPolicyConfig option"
  TopicPolicy :: "TopicPolicyConfig option"
  WordPolicy :: "WordPolicyConfig option"

record GuardrailPolicyStatus =
  GuardrailId :: string
  GuardrailVersion :: string
  gpConditions :: "Condition list"
  gpObservedGeneration :: int

record GuardrailPolicy =
  gpMeta :: ObjectMeta
  gpSpec :: GuardrailPolicySpec
  gpStatus :: GuardrailPolicyStatus

subsection \<open>bedrock.EndpointKey (internal/bedrock/client.go)\<close>

record EndpointKey =
  RoleArn :: string
  ekRegion :: string

definition endpoint_key :: "ModelEndpoint \<Rightarrow> EndpointKey" where
  "endpoint_key ep = \<lparr>RoleArn = IRSARoleArn (epSpec ep), ekRegion = Region (epSpec ep)\<rparr>"

end
