(* ===== verification/Controller_Helpers.thy ===== *)
theory Controller_Helpers
  imports Api_Types Float64
begin

section \<open>Helpers of the controllers (internal/controller/modelendpoint\_controller.go)\<close>

text \<open>
  \<open>setCondition\<close>, \<open>conditionStatus\<close>, \<open>sanitizeLabel\<close> and \<open>FormatCost\<close>. The condition list is an
  upsert by condition type; that contract is the locale \<open>upsert\<close>, interpreted here on
  \<open>setCondition\<close>, and the three controllers use its facts.
\<close>

subsection \<open>Upsert by key\<close>

text \<open>
  \<open>put\<close> replaces the first element with the same key, merged with what was there, and appends
  otherwise.
\<close>

definition find_key :: "('c \<Rightarrow> 'k) \<Rightarrow> 'k \<Rightarrow> 'c list \<Rightarrow> 'c option" where
  "find_key key k cs = find (\<lambda>c. key c = k) cs"

lemma find_key_simps [simp]:
  "find_key key k [] = None"
  "find_key key k (c # cs) = (if key c = k then Some c else find_key key k cs)"
  by (simp_all add: find_key_def)

lemma find_key_None_iff: "find_key key k cs = None \<longleftrightarrow> k \<notin> key ` set cs"
  by (induction cs) auto

lemma find_key_Some: "find_key key k cs = Some c \<Longrightarrow> c \<in> set cs \<and> key c = k"
  by (induction cs) (auto split: if_splits)

locale upsert =
  fixes put :: "'c list \<Rightarrow> 'c \<Rightarrow> 'c list" and key :: "'c \<Rightarrow> 'k" and merge :: "'c option \<Rightarrow> 'c \<Rightarrow> 'c"
  assumes put_keys: "map key (put cs c) =
      (if key c \<in> key ` set cs then map key cs else map key cs @ [key c])"
    and put_same: "find_key key (key c) (put cs c) = Some (merge (find_key key (key c) cs) c)"
    and put_other: "k \<noteq> key c \<Longrightarrow> find_key key k (put cs c) = find_key key k cs"
begin

lemma put_key_set: "key ` set (put cs c) = insert (key c) (key ` set cs)"
proof -
  have "key ` set (put cs c) = set (map key (put cs c))" by simp
  then show ?thesis by (auto simp: put_keys)
qed

lemma put_distinct: "distinct (map key cs) \<Longrightarrow> distinct (map key (put cs c))"
  by (auto simp: put_keys)

lemma puts_distinct: "distinct (map key cs) \<Longrightarrow> distinct (map key (foldl put cs ns))"
  by (induction ns arbitrary: cs) (auto intro: put_distinct)

lemma puts_key_set: "key ` set (foldl put cs ns) = key ` set cs \<union> key ` set ns"
  by (induction ns arbitrary: cs) (auto simp: put_key_set)

lemma puts_other: "k \<notin> key ` set ns \<Longrightarrow> find_key key k (foldl put cs ns) = find_key key k cs"
  by (induction ns arbitrary: cs) (auto simp: put_other)

lemma puts_same:
  "distinct (map key ns) \<Longrightarrow> c \<in> set ns \<Longrightarrow>
   find_key key (key c) (foldl put cs ns) = Some (merge (find_key key (key c) cs) c)"
proof (induction ns arbitrary: cs)
  case (Cons n ns)
  show ?case
  proof (cases "c = n")
    case True
    with Cons.prems have "key c \<notin> key ` set ns" by auto
    with True show ?thesis by (simp add: puts_other put_same)
  next
    case False
    with Cons.prems have c: "c \<in> set ns" by simp
    with Cons.prems have "key c \<noteq> key n" by (metis distinct.simps(2) image_eqI list.map(2) set_map)
    with c Cons show ?thesis by (simp add: put_other)
  qed
qed simp

end

subsection \<open>Status conditions\<close>

definition conditionStatus :: "bool \<Rightarrow> ConditionStatus" where
  "conditionStatus ok = (if ok then ConditionTrue else ConditionFalse)"

fun setCondition :: "Condition list \<Rightarrow> Condition \<Rightarrow> Condition list" where
  "setCondition [] newCond = [newCond]"
| "setCondition (c # cs) newCond =
     (if cType c \<noteq> cType newCond then c # setCondition cs newCond
      else (if cStatus c = cStatus newCond
            then newCond\<lparr>LastTransitionTime := LastTransitionTime c\<rparr>
            else newCond) # cs)"

text \<open>What a condition becomes when it meets an older one of its type.\<close>

definition merge_condition :: "Condition option \<Rightarrow> Condition \<Rightarrow> Condition" where
  "merge_condition old n =
     (case old of
        Some c \<Rightarrow> if cStatus c = cStatus n then n\<lparr>LastTransitionTime := LastTransitionTime c\<rparr> else n
      | None \<Rightarrow> n)"

abbreviation condition_of :: "string \<Rightarrow> Condition list \<Rightarrow> Condition option" where
  "condition_of t cs \<equiv> find_key cType t cs"

lemma cType_merge [simp]: "cType (merge_condition old n) = cType n"
  and cStatus_merge [simp]: "cStatus (merge_condition old n) = cStatus n"
  and cReason_merge [simp]: "cReason (merge_condition old n) = cReason n"
  and cMessage_merge [simp]: "cMessage (merge_condition old n) = cMessage n"
  by (simp_all add: merge_condition_def split: option.split)

interpretation conds: upsert setCondition cType merge_condition
proof unfold_locales
  fix cs :: "Condition list" and c :: Condition
  show "map cType (setCondition cs c) =
    (if cType c \<in> cType ` set cs then map cType cs else map cType cs @ [cType c])"
    by (induction cs) auto
  show "condition_of (cType c) (setCondition cs c) = Some (merge_condition (condition_of (cType c) cs) c)"
    by (induction cs) (auto simp: merge_condition_def)
next
  fix k and cs :: "Condition list" and c :: Condition
  assume "k \<noteq> cType c"
  then show "condition_of k (setCondition cs c) = condition_of k cs"
    by (induction cs) auto
qed

text \<open>A run of reports with one type and one status keeps the transition time of the first.\<close>

lemma setCondition_run:
  assumes "\<forall>m \<in> set ns. cType m = t \<and> cStatus m = s"
    and "condition_of t cs = Some c" "cStatus c = s"
  shows "\<exists>d. condition_of t (foldl setCondition cs ns) = Some d \<and> cStatus d = s
    \<and> LastTransitionTime d = LastTransitionTime c"
  using assms
proof (induction ns arbitrary: cs c)
  case (Cons n ns)
  from Cons.prems(1) have n: "cType n = t" "cStatus n = s" by simp_all
  let ?d = "merge_condition (Some c) n"
  have "condition_of t (setCondition cs n) = Some ?d"
    using conds.put_same [of n cs] unfolding n(1) Cons.prems(2) .
  moreover have "cStatus ?d = s" by (simp only: cStatus_merge n(2))
  moreover have t: "LastTransitionTime ?d = LastTransitionTime c"
    unfolding merge_condition_def option.case n(2) Cons.prems(3) by simp
  moreover have "\<forall>m \<in> set ns. cType m = t \<and> cStatus m = s" using Cons.prems(1) by simp
  ultimately have "\<exists>d. condition_of t (foldl setCondition (setCondition cs n) ns) = Some d
      \<and> cStatus d = s \<and> LastTransitionTime d = LastTransitionTime ?d"
    using Cons.IH [of "setCondition cs n" ?d] by blast
  then show ?case by (simp only: foldl_Cons t)
qed simp

subsection \<open>Label values\<close>

definition label_char :: "char \<Rightarrow> bool" where
  "label_char c \<longleftrightarrow> is_alnum c \<or> c = CHR ''-'' \<or> c = CHR ''_'' \<or> c = CHR ''.''"

definition sanitizeLabel :: "string \<Rightarrow> string" where
  "sanitizeLabel s =
     (let out = map (\<lambda>c. if label_char c then c else CHR ''_'') s
      in if length out > 63 then take 63 out else out)"

text \<open>
  The Kubernetes rule for label values: at most 63 bytes, empty or built from alphanumerics,
  dashes, underscores and dots with an alphanumeric at both ends.
\<close>

definition valid_label_value :: "string \<Rightarrow> bool" where
  "valid_label_value s \<longleftrightarrow> s = [] \<or>
     (length s \<le> 63 \<and> list_all label_char s \<and> is_alnum (hd s) \<and> is_alnum (last s))"

lemma sanitizeLabel_take: "sanitizeLabel s = take 63 (map (\<lambda>c. if label_char c then c else CHR ''_'') s)"
  by (simp add: sanitizeLabel_def Let_def)

lemma label_char_underscore [simp]: "label_char CHR ''_''"
  by (simp add: label_char_def)

lemma is_alnum_label [simp]: "is_alnum c \<Longrightarrow> label_char c"
  by (simp add: label_char_def)

lemma not_alnum_underscore [simp]: "\<not> is_alnum CHR ''_''"
  by (simp add: is_alnum_def byte_in_def)

definition FormatCost :: "rat \<Rightarrow> string" where
  "FormatCost v = FormatFloat_f v 2"

subsection \<open>Properties\<close>

text \<open>C15: setCondition keeps the condition types distinct, updates the entry of the new condition's
  type (keeping the old transition time exactly when the status did not change), and leaves every
  other entry as it was.\<close>

theorem setCondition_spec:
  "(distinct (map cType cs) \<longrightarrow> distinct (map cType (setCondition cs n)))
   \<and> cType ` set (setCondition cs n) = insert (cType n) (cType ` set cs)
   \<and> condition_of (cType n) (setCondition cs n) =
       Some (n\<lparr>LastTransitionTime :=
         (case condition_of (cType n) cs of
            Some c \<Rightarrow> if cStatus c = cStatus n then LastTransitionTime c else LastTransitionTime n
          | None \<Rightarrow> LastTransitionTime n)\<rparr>)
   \<and> (\<forall>k. k = cType n \<or> condition_of k (setCondition cs n) = condition_of k cs)"
  using conds.put_distinct conds.put_key_set conds.put_same [of n cs] conds.put_other [of _ n cs]
  by (auto simp: merge_condition_def split: option.splits if_splits)

theorem setCondition_spec_witness:
  "(let c = \<lparr>cType = ''Ready'', cStatus = ConditionTrue, cReason = ''A'', cMessage = [], LastTransitionTime = 1\<rparr>;
        n = c\<lparr>cReason := ''B'', LastTransitionTime := 9\<rparr>
    in setCondition [c] n = [n\<lparr>LastTransitionTime := 1\<rparr>]
       \<and> distinct (map cType (setCondition [c] n)))"
  using setCondition_spec
    [of "[\<lparr>cType = ''Ready'', cStatus = ConditionTrue, cReason = ''A'', cMessage = [], LastTransitionTime = 1\<rparr>]"
        "\<lparr>cType = ''Ready'', cStatus = ConditionTrue, cReason = ''B'', cMessage = [], LastTransitionTime = 9\<rparr>"]
  by (simp add: Let_def)

text \<open>However often a condition is reported again with the same status, its transition time stays
  the one of the report that first set this status.\<close>

theorem setCondition_transition_stable:
  assumes "\<forall>m \<in> set ns. cType m = cType n \<and> cStatus m = cStatus n"
  shows "\<exists>c d. condition_of (cType n) (setCondition cs n) = Some c
    \<and> condition_of (cType n) (foldl setCondition cs (n # ns)) = Some d
    \<and> cStatus d = cStatus n \<and> LastTransitionTime d = LastTransitionTime c"
  using setCondition_run [OF assms, of "setCondition cs n"] conds.put_same [of n cs] by simp

theorem setCondition_transition_stable_witness:
  "\<exists>c d. condition_of ''Ready'' (setCondition []
      \<lparr>cType = ''Ready'', cStatus = ConditionTrue, cReason = [], cMessage = [], LastTransitionTime = 3\<rparr>) = Some c
    \<and> condition_of ''Ready'' (foldl setCondition []
       [\<lparr>cType = ''Ready'', cStatus = ConditionTrue, cReason = [], cMessage = [], LastTransitionTime = 3\<rparr>,
        \<lparr>cType = ''Ready'', cStatus = ConditionTrue, cReason = [], cMessage = [], LastTransitionTime = 8\<rparr>]) = Some d
    \<and> cStatus d = ConditionTrue \<and> LastTransitionTime d = LastTransitionTime c"
  using setCondition_transition_stable
    [of "[\<lparr>cType = ''Ready'', cStatus = ConditionTrue, cReason = [], cMessage = [], LastTransitionTime = 8\<rparr>]"
        "\<lparr>cType = ''Ready'', cStatus = ConditionTrue, cReason = [], cMessage = [], LastTransitionTime = 3\<rparr>" "[]"]
  by simp

text \<open>SanitizeLabel always returns at most 63 allowed bytes and is idempotent, but its result is
  a valid label value exactly when the first byte and the last kept byte of the input are
  alphanumeric: a leading or trailing byte that is not is kept or becomes an underscore.\<close>

theorem sanitizeLabel_valid_iff:
  "length (sanitizeLabel s) \<le> 63 \<and> list_all label_char (sanitizeLabel s)
   \<and> sanitizeLabel (sanitizeLabel s) = sanitizeLabel s
   \<and> valid_label_value (sanitizeLabel s) =
       (s = [] \<or> is_alnum (hd s) \<and> is_alnum (last (take 63 s)))"
proof (intro conjI)
  let ?f = "\<lambda>c. if label_char c then c else CHR ''_''"
  show chars: "list_all label_char (sanitizeLabel s)"
    by (auto simp: sanitizeLabel_take list_all_iff dest!: in_set_takeD)
  show len: "length (sanitizeLabel s) \<le> 63" by (simp add: sanitizeLabel_take)
  have "map ?f (sanitizeLabel s) = sanitizeLabel s"
    using chars by (intro map_idI) (auto simp: list_all_iff)
  then show "sanitizeLabel (sanitizeLabel s) = sanitizeLabel s"
    using len by (simp add: sanitizeLabel_take [of "sanitizeLabel s"])
  have alnum: "is_alnum (?f c) = is_alnum c" for c by (auto split: if_splits)
  show "valid_label_value (sanitizeLabel s) = (s = [] \<or> is_alnum (hd s) \<and> is_alnum (last (take 63 s)))"
  proof (cases "s = []")
    case True
    then show ?thesis by (simp add: valid_label_value_def sanitizeLabel_take)
  next
    case False
    then have "hd (sanitizeLabel s) = ?f (hd s)" "last (sanitizeLabel s) = ?f (last (take 63 s))"
      "sanitizeLabel s \<noteq> []"
      by (simp_all only: sanitizeLabel_take take_map)
        (simp_all add: hd_map last_map)
    then show ?thesis using False chars len alnum by (simp add: valid_label_value_def)
  qed
qed

end
