(* ===== verification/Metrics.thy ===== *)
theory Metrics
  imports Float64
begin

section \<open>Prometheus metrics (internal/metrics/metrics.go)\<close>

text \<open>
  The metric vectors of the operator, with their kind, full name, label names and histogram
  buckets, and the calls the program makes on them. The registry is a library: the model records
  the calls in order (\<open>metric_op\<close>), and \<open>metric_op_ok\<close> says when the client library accepts a call:
  WithLabelValues panics on a wrong number of label values, and a counter panics on a negative
  increment.
\<close>

datatype metric =
    InvocationTotal
  | InputTokensTotal
  | OutputTokensTotal
  | InvocationCostDollars
  | InvocationDurationSeconds
  | RateLimitedTotal
  | BudgetBreachedTotal
  | ReconcileErrorsTotal
  | EndpointAvailable

datatype metric_kind = CounterVec | GaugeVec | HistogramVec

fun metricKind :: "metric \<Rightarrow> metric_kind" where
  "metricKind InvocationDurationSeconds = HistogramVec"
| "metricKind EndpointAvailable = GaugeVec"
| "metricKind _ = CounterVec"

text \<open>Subsystem and name of the options; the namespace is the same for all.\<close>

fun metricOpts :: "metric \<Rightarrow> string \<times> string" where
  "metricOpts InvocationTotal = (''bedrock'', ''invocations_total'')"
| "metricOpts InputTokensTotal = (''bedrock'', ''input_tokens_total'')"
| "metricOpts OutputTokensTotal = (''bedrock'', ''output_tokens_total'')"
| "metricOpts InvocationCostDollars = (''bedrock'', ''invocation_cost_dollars_total'')"
| "metricOpts InvocationDurationSeconds = (''bedrock'', ''invocation_duration_seconds'')"
| "metricOpts RateLimitedTotal = (''proxy'', ''rate_limited_total'')"
| "metricOpts BudgetBreachedTotal = (''proxy'', ''budget_breached_total'')"
| "metricOpts ReconcileErrorsTotal = (''controller'', ''reconcile_errors_total'')"
| "metricOpts EndpointAvailable = (''bedrock'', ''endpoint_available'')"

fun labelNames :: "metric \<Rightarrow> string list" where
  "labelNames InvocationTotal = [''namespace'', ''endpoint'', ''model_id'', ''status'']"
| "labelNames InputTokensTotal = [''namespace'', ''endpoint'', ''model_id'']"
| "labelNames OutputTokensTotal = [''namespace'', ''endpoint'', ''model_id'']"
| "labelNames InvocationCostDollars = [''namespace'', ''endpoint'', ''model_id'']"
| "labelNames InvocationDurationSeconds = [''namespace'', ''endpoint'', ''model_id'']"
| "labelNames RateLimitedTotal = [''namespace'', ''endpoint'']"
| "labelNames BudgetBreachedTotal = [''namespace'', ''endpoint'', ''period'']"
| "labelNames ReconcileErrorsTotal = [''controller'', ''reason'']"
| "labelNames EndpointAvailable = [''namespace'', ''endpoint'', ''model_id'']"

definition durationBuckets :: "rat list" where
  "durationBuckets = [f64 (1 / 10), f64 (1 / 2), 1, 2, 5, 10, 30, 60, 120]"

text \<open>The name Prometheus exposes: namespace, subsystem and name joined by underscores.\<close>

definition fqName :: "metric \<Rightarrow> string" where
  "fqName m = ''k8s_ai_operator_'' @ fst (metricOpts m) @ ''_'' @ snd (metricOpts m)"

text \<open>The registration of init().\<close>

definition registered :: "metric list" where
  "registered =
     [InvocationTotal, InputTokensTotal, OutputTokensTotal, InvocationCostDollars,
      InvocationDurationSeconds, RateLimitedTotal, BudgetBreachedTotal, ReconcileErrorsTotal,
      EndpointAvailable]"

datatype metric_op =
    MInc metric "string list"
  | MAdd metric "string list" rat
  | MObserve metric "string list" rat
  | MSet metric "string list" rat
  | MDelete metric "string list"

fun metric_op_ok :: "metric_op \<Rightarrow> bool" where
  "metric_op_ok (MInc m ls) = (metricKind m = CounterVec \<and> length ls = length (labelNames m))"
| "metric_op_ok (MAdd m ls v) =
     (metricKind m = CounterVec \<and> length ls = length (labelNames m) \<and> 0 \<le> v)"
| "metric_op_ok (MObserve m ls v) = (metricKind m = HistogramVec \<and> length ls = length (labelNames m))"
| "metric_op_ok (MSet m ls v) = (metricKind m = GaugeVec \<and> length ls = length (labelNames m))"
| "metric_op_ok (MDelete m ls) = (length ls = length (labelNames m))"

text \<open>The calls on one metric, in order.\<close>

fun op_metric :: "metric_op \<Rightarrow> metric" where
  "op_metric (MInc m ls) = m"
| "op_metric (MAdd m ls v) = m"
| "op_metric (MObserve m ls v) = m"
| "op_metric (MSet m ls v) = m"
| "op_metric (MDelete m ls) = m"

definition ops_on :: "metric \<Rightarrow> metric_op list \<Rightarrow> metric_op list" where
  "ops_on m ops = filter (\<lambda>x. op_metric x = m) ops"

lemma ops_on_simps [simp]:
  "ops_on m [] = []"
  "ops_on m (x # xs) = (if op_metric x = m then x # ops_on m xs else ops_on m xs)"
  "ops_on m (xs @ ys) = ops_on m xs @ ops_on m ys"
  by (simp_all add: ops_on_def)

text \<open>The registration of init() cannot fail: every metric vector is registered once, all under
  different names.\<close>

theorem registered_names_distinct:
  "distinct (map fqName registered) \<and> m \<in> set registered"
  by (cases m) (simp_all add: registered_def fqName_def)

end
