(* ===== verification/Json.thy ===== *)
theory Json
  imports Float64
begin

section \<open>JSON values and their mapping to Go structs (encoding/json)\<close>

text \<open>
  What the program uses of encoding/json, at the level of values: the bytes of a document are
  parsed by the environment into a \<open>json\<close> value (or a syntax error), and this theory says how
  Unmarshal stores a value into a struct. Keys are matched exactly first and then ignoring case
  (ASCII); unknown keys are skipped, null leaves the target as it is, later keys override earlier
  ones, and the first mismatch in document order is the error returned.
\<close>

datatype json =
    JNull
  | JBool bool
  | JInt int
  | JDec rat
  | JStr string
  | JArr "json list"
  | JObj "(string \<times> json) list"

text \<open>
  \<open>JInt\<close> is a number literal without fraction and exponent, \<open>JDec\<close> any other number literal by
  its value. Errors: malformed bytes with the parser's text, or a value of the wrong shape for a
  Go type.
\<close>

datatype json_error = JsonSyntax string | JsonMismatch json string

type_synonym 'a decoder = "json \<Rightarrow> 'a \<Rightarrow> json_error + 'a"

subsection \<open>Scalars\<close>

fun dec_string :: "string decoder" where
  "dec_string (JStr s) old = Inr s"
| "dec_string JNull old = Inr old"
| "dec_string j old = Inl (JsonMismatch j ''string'')"

fun dec_int :: "nat \<Rightarrow> string \<Rightarrow> int decoder" where
  "dec_int bits ty (JInt n) old =
     (if - (2 ^ (bits - 1)) \<le> n \<and> n < 2 ^ (bits - 1) then Inr n else Inl (JsonMismatch (JInt n) ty))"
| "dec_int bits ty JNull old = Inr old"
| "dec_int bits ty j old = Inl (JsonMismatch j ty)"

abbreviation dec_int32 :: "int decoder" where "dec_int32 \<equiv> dec_int 32 ''int32''"
abbreviation dec_int64 :: "int decoder" where "dec_int64 \<equiv> dec_int 64 ''int64''"

text \<open>The largest magnitude that still rounds to a finite float64.\<close>

definition f64_finite :: "rat \<Rightarrow> bool" where
  "f64_finite x \<longleftrightarrow> \<bar>x\<bar> < 2 ^ 1024 - 2 ^ 970"

fun dec_float64 :: "rat decoder" where
  "dec_float64 (JInt n) old =
     (if f64_finite (of_int n) then Inr (f64 (of_int n)) else Inl (JsonMismatch (JInt n) ''float64''))"
| "dec_float64 (JDec r) old =
     (if f64_finite r then Inr (f64 r) else Inl (JsonMismatch (JDec r) ''float64''))"
| "dec_float64 JNull old = Inr old"
| "dec_float64 j old = Inl (JsonMismatch j ''float64'')"

subsection \<open>Slices, maps and structs\<close>

text \<open>A slice; \<open>z\<close> is the zero value of its elements. Null sets it to nil, the empty slice.\<close>

fun dec_slice :: "'a \<Rightarrow> 'a decoder \<Rightarrow> string \<Rightarrow> 'a list decoder" where
  "dec_slice z d ty JNull old = Inr []"
| "dec_slice z d ty (JArr js) old = mapE (\<lambda>j. d j z) js"
| "dec_slice z d ty j old = Inl (JsonMismatch j ty)"

text \<open>A map[string]string: nil is \<open>None\<close>. Decoding an object allocates a map if there is none.\<close>

fun dec_string_map :: "(string \<rightharpoonup> string) option decoder" where
  "dec_string_map JNull old = Inr None"
| "dec_string_map (JObj kvs) old =
     map_sum id Some
       (foldE (\<lambda>m (k, v). map_sum id (\<lambda>s. m(k \<mapsto> s)) (dec_string v ''''))
              (case old of None \<Rightarrow> Map.empty | Some m \<Rightarrow> m) kvs)"
| "dec_string_map j old = Inl (JsonMismatch j ''map[string]string'')"

definition to_lower :: "char \<Rightarrow> char" where
  "to_lower c = (if byte_in CHR ''A'' CHR ''Z'' c then char_of ((of_char c :: nat) + 32) else c)"

definition fold_eq :: "string \<Rightarrow> string \<Rightarrow> bool" where
  "fold_eq a b \<longleftrightarrow> map to_lower a = map to_lower b"

text \<open>A struct is given by its tags, each with the decoder that stores into that field.\<close>

definition find_field :: "(string \<times> 'a decoder) list \<Rightarrow> string \<Rightarrow> 'a decoder option" where
  "find_field fs k =
     (case map_of fs k of
        Some d \<Rightarrow> Some d
      | None \<Rightarrow> map_option snd (find (\<lambda>(n, _). fold_eq n k) fs))"

fun dec_struct :: "string \<Rightarrow> (string \<times> 'a decoder) list \<Rightarrow> 'a decoder" where
  "dec_struct ty fs JNull old = Inr old"
| "dec_struct ty fs (JObj kvs) old =
     foldE (\<lambda>s (k, v). case find_field fs k of None \<Rightarrow> Inr s | Some d \<Rightarrow> d v s) old kvs"
| "dec_struct ty fs j old = Inl (JsonMismatch j ty)"

text \<open>Storing into one field of a record.\<close>

definition into :: "('s \<Rightarrow> 'a) \<Rightarrow> (('a \<Rightarrow> 'a) \<Rightarrow> 's \<Rightarrow> 's) \<Rightarrow> 'a decoder \<Rightarrow> 's decoder" where
  "into get upd d j s = map_sum id (\<lambda>v. upd (\<lambda>_. v) s) (d j (get s))"

lemma into_Inr: "into get upd d j s = Inr s' \<longleftrightarrow> (\<exists>v. d j (get s) = Inr v \<and> s' = upd (\<lambda>_. v) s)"
  by (cases "d j (get s)") (auto simp: into_def)

lemmas into_InrD = into_Inr [THEN iffD1]

lemma dec_int_range: "dec_int b ty j old = Inr n \<Longrightarrow> n = old \<or> - (2 ^ (b - 1)) \<le> n \<and> n < 2 ^ (b - 1)"
  by (cases j) (auto split: if_splits)

text \<open>An object whose keys are distinct and all different from a tag (ignoring case) leaves it.\<close>

lemma dec_struct_invariant:
  assumes "dec_struct ty fs j s = Inr s'" "P s"
    and "\<And>n d v t t'. (n, d) \<in> set fs \<Longrightarrow> d v t = Inr t' \<Longrightarrow> P t \<Longrightarrow> P t'"
  shows "P s'"
proof (cases j)
  case (JObj kvs)
  have step: "find_field fs k = Some d \<Longrightarrow> \<exists>n. (n, d) \<in> set fs" for k d
    by (auto simp: find_field_def find_Some_iff split: option.splits dest!: map_of_SomeD)
      (metis nth_mem prod.collapse)
  have "foldE (\<lambda>s (k, v). case find_field fs k of None \<Rightarrow> Inr s | Some d \<Rightarrow> d v s) s kvs = Inr s' \<Longrightarrow>
      P s \<Longrightarrow> P s'" for s
  proof (induction kvs arbitrary: s)
    case (Cons kv kvs)
    obtain k v where kv: "kv = (k, v)" by fastforce
    show ?case
    proof (cases "find_field fs k")
      case None
      with Cons kv show ?thesis by simp
    next
      case (Some d)
      with Cons.prems kv obtain t where "d v s = Inr t"
        "foldE (\<lambda>s (k, v). case find_field fs k of None \<Rightarrow> Inr s | Some d \<Rightarrow> d v s) t kvs = Inr s'"
        by (auto split: sum.splits)
      with Some step assms(3) Cons show ?thesis by blast
    qed
  qed simp
  with assms JObj show ?thesis by simp
qed (use assms in auto)

end
