(* ===== verification/Bedrock_Client.thy ===== *)
theory Bedrock_Client
  imports Api_Types Json
begin

section \<open>The Bedrock client (internal/bedrock/client.go and health.go)\<close>

text \<open>
  \<open>Client\<close> holds the ambient AWS configuration and two caches of SDK clients, one for the runtime
  and one for the control plane, keyed by role and region. The AWS SDK is the environment: an SDK
  client is the configuration it was built from and an identity (the number of the construction),
  and the network calls are fields of the record \<open>aws\<close> over a world state \<open>'w\<close>. Both cache lookups
  follow one contract, the locale \<open>client_cache\<close>, interpreted for the runtime and for the control
  table. The invariant \<open>client_wf\<close> ties every cached client to the credentials of its key.
\<close>

subsection \<open>Configurations, SDK clients and the calls on them\<close>

text \<open>
  Credentials are those of the pod, or an assumed role: the credentials the STS client uses, the
  role and the session name.
\<close>

datatype creds = AmbientCreds | AssumeRole creds string string

record AwsConfig =
  cfgRegion :: string
  cfgCreds :: creds

record AwsClient =
  clIdent :: nat
  clConfig :: AwsConfig

record Message =
  Role :: string
  Content :: string

record InvokeInput =
  iiModelId :: string
  iiSystemPrompt :: string
  iiMessages :: "Message list"
  iiMaxTokens :: int
  iiTemperature :: rat

record InvokeOutput =
  ioContent :: string
  ioInputTokens :: int
  ioOutputTokens :: int
  ioStopReason :: string

text \<open>
  The SDK calls: InvokeModel returns an error or a body (parsed, or the parser's complaint);
  GetFoundationModel only matters for its error.
\<close>

record 'w aws =
  awsInvokeModel :: "AwsClient \<Rightarrow> string \<Rightarrow> json \<Rightarrow> 'w \<Rightarrow> (go_error + (string + json)) \<times> 'w"
  awsGetFoundationModel :: "AwsClient \<Rightarrow> string \<Rightarrow> 'w \<Rightarrow> go_error option \<times> 'w"

subsection \<open>The client and its caches\<close>

record BedrockClient =
  baseConfig :: AwsConfig
  runtimeTab :: "EndpointKey \<Rightarrow> AwsClient option"
  controlTab :: "EndpointKey \<Rightarrow> AwsClient option"
  constructed :: nat

text \<open>NewClient; the argument is the result of config.LoadDefaultConfig.\<close>

definition NewClient :: "go_error + AwsConfig \<Rightarrow> go_error + BedrockClient" where
  "NewClient loaded =
     (case loaded of
        Inl err \<Rightarrow> Inl (Wrapf ''loading ambient AWS config'' err)
      | Inr cfg \<Rightarrow> Inr \<lparr>baseConfig = cfg, runtimeTab = Map.empty, controlTab = Map.empty, constructed = 0\<rparr>)"

definition assumeRoleConfig :: "BedrockClient \<Rightarrow> EndpointKey \<Rightarrow> go_error + AwsConfig" where
  "assumeRoleConfig c key =
     (let credentials = AssumeRole (cfgCreds (baseConfig c)) (RoleArn key) ''k8s-ai-operator'';
          assumedCfg = baseConfig c
      in Inr (assumedCfg\<lparr>cfgRegion := ekRegion key, cfgCreds := credentials\<rparr>))"

text \<open>NewFromConfig of the SDK: a new client with the next identity.\<close>

definition NewFromConfig :: "AwsConfig \<Rightarrow> BedrockClient \<Rightarrow> AwsClient \<times> BedrockClient" where
  "NewFromConfig cfg c =
     (\<lparr>clIdent = constructed c, clConfig = cfg\<rparr>, c\<lparr>constructed := Suc (constructed c)\<rparr>)"

text \<open>
  The two critical sections of \<open>runtimeClient\<close> and \<open>controlClient\<close>: the lookup under the read
  lock, and the second lookup and construction under the write lock.
\<close>

definition runtime_read :: "BedrockClient \<Rightarrow> EndpointKey \<Rightarrow> AwsClient option" where
  "runtime_read c key = runtimeTab c key"

definition runtime_locked :: "BedrockClient \<Rightarrow> EndpointKey \<Rightarrow> (go_error + AwsClient) \<times> BedrockClient" where
  "runtime_locked c key =
     (case runtimeTab c key of
        Some cl \<Rightarrow> (Inr cl, c)
      | None \<Rightarrow>
          (case assumeRoleConfig c key of
             Inl err \<Rightarrow> (Inl err, c)
           | Inr assumedCfg \<Rightarrow>
               let (cl, c') = NewFromConfig assumedCfg c
               in (Inr cl, c'\<lparr>runtimeTab := (runtimeTab c')(key \<mapsto> cl)\<rparr>)))"

definition runtimeClient :: "BedrockClient \<Rightarrow> EndpointKey \<Rightarrow> (go_error + AwsClient) \<times> BedrockClient" where
  "runtimeClient c key =
     (case runtime_read c key of Some cl \<Rightarrow> (Inr cl, c) | None \<Rightarrow> runtime_locked c key)"

definition control_read :: "BedrockClient \<Rightarrow> EndpointKey \<Rightarrow> AwsClient option" where
  "control_read c key = controlTab c key"

definition control_locked :: "BedrockClient \<Rightarrow> EndpointKey \<Rightarrow> (go_error + AwsClient) \<times> BedrockClient" where
  "control_locked c key =
     (case controlTab c key of
        Some cl \<Rightarrow> (Inr cl, c)
      | None \<Rightarrow>
          (case assumeRoleConfig c key of
             Inl err \<Rightarrow> (Inl err, c)
           | Inr assumedCfg \<Rightarrow>
               let (cl, c') = NewFromConfig assumedCfg c
               in (Inr cl, c'\<lparr>controlTab := (controlTab c')(key \<mapsto> cl)\<rparr>)))"

definition controlClient :: "BedrockClient \<Rightarrow> EndpointKey \<Rightarrow> (go_error + AwsClient) \<times> BedrockClient" where
  "controlClient c key =
     (case control_read c key of Some cl \<Rightarrow> (Inr cl, c) | None \<Rightarrow> control_locked c key)"

definition InvalidateCache :: "BedrockClient \<Rightarrow> EndpointKey \<Rightarrow> BedrockClient" where
  "InvalidateCache c key =
     c\<lparr>runtimeTab := (runtimeTab c)(key := None), controlTab := (controlTab c)(key := None)\<rparr>"

lemmas runtime_defs = runtimeClient_def runtime_read_def runtime_locked_def
lemmas control_defs = controlClient_def control_read_def control_locked_def

subsection \<open>The contract of a client cache\<close>

locale client_cache =
  fixes get :: "'s \<Rightarrow> 'k \<Rightarrow> ('e + 'c) \<times> 's" and tab :: "'s \<Rightarrow> 'k \<Rightarrow> 'c option"
    and evict :: "'s \<Rightarrow> 'k \<Rightarrow> 's"
  assumes get_ok: "\<exists>cl s'. get s k = (Inr cl, s')"
    and get_hit: "tab s k = Some cl \<Longrightarrow> get s k = (Inr cl, s)"
    and get_tab: "get s k = (Inr cl, s') \<Longrightarrow> tab s' = (tab s)(k \<mapsto> cl)"
    and evict_tab: "tab (evict s k) = (tab s)(k := None)"
begin

text \<open>A run of lookups.\<close>

definition gets :: "'s \<Rightarrow> 'k list \<Rightarrow> 's" where
  "gets s ks = foldl (\<lambda>s k. snd (get s k)) s ks"

lemma get_keeps: "tab s k = Some cl \<Longrightarrow> tab (snd (get s k')) k = Some cl"
proof -
  assume k: "tab s k = Some cl"
  obtain cl' s' where g: "get s k' = (Inr cl', s')" using get_ok by blast
  show ?thesis
  proof (cases "k' = k")
    case True
    with k g get_hit have "s' = s" by fastforce
    with g k show ?thesis by simp
  next
    case False
    with g k get_tab [OF g] show ?thesis by simp
  qed
qed

lemma gets_keep: "tab s k = Some cl \<Longrightarrow> tab (gets s ks) k = Some cl"
  unfolding gets_def by (induction ks arbitrary: s) (auto intro: get_keeps)

lemma get_stable:
  assumes "get s k = (Inr cl, s')"
  shows "get (gets s' ks) k = (Inr cl, gets s' ks)"
  using get_tab [OF assms] gets_keep [of s' k cl ks] get_hit by simp

lemma get_other: "k' \<noteq> k \<Longrightarrow> tab (snd (get s k)) k' = tab s k'"
  using get_ok [of s k] get_tab [of s k] by fastforce

end

lemma runtimeTab_get:
  "runtimeClient c key =
     (case runtimeTab c key of
        Some cl \<Rightarrow> (Inr cl, c)
      | None \<Rightarrow>
          (let cl = \<lparr>clIdent = constructed c,
                     clConfig = (baseConfig c)\<lparr>cfgRegion := ekRegion key,
                       cfgCreds := AssumeRole (cfgCreds (baseConfig c)) (RoleArn key) ''k8s-ai-operator''\<rparr>\<rparr>
           in (Inr cl, c\<lparr>constructed := Suc (constructed c), runtimeTab := (runtimeTab c)(key \<mapsto> cl)\<rparr>)))"
  by (simp add: runtime_defs assumeRoleConfig_def NewFromConfig_def Let_def split: option.splits)

lemma controlTab_get:
  "controlClient c key =
     (case controlTab c key of
        Some cl \<Rightarrow> (Inr cl, c)
      | None \<Rightarrow>
          (let cl = \<lparr>clIdent = constructed c,
                     clConfig = (baseConfig c)\<lparr>cfgRegion := ekRegion key,
                       cfgCreds := AssumeRole (cfgCreds (baseConfig c)) (RoleArn key) ''k8s-ai-operator''\<rparr>\<rparr>
           in (Inr cl, c\<lparr>constructed := Suc (constructed c), controlTab := (controlTab c)(key \<mapsto> cl)\<rparr>)))"
  by (simp add: control_defs assumeRoleConfig_def NewFromConfig_def Let_def split: option.splits)

interpretation runtime: client_cache runtimeClient runtimeTab InvalidateCache
  by unfold_locales
    (auto simp: runtimeTab_get InvalidateCache_def Let_def map_upd_triv split: option.splits)

interpretation control: client_cache controlClient controlTab InvalidateCache
  by unfold_locales
    (auto simp: controlTab_get InvalidateCache_def Let_def map_upd_triv split: option.splits)

subsection \<open>The invariant of the caches\<close>

definition role_config :: "AwsConfig \<Rightarrow> EndpointKey \<Rightarrow> AwsConfig" where
  "role_config base key =
     base\<lparr>cfgRegion := ekRegion key, cfgCreds := AssumeRole (cfgCreds base) (RoleArn key) ''k8s-ai-operator''\<rparr>"

definition client_wf :: "BedrockClient \<Rightarrow> bool" where
  "client_wf c \<longleftrightarrow>
     (\<forall>key cl. runtimeTab c key = Some cl \<or> controlTab c key = Some cl \<longrightarrow>
        clConfig cl = role_config (baseConfig c) key \<and> clIdent cl < constructed c)"

lemma NewClient_wf: "NewClient l = Inr c \<Longrightarrow> client_wf c"
  by (auto simp: NewClient_def client_wf_def split: sum.splits)

lemma runtimeClient_wf:
  assumes "client_wf c" "runtimeClient c key = (r, c')"
  shows "client_wf c' \<and> baseConfig c' = baseConfig c \<and> controlTab c' = controlTab c
    \<and> constructed c \<le> constructed c'
    \<and> (\<exists>cl. r = Inr cl \<and> clConfig cl = role_config (baseConfig c) key)"
  using assms
  by (auto simp: runtimeTab_get client_wf_def role_config_def Let_def less_Suc_eq split: option.splits if_splits)

lemma controlClient_wf:
  assumes "client_wf c" "controlClient c key = (r, c')"
  shows "client_wf c' \<and> baseConfig c' = baseConfig c \<and> runtimeTab c' = runtimeTab c
    \<and> constructed c \<le> constructed c'
    \<and> (\<exists>cl. r = Inr cl \<and> clConfig cl = role_config (baseConfig c) key)"
  using assms
  by (auto simp: controlTab_get client_wf_def role_config_def Let_def less_Suc_eq split: option.splits if_splits)

lemma InvalidateCache_wf: "client_wf c \<Longrightarrow> client_wf (InvalidateCache c key)"
  by (auto simp: client_wf_def InvalidateCache_def split: if_splits)

end
