(* ===== verification/Bedrock_Invoke.thy ===== *)
theory Bedrock_Invoke
  imports Bedrock_Client
begin

section \<open>Invocations and health checks (internal/bedrock/client.go and health.go)\<close>

text \<open>
  \<open>Invoke\<close> builds the Converse request, marshals it, calls InvokeModel through the cached runtime
  client and decodes the response; \<open>CheckModelAvailability\<close> and \<open>HealthCheck\<close> use the control plane.
  The lemmas say what a request body contains for every input, what becomes of every response,
  and that the SDK client used carries the role and region of the endpoint.
\<close>

subsection \<open>The request\<close>

record converseMessage =
  cmRole :: string
  cmContent :: "string list"

record inferenceConfig =
  icMaxTokens :: "int option"
  icTemperature :: "rat option"

record converseRequest =
  crModelId :: string
  crMessages :: "converseMessage list"
  crSystem :: "string list"
  crInferenceConfig :: "inferenceConfig option"

definition build_request :: "InvokeInput \<Rightarrow> converseRequest" where
  "build_request input =
     \<lparr>crModelId = iiModelId input,
      crMessages = map (\<lambda>m. \<lparr>cmRole = Role m, cmContent = [Content m]\<rparr>) (iiMessages input),
      crSystem = (if iiSystemPrompt input \<noteq> [] then [iiSystemPrompt input] else []),
      crInferenceConfig =
        (if iiMaxTokens input > 0 \<or> iiTemperature input > 0
         then Some \<lparr>icMaxTokens = (if iiMaxTokens input > 0 then Some (iiMaxTokens input) else None),
                    icTemperature = (if iiTemperature input > 0 then Some (iiTemperature input) else None)\<rparr>
         else None)\<rparr>"

text \<open>
  json.Marshal with the struct tags: fields in order, an omitempty field only when it is not
  empty. A number is the value it decodes to.
\<close>

definition json_texts :: "string list \<Rightarrow> json" where
  "json_texts ts = JArr (map (\<lambda>t. JObj [(''text'', JStr t)]) ts)"

definition json_message :: "converseMessage \<Rightarrow> json" where
  "json_message m = JObj [(''role'', JStr (cmRole m)), (''content'', json_texts (cmContent m))]"

definition json_inference :: "inferenceConfig \<Rightarrow> json" where
  "json_inference ic =
     JObj ((case icMaxTokens ic of None \<Rightarrow> [] | Some n \<Rightarrow> [(''maxTokens'', JInt n)])
           @ (case icTemperature ic of None \<Rightarrow> [] | Some t \<Rightarrow> [(''temperature'', JDec t)]))"

definition json_request :: "converseRequest \<Rightarrow> json" where
  "json_request r =
     JObj ([(''modelId'', JStr (crModelId r)),
            (''messages'', JArr (map json_message (crMessages r)))]
           @ (if crSystem r = [] then [] else [(''system'', json_texts (crSystem r))])
           @ (case crInferenceConfig r of None \<Rightarrow> [] | Some ic \<Rightarrow> [(''inferenceConfig'', json_inference ic)]))"

subsection \<open>The response\<close>

text \<open>converseResponse, with the nested anonymous structs flattened.\<close>

record converseResponse =
  rspRole :: string
  rspContent :: "string list"
  rspInputTokens :: int
  rspOutputTokens :: int
  rspStopReason :: string

definition zero_response :: converseResponse where
  "zero_response = \<lparr>rspRole = [], rspContent = [], rspInputTokens = 0, rspOutputTokens = 0, rspStopReason = []\<rparr>"

definition dec_message :: "converseResponse decoder" where
  "dec_message =
     dec_struct ''struct''
       [(''role'', into rspRole rspRole_update dec_string),
        (''content'', into rspContent rspContent_update
           (dec_slice [] (dec_struct ''struct'' [(''text'', dec_string)]) ''[]struct''))]"

definition dec_usage :: "converseResponse decoder" where
  "dec_usage =
     dec_struct ''struct''
       [(''inputTokens'', into rspInputTokens rspInputTokens_update dec_int64),
        (''outputTokens'', into rspOutputTokens rspOutputTokens_update dec_int64)]"

definition dec_response :: "converseResponse decoder" where
  "dec_response =
     dec_struct ''bedrock.converseResponse''
       [(''output'', dec_struct ''struct'' [(''message'', dec_message)]),
        (''usage'', dec_usage),
        (''stopReason'', into rspStopReason rspStopReason_update dec_string)]"

text \<open>The text of a JSON error; encoding/json also names the struct field, which is left out.\<close>

fun json_kind :: "json \<Rightarrow> string" where
  "json_kind JNull = ''null''"
| "json_kind (JBool b) = ''bool''"
| "json_kind (JInt n) = ''number''"
| "json_kind (JDec r) = ''number''"
| "json_kind (JStr s) = ''string''"
| "json_kind (JArr js) = ''array''"
| "json_kind (JObj kvs) = ''object''"

fun json_error_text :: "json_error \<Rightarrow> string" where
  "json_error_text (JsonSyntax s) = s"
| "json_error_text (JsonMismatch j ty) =
     ''json: cannot unmarshal '' @ json_kind j @ '' into Go value of type '' @ ty"

text \<open>json.Unmarshal into a variable that starts at \<open>z\<close>.\<close>

definition unmarshal :: "'a decoder \<Rightarrow> 'a \<Rightarrow> string + json \<Rightarrow> json_error + 'a" where
  "unmarshal d z body = (case body of Inl s \<Rightarrow> Inl (JsonSyntax s) | Inr j \<Rightarrow> d j z)"

definition response_output :: "converseResponse \<Rightarrow> InvokeOutput" where
  "response_output out =
     \<lparr>ioContent = (case rspContent out of [] \<Rightarrow> [] | t # _ \<Rightarrow> t),
      ioInputTokens = rspInputTokens out,
      ioOutputTokens = rspOutputTokens out,
      ioStopReason = rspStopReason out\<rparr>"

subsection \<open>Invoke\<close>

text \<open>
  json.Marshal fails on no converseRequest (its only float is a decoded JSON number, never NaN or
  infinite), so the error branch of the source after it is unreachable.
\<close>

definition Invoke :: "'w aws \<Rightarrow> EndpointKey \<Rightarrow> InvokeInput \<Rightarrow> BedrockClient \<Rightarrow> 'w
    \<Rightarrow> (go_error + InvokeOutput) \<times> BedrockClient \<times> 'w" where
  "Invoke sdk key input c w =
     (case runtimeClient c key of
        (Inl err, c') \<Rightarrow>
          (Inl (Wrapf (''getting runtime client for '' @ RoleArn key @ ''/'' @ ekRegion key) err), c', w)
      | (Inr rt, c') \<Rightarrow>
          let body = json_request (build_request input) in
          (case awsInvokeModel sdk rt (iiModelId input) body w of
             (Inl err, w') \<Rightarrow> (Inl (Wrapf (''invoking model '' @ iiModelId input) err), c', w')
           | (Inr respBody, w') \<Rightarrow>
               (case unmarshal dec_response zero_response respBody of
                  Inl err \<Rightarrow>
                    (Inl (Wrapf ''unmarshaling bedrock response'' (ErrMsg (json_error_text err))), c', w')
                | Inr out \<Rightarrow> (Inr (response_output out), c', w'))))"

subsection \<open>Health (health.go)\<close>

definition CheckModelAvailability :: "'w aws \<Rightarrow> EndpointKey \<Rightarrow> string \<Rightarrow> BedrockClient \<Rightarrow> 'w
    \<Rightarrow> go_error option \<times> BedrockClient \<times> 'w" where
  "CheckModelAvailability sdk key modelId c w =
     (case controlClient c key of
        (Inl err, c') \<Rightarrow> (Some (Wrapf ''building control-plane client'' err), c', w)
      | (Inr ctrl, c') \<Rightarrow>
          (case awsGetFoundationModel sdk ctrl modelId w of
             (Some err, w') \<Rightarrow>
               (Some (Wrapf (''model '' @ go_quote modelId @ '' not available in '' @ ekRegion key) err), c', w')
           | (None, w') \<Rightarrow> (None, c', w')))"

record HealthResult =
  hrAvailable :: bool
  hrReason :: string
  hrMessage :: string

definition HealthCheck :: "'w aws \<Rightarrow> EndpointKey \<Rightarrow> string \<Rightarrow> BedrockClient \<Rightarrow> 'w
    \<Rightarrow> HealthResult \<times> BedrockClient \<times> 'w" where
  "HealthCheck sdk key modelId c w =
     (case CheckModelAvailability sdk key modelId c w of
        (Some err, c', w') \<Rightarrow>
          (\<lparr>hrAvailable = False, hrReason = ''BedrockUnavailable'', hrMessage = error_text err\<rparr>, c', w')
      | (None, c', w') \<Rightarrow>
          (\<lparr>hrAvailable = True, hrReason = ''ModelAvailable'',
            hrMessage = ''model '' @ go_quote modelId @ '' is available in '' @ ekRegion key\<rparr>, c', w'))"

subsection \<open>Lemmas\<close>

lemma Invoke_wf:
  assumes "client_wf c" "Invoke sdk key input c w = (r, c', w')"
  shows "client_wf c' \<and> baseConfig c' = baseConfig c \<and> controlTab c' = controlTab c"
proof -
  obtain q c1 where g: "runtimeClient c key = (q, c1)" by fastforce
  note runtimeClient_wf [OF assms(1) g]
  moreover have "c' = c1"
    using assms(2) g by (auto simp: Invoke_def Let_def split: sum.splits prod.splits)
  ultimately show ?thesis by blast
qed

lemma HealthCheck_wf:
  assumes "client_wf c" "HealthCheck sdk key m c w = (r, c', w')"
  shows "client_wf c' \<and> baseConfig c' = baseConfig c \<and> runtimeTab c' = runtimeTab c"
proof -
  obtain q c1 where g: "controlClient c key = (q, c1)" by fastforce
  note controlClient_wf [OF assms(1) g]
  moreover have "c' = c1"
    using assms(2) g
    by (auto simp: HealthCheck_def CheckModelAvailability_def split: sum.splits prod.splits option.splits)
  ultimately show ?thesis by blast
qed

text \<open>Equality of request bodies is equality of requests.\<close>

lemma json_texts_inject [simp]: "json_texts ts = json_texts ts' \<longleftrightarrow> ts = ts'"
  unfolding json_texts_def by (simp add: inj_map_eq_map inj_def)

lemma json_message_inject [simp]: "json_message m = json_message m' \<longleftrightarrow> m = (m' :: converseMessage)"
  by (cases m; cases m') (auto simp: json_message_def)

lemma json_messages_inject [simp]:
  "map json_message ms = map json_message ms' \<longleftrightarrow> ms = (ms' :: converseMessage list)"
  by (simp add: inj_map_eq_map inj_def)

lemma json_inference_inject [simp]:
  "json_inference i = json_inference i' \<longleftrightarrow> i = (i' :: inferenceConfig)"
  by (cases i; cases i') (auto simp: json_inference_def split: option.splits)

lemma json_request_inject: "json_request r = json_request r' \<longleftrightarrow> r = (r' :: converseRequest)"
  by (cases r; cases r') (auto simp: json_request_def split: option.splits if_splits)

lemma positive_part: "(if 0 < x then Some x else None) = (if 0 < y then Some y else None) \<longleftrightarrow> max 0 x = max 0 y"
  for x y :: "'a :: {linorder, zero}"
  by (auto simp: max_def)

lemma build_messages_inject:
  "map (\<lambda>m. \<lparr>cmRole = Role m, cmContent = [Content m]\<rparr>) ms
     = map (\<lambda>m. \<lparr>cmRole = Role m, cmContent = [Content m]\<rparr>) ms' \<longleftrightarrow> ms = (ms' :: Message list)"
  by (rule inj_map_eq_map) (auto simp: inj_def)

lemma build_request_inject:
  "build_request a = build_request b \<longleftrightarrow>
   iiModelId a = iiModelId b \<and> iiMessages a = iiMessages b \<and> iiSystemPrompt a = iiSystemPrompt b
    \<and> max 0 (iiMaxTokens a) = max 0 (iiMaxTokens b)
    \<and> max 0 (iiTemperature a) = max 0 (iiTemperature b)"
proof -
  have model: "crModelId (build_request x) = iiModelId x" for x by (simp add: build_request_def)
  have msgs: "crMessages (build_request a) = crMessages (build_request b) \<longleftrightarrow> iiMessages a = iiMessages b"
    by (simp add: build_request_def build_messages_inject)
  have sys: "crSystem (build_request a) = crSystem (build_request b) \<longleftrightarrow> iiSystemPrompt a = iiSystemPrompt b"
    by (auto simp: build_request_def)
  have inf: "crInferenceConfig (build_request a) = crInferenceConfig (build_request b) \<longleftrightarrow>
      max 0 (iiMaxTokens a) = max 0 (iiMaxTokens b)
      \<and> max 0 (iiTemperature a) = max 0 (iiTemperature b)"
    unfolding positive_part [symmetric] by (auto simp: build_request_def)
  have "build_request a = build_request b \<longleftrightarrow>
      crModelId (build_request a) = crModelId (build_request b)
      \<and> crMessages (build_request a) = crMessages (build_request b)
      \<and> crSystem (build_request a) = crSystem (build_request b)
      \<and> crInferenceConfig (build_request a) = crInferenceConfig (build_request b)"
    by (auto simp: converseRequest.equality)
  then show ?thesis
    by (simp only: model msgs sys inf)
qed

subsection \<open>Runs of the client\<close>

text \<open>The operations that controllers and proxy perform on one client, in any order.\<close>

datatype client_op =
    OpInvoke EndpointKey InvokeInput
  | OpHealth EndpointKey string
  | OpInvalidate EndpointKey

fun client_step :: "'w aws \<Rightarrow> BedrockClient \<times> 'w \<Rightarrow> client_op \<Rightarrow> BedrockClient \<times> 'w" where
  "client_step sdk (c, w) (OpInvoke key input) = snd (Invoke sdk key input c w)"
| "client_step sdk (c, w) (OpHealth key m) = snd (HealthCheck sdk key m c w)"
| "client_step sdk (c, w) (OpInvalidate key) = (InvalidateCache c key, w)"

definition client_run :: "'w aws \<Rightarrow> BedrockClient \<times> 'w \<Rightarrow> client_op list \<Rightarrow> BedrockClient \<times> 'w" where
  "client_run sdk cw ops = foldl (client_step sdk) cw ops"

lemma client_step_wf:
  assumes "client_wf (fst cw)"
  shows "client_wf (fst (client_step sdk cw op)) \<and> baseConfig (fst (client_step sdk cw op)) = baseConfig (fst cw)"
proof (cases cw)
  case (Pair c w)
  with assms have wf: "client_wf c" by simp
  show ?thesis
  proof (cases op)
    case (OpInvoke key input)
    then show ?thesis using Invoke_wf [OF wf] Pair by (metis client_step.simps(1) fst_conv prod.collapse)
  next
    case (OpHealth key m)
    then show ?thesis using HealthCheck_wf [OF wf] Pair by (metis client_step.simps(2) fst_conv prod.collapse)
  next
    case (OpInvalidate key)
    then show ?thesis using InvalidateCache_wf [OF wf] Pair by (simp add: InvalidateCache_def)
  qed
qed

lemma client_run_wf:
  "client_wf (fst cw) \<Longrightarrow> client_wf (fst (client_run sdk cw ops))
     \<and> baseConfig (fst (client_run sdk cw ops)) = baseConfig (fst cw)"
  unfolding client_run_def by (induction ops arbitrary: cw) (use client_step_wf in \<open>fastforce+\<close>)

lemma runtime_gets_wf: "client_wf c \<Longrightarrow> client_wf (runtime.gets c ks)"
proof (induction ks arbitrary: c)
  case (Cons k ks)
  then have "client_wf (snd (runtimeClient c k))"
    using runtimeClient_wf [of c k] by (metis prod.collapse)
  with Cons.IH show ?case by (simp add: runtime.gets_def)
qed (simp add: runtime.gets_def)

text \<open>One call, in terms of the SDK client it goes through.\<close>

lemma Invoke_via:
  assumes "client_wf c"
  obtains rt c' where "runtimeClient c key = (Inr rt, c')" "clConfig rt = role_config (baseConfig c) key"
    "client_wf c'"
    "Invoke sdk key input c w =
        (case awsInvokeModel sdk rt (iiModelId input) (json_request (build_request input)) w of
           (Inl err, w') \<Rightarrow> (Inl (Wrapf (''invoking model '' @ iiModelId input) err), c', w')
         | (Inr b, w') \<Rightarrow>
             (case unmarshal dec_response zero_response b of
                Inl err \<Rightarrow> (Inl (Wrapf ''unmarshaling bedrock response'' (ErrMsg (json_error_text err))), c', w')
              | Inr out \<Rightarrow> (Inr (response_output out), c', w')))"
proof -
  obtain rt c' where g: "runtimeClient c key = (Inr rt, c')" using runtime.get_ok by blast
  moreover have "clConfig rt = role_config (baseConfig c) key" "client_wf c'"
    using runtimeClient_wf [OF assms g] by simp_all
  ultimately show ?thesis by (intro that) (simp_all add: Invoke_def)
qed

text \<open>Decoded token counts are int64 values.\<close>

definition int64 :: "int \<Rightarrow> bool" where
  "int64 n \<longleftrightarrow> - (2 ^ 63) \<le> n \<and> n < 2 ^ 63"

lemma dec_int64_range: "dec_int64 j old = Inr n \<Longrightarrow> int64 old \<Longrightarrow> int64 n"
  using dec_int_range [of 64 "''int64''" j old n] by (auto simp: int64_def)

definition rsp_ok :: "converseResponse \<Rightarrow> bool" where
  "rsp_ok r \<longleftrightarrow> int64 (rspInputTokens r) \<and> int64 (rspOutputTokens r)"

lemma dec_message_ok: "dec_message j r = Inr r' \<Longrightarrow> rsp_ok r \<Longrightarrow> rsp_ok r'"
  unfolding dec_message_def
  by (erule dec_struct_invariant) (auto simp: into_Inr rsp_ok_def)

lemma dec_usage_ok: "dec_usage j r = Inr r' \<Longrightarrow> rsp_ok r \<Longrightarrow> rsp_ok r'"
  unfolding dec_usage_def
  by (erule dec_struct_invariant) (auto simp: into_Inr rsp_ok_def, (metis dec_int64_range)+)

lemma dec_response_ok: "dec_response j zero_response = Inr r \<Longrightarrow> rsp_ok r"
  unfolding dec_response_def
proof (erule dec_struct_invariant)
  show "rsp_ok zero_response" by (simp add: rsp_ok_def zero_response_def int64_def)
  have out: "dec_struct ''struct'' [(''message'', dec_message)] j r = Inr r' \<Longrightarrow> rsp_ok r \<Longrightarrow> rsp_ok r'"
    for j r r'
    by (erule dec_struct_invariant) (auto intro: dec_message_ok)
  show "rsp_ok t'"
    if "(n, d) \<in> set [(''output'', dec_struct ''struct'' [(''message'', dec_message)]),
        (''usage'', dec_usage), (''stopReason'', into rspStopReason rspStopReason_update dec_string)]"
      "d v t = Inr t'" "rsp_ok t" for n d v t t'
    using that out dec_usage_ok by (auto simp: into_Inr rsp_ok_def)
qed

subsection \<open>Properties\<close>

text \<open>Whatever invocations, health checks and evictions ran before, in any order, every cached SDK
  client carries the ambient configuration with the region of its key and the assumed role of its
  key: no endpoint is ever served with another endpoint's credentials.\<close>

theorem client_run_credentials:
  assumes "NewClient (Inr cfg) = Inr c0" "client_run sdk (c0, w0) ops = (c, w)"
    "runtimeTab c key = Some cl \<or> controlTab c key = Some cl"
  shows "clConfig cl = cfg\<lparr>cfgRegion := ekRegion key,
           cfgCreds := AssumeRole (cfgCreds cfg) (RoleArn key) ''k8s-ai-operator''\<rparr>"
proof -
  have "client_wf c0" using assms(1) by (rule NewClient_wf)
  then have "client_wf c" "baseConfig c = baseConfig c0"
    using client_run_wf [of "(c0, w0)" sdk ops] assms(2) by auto
  moreover have "baseConfig c0 = cfg" using assms(1) by (auto simp: NewClient_def)
  ultimately show ?thesis using assms(3) by (auto simp: client_wf_def role_config_def)
qed

text \<open>A small AWS account to instantiate the SDK with: the world counts the calls, every model
  exists, and every invocation answers with one text block.\<close>

definition sample_reply :: json where
  "sample_reply =
     JObj [(''output'', JObj [(''message'', JObj [(''role'', JStr ''assistant''),
              (''content'', JArr [JObj [(''text'', JStr ''hello'')]])])]),
           (''usage'', JObj [(''inputTokens'', JInt 24), (''outputTokens'', JInt 51)]),
           (''stopReason'', JStr ''end_turn'')]"

definition sample_aws :: "nat aws" where
  "sample_aws =
     \<lparr>awsInvokeModel = (\<lambda>cl m body w. (Inr (Inr sample_reply), Suc w)),
      awsGetFoundationModel = (\<lambda>cl m w. (None, Suc w))\<rparr>"

definition sample_cfg :: AwsConfig where
  "sample_cfg = \<lparr>cfgRegion = ''us-east-1'', cfgCreds = AmbientCreds\<rparr>"

definition sample_client :: BedrockClient where
  "sample_client = \<lparr>baseConfig = sample_cfg, runtimeTab = Map.empty, controlTab = Map.empty, constructed = 0\<rparr>"

definition sample_key :: EndpointKey where
  "sample_key = \<lparr>RoleArn = ''arn:aws:iam::123456789012:role/bedrock'', ekRegion = ''eu-west-1''\<rparr>"

lemma sample_client_wf: "client_wf sample_client"
  by (simp add: sample_client_def client_wf_def)

theorem client_run_credentials_witness:
  "\<exists>c w cl. client_run sample_aws (sample_client, 0) [OpHealth sample_key ''amazon.nova-lite-v1:0''] = (c, w)
    \<and> controlTab c sample_key = Some cl
    \<and> clConfig cl = sample_cfg\<lparr>cfgRegion := ekRegion sample_key,
           cfgCreds := AssumeRole (cfgCreds sample_cfg) (RoleArn sample_key) ''k8s-ai-operator''\<rparr>"
proof -
  have new: "NewClient (Inr sample_cfg) = Inr sample_client"
    by (simp add: NewClient_def sample_client_def)
  obtain c w where run: "client_run sample_aws (sample_client, 0)
      [OpHealth sample_key ''amazon.nova-lite-v1:0''] = (c, w)" by fastforce
  moreover from run obtain cl where "controlTab c sample_key = Some cl"
    by (auto simp: client_run_def sample_client_def sample_aws_def HealthCheck_def
        CheckModelAvailability_def controlTab_get Let_def)
  ultimately show ?thesis using client_run_credentials [OF new run] by blast
qed

text \<open>Once a lookup has returned an SDK client, every later lookup of the same key returns that
  very client, whatever other keys are looked up in between; after InvalidateCache the next lookup
  builds a new one.\<close>

theorem runtimeClient_stable:
  assumes "client_wf c" "runtimeClient c key = (Inr cl, c1)"
    "c2 = foldl (\<lambda>c k. snd (runtimeClient c k)) c1 ks"
  shows "runtimeClient c2 key = (Inr cl, c2)
    \<and> (\<exists>cl' c3. runtimeClient (InvalidateCache c2 key) key = (Inr cl', c3) \<and> clIdent cl < clIdent cl')"
proof -
  have g: "c2 = runtime.gets c1 ks" using assms(3) by (simp add: runtime.gets_def)
  have st: "runtimeClient c2 key = (Inr cl, c2)"
    unfolding g using assms(2) by (rule runtime.get_stable)
  have "client_wf c1" using runtimeClient_wf [OF assms(1,2)] by simp
  then have "client_wf c2"
    unfolding g by (rule runtime_gets_wf)
  moreover have "runtimeTab c2 key = Some cl"
    using runtime.get_tab [OF st] by (metis fun_upd_same)
  ultimately have "clIdent cl < constructed c2" by (auto simp: client_wf_def)
  then show ?thesis using st by (simp add: runtimeTab_get InvalidateCache_def Let_def)
qed

theorem runtimeClient_stable_witness:
  "\<exists>cl c1 c2. runtimeClient sample_client sample_key = (Inr cl, c1)
    \<and> runtimeClient c2 sample_key = (Inr cl, c2)
    \<and> (\<exists>cl' c3. runtimeClient (InvalidateCache c2 sample_key) sample_key = (Inr cl', c3)
         \<and> clIdent cl < clIdent cl')"
proof -
  obtain cl c1 where g: "runtimeClient sample_client sample_key = (Inr cl, c1)"
    using runtime.get_ok by blast
  show ?thesis
    using runtimeClient_stable [OF sample_client_wf g refl, of "[sample_key\<lparr>ekRegion := ''us-east-1''\<rparr>]"] g
    by blast
qed

text \<open>C5: an invocation goes through an SDK client with the endpoint's role and region, makes exactly
  one InvokeModel call, with the endpoint's model and the marshalled request, and returns the error of
  that call, an error for an undecodable body, or the first content block and the token counts, which
  are int64 values.\<close>

theorem Invoke_spec:
  assumes "client_wf c"
  shows "\<exists>rt c'. clConfig rt = role_config (baseConfig c) key \<and> client_wf c'
    \<and> (case awsInvokeModel sdk rt (iiModelId input) (json_request (build_request input)) w of
         (Inl err, w') \<Rightarrow>
           Invoke sdk key input c w = (Inl (Wrapf (''invoking model '' @ iiModelId input) err), c', w')
       | (Inr b, w') \<Rightarrow>
           (case unmarshal dec_response zero_response b of
              Inl err \<Rightarrow> Invoke sdk key input c w =
                (Inl (Wrapf ''unmarshaling bedrock response'' (ErrMsg (json_error_text err))), c', w')
            | Inr out \<Rightarrow> Invoke sdk key input c w =
                (Inr \<lparr>ioContent = (case rspContent out of [] \<Rightarrow> [] | t # _ \<Rightarrow> t), ioInputTokens = rspInputTokens out,
                     ioOutputTokens = rspOutputTokens out, ioStopReason = rspStopReason out\<rparr>, c', w')
                \<and> int64 (rspInputTokens out) \<and> int64 (rspOutputTokens out)))"
proof -
  have ok: "unmarshal dec_response zero_response b = Inr out \<Longrightarrow> rsp_ok out" for b out
    by (auto simp: unmarshal_def split: sum.splits intro: dec_response_ok)
  show ?thesis
    by (rule Invoke_via [OF assms, of key sdk input w, unfolded response_output_def])
      (use ok in \<open>fastforce simp: rsp_ok_def split: prod.splits sum.splits\<close>)
qed

theorem Invoke_spec_witness:
  "\<exists>(rt :: AwsClient) c' out. clConfig rt = role_config sample_cfg sample_key
    \<and> unmarshal dec_response zero_response (Inr sample_reply) = Inr out
    \<and> Invoke sample_aws sample_key \<lparr>iiModelId = ''amazon.nova-lite-v1:0'', iiSystemPrompt = [],
         iiMessages = [], iiMaxTokens = 10, iiTemperature = 0\<rparr> sample_client 0
       = (Inr \<lparr>ioContent = ''hello'', ioInputTokens = 24, ioOutputTokens = 51, ioStopReason = ''end_turn''\<rparr>, c', 1)"
proof -
  have dec: "unmarshal dec_response zero_response (Inr sample_reply) =
      Inr \<lparr>rspRole = ''assistant'', rspContent = [''hello''], rspInputTokens = 24,
           rspOutputTokens = 51, rspStopReason = ''end_turn''\<rparr>"
    by (simp add: unmarshal_def sample_reply_def dec_response_def dec_message_def dec_usage_def
        zero_response_def find_field_def into_def)
  show ?thesis
    using Invoke_spec [OF sample_client_wf, of sample_key sample_aws
        "\<lparr>iiModelId = ''amazon.nova-lite-v1:0'', iiSystemPrompt = [], iiMessages = [],
          iiMaxTokens = 10, iiTemperature = 0\<rparr>" 0] dec
    by (auto simp: sample_aws_def sample_client_def)
qed

text \<open>The request body carries everything of the input but the sign of the limits: two inputs have
  the same body exactly when model, messages and system prompt agree, and maxTokens and temperature
  agree after clamping negative values to 0, which both mean "not set".\<close>

theorem request_body_injective:
  "(json_request (build_request a) = json_request (build_request b)) =
   (iiModelId a = iiModelId b \<and> iiMessages a = iiMessages b \<and> iiSystemPrompt a = iiSystemPrompt b
    \<and> max 0 (iiMaxTokens a) = max 0 (iiMaxTokens b)
    \<and> max 0 (iiTemperature a) = max 0 (iiTemperature b))"
  by (simp add: json_request_inject build_request_inject)

end
