(* ===== verification/Client_Concurrency.thy ===== *)
theory Client_Concurrency
  imports Bedrock_Client
begin

section \<open>Concurrent use of the client cache (internal/bedrock/client.go)\<close>

text \<open>
  Requests and reconciles call \<open>runtimeClient\<close> concurrently on one \<open>Client\<close>. A caller goes through
  two critical sections: the lookup under the read lock and, after a miss, the second lookup and
  the construction under the write lock. The mutex makes each section atomic, so a step of the
  system is one section of one caller, and callers interleave between the sections. The theory
  shows that the double check makes every interleaving equivalent to a sequence of complete
  calls, and that no caller can get stuck.
\<close>

datatype caller =
    Calling EndpointKey
  | Missed EndpointKey
  | Returned EndpointKey "go_error + AwsClient"

record system =
  shared :: BedrockClient
  callers :: "nat \<Rightarrow> caller"

inductive section_step :: "system \<Rightarrow> nat \<Rightarrow> system \<Rightarrow> bool" where
  read_hit: "callers s i = Calling k \<Longrightarrow> runtime_read (shared s) k = Some cl \<Longrightarrow>
    section_step s i (s\<lparr>callers := (callers s)(i := Returned k (Inr cl))\<rparr>)"
| read_miss: "callers s i = Calling k \<Longrightarrow> runtime_read (shared s) k = None \<Longrightarrow>
    section_step s i (s\<lparr>callers := (callers s)(i := Missed k)\<rparr>)"
| write_section: "callers s i = Missed k \<Longrightarrow> runtime_locked (shared s) k = (r, c') \<Longrightarrow>
    section_step s i (s\<lparr>shared := c', callers := (callers s)(i := Returned k r)\<rparr>)"

inductive_cases section_stepE: "section_step s i t"

text \<open>The start: a client, and every caller about to look up its key.\<close>

definition init_system :: "BedrockClient \<Rightarrow> (nat \<Rightarrow> EndpointKey) \<Rightarrow> system" where
  "init_system c keys = \<lparr>shared = c, callers = (\<lambda>i. Calling (keys i))\<rparr>"

inductive reachable :: "BedrockClient \<Rightarrow> (nat \<Rightarrow> EndpointKey) \<Rightarrow> system \<Rightarrow> bool" for c keys where
  start: "reachable c keys (init_system c keys)"
| step: "reachable c keys s \<Longrightarrow> section_step s i t \<Longrightarrow> reachable c keys t"

text \<open>The key of a caller never changes.\<close>

fun caller_key :: "caller \<Rightarrow> EndpointKey" where
  "caller_key (Calling k) = k"
| "caller_key (Missed k) = k"
| "caller_key (Returned k r) = k"

lemma section_step_key: "section_step s i t \<Longrightarrow> caller_key (callers t j) = caller_key (callers s j)"
  by (erule section_stepE) auto

text \<open>
  The simulation: the shared client is the result of complete sequential calls for some keys, and
  whoever has returned holds the client that the table has for its key.
\<close>

definition linear :: "BedrockClient \<Rightarrow> system \<Rightarrow> bool" where
  "linear c s \<longleftrightarrow>
     (\<exists>ks. shared s = foldl (\<lambda>c k. snd (runtimeClient c k)) c ks)
     \<and> (\<forall>i k r. callers s i = Returned k r \<longrightarrow>
          (\<exists>cl. r = Inr cl \<and> runtimeTab (shared s) k = Some cl))"

lemma locked_as_call: "runtime_locked c k = (r, c') \<Longrightarrow> runtimeClient c k = (r, c')"
  by (auto simp: runtime_defs split: option.splits)

lemma linear_init: "linear c (init_system c keys)"
  unfolding linear_def init_system_def by (auto intro: exI [of _ "[]"])

lemma linear_step:
  assumes "linear c s" "section_step s i t"
  shows "linear c t"
  using assms(2)
proof cases
  case (read_hit k cl)
  with assms(1) show ?thesis by (auto simp: linear_def runtime_read_def)
next
  case (read_miss k)
  with assms(1) show ?thesis by (auto simp: linear_def)
next
  case (write_section k r c')
  obtain ks where ks: "shared s = foldl (\<lambda>c k. snd (runtimeClient c k)) c ks"
    using assms(1) by (auto simp: linear_def)
  have call: "runtimeClient (shared s) k = (r, c')"
    using write_section(3) by (rule locked_as_call)
  then have c': "c' = foldl (\<lambda>c k. snd (runtimeClient c k)) c (ks @ [k])"
    using ks by simp
  have keep: "runtimeTab (shared s) j = Some cl \<Longrightarrow> runtimeTab c' j = Some cl" for j cl
    using runtime.get_keeps [of "shared s" j cl k] call by simp
  obtain cl where r: "r = Inr cl" "runtimeTab c' k = Some cl"
    using runtime.get_ok [of "shared s" k] runtime.get_tab [of "shared s" k] call by fastforce
  show ?thesis unfolding linear_def
  proof (intro conjI allI impI)
    show "\<exists>ks. shared t = foldl (\<lambda>c k. snd (runtimeClient c k)) c ks"
      unfolding write_section(1) using c' by (intro exI [of _ "ks @ [k]"]) simp
  next
    fix j k' r'
    assume "callers t j = Returned k' r'"
    then show "\<exists>cl. r' = Inr cl \<and> runtimeTab (shared t) k' = Some cl"
    proof (cases "j = i")
      case False
      with \<open>callers t j = Returned k' r'\<close> write_section(1) have "callers s j = Returned k' r'" by simp
      then obtain cl' where "r' = Inr cl'" "runtimeTab (shared s) k' = Some cl'"
        using assms(1) unfolding linear_def by blast
      with keep write_section(1) show ?thesis by simp
    qed (use write_section(1) r in simp)
  qed
qed

lemma reachable_linear: "reachable c keys s \<Longrightarrow> linear c s"
  by (induction rule: reachable.induct) (auto intro: linear_init linear_step)

lemma reachable_key: "reachable c keys s \<Longrightarrow> caller_key (callers s i) = keys i"
  by (induction rule: reachable.induct) (auto simp: init_system_def section_step_key)

text \<open>How much a caller still has to do: each of its sections brings it closer to returning.\<close>

fun remaining :: "caller \<Rightarrow> nat" where
  "remaining (Calling k) = 2"
| "remaining (Missed k) = 1"
| "remaining (Returned k r) = 0"

lemma section_step_remaining:
  "section_step s i t \<Longrightarrow> remaining (callers t i) < remaining (callers s i)
     \<and> (\<forall>j. j = i \<or> callers t j = callers s j)"
  by (erule section_stepE) auto

lemma section_step_enabled: "0 < remaining (callers s i) \<Longrightarrow> \<exists>t. section_step s i t"
proof (cases "callers s i")
  case (Calling k)
  then show ?thesis
    by (cases "runtime_read (shared s) k") (auto intro: read_hit read_miss)
next
  case (Missed k)
  then show ?thesis by (metis write_section prod.collapse)
qed simp

subsection \<open>Properties\<close>

text \<open>Two callers of one key that both miss: the second one finds the client the first one built.\<close>

definition race_keys :: "nat \<Rightarrow> EndpointKey" where
  "race_keys i = \<lparr>RoleArn = ''role'', ekRegion = ''us-east-1''\<rparr>"

definition race_client :: BedrockClient where
  "race_client = \<lparr>baseConfig = \<lparr>cfgRegion = [], cfgCreds = AmbientCreds\<rparr>, runtimeTab = Map.empty,
     controlTab = Map.empty, constructed = 0\<rparr>"

lemma race_reachable:
  "\<exists>s r r'. reachable race_client race_keys s \<and> callers s 0 = Returned (race_keys 0) r
     \<and> callers s 1 = Returned (race_keys 0) r'"
proof -
  let ?k = "race_keys 0"
  let ?s0 = "init_system race_client race_keys"
  let ?s1 = "?s0\<lparr>callers := (callers ?s0)(0 := Missed ?k)\<rparr>"
  let ?s2 = "?s1\<lparr>callers := (callers ?s1)(1 := Missed ?k)\<rparr>"
  have k: "callers ?s0 0 = Calling ?k" "callers ?s1 1 = Calling ?k"
    by (simp_all add: init_system_def race_keys_def)
  have miss: "runtime_read (shared ?s0) ?k = None" "runtime_read (shared ?s1) ?k = None"
    by (simp_all add: init_system_def race_client_def runtime_read_def)
  have r2: "reachable race_client race_keys ?s2"
    using reachable.start read_miss [OF k(1) miss(1)] read_miss [OF k(2) miss(2)]
    by (blast intro: reachable.step)
  obtain r c1 where l1: "runtime_locked (shared ?s2) ?k = (r, c1)" by fastforce
  let ?s3 = "?s2\<lparr>shared := c1, callers := (callers ?s2)(0 := Returned ?k r)\<rparr>"
  have r3: "reachable race_client race_keys ?s3"
    using r2 by (rule reachable.step) (rule write_section [OF _ l1], simp)
  obtain r' c2 where l2: "runtime_locked (shared ?s3) ?k = (r', c2)" by fastforce
  let ?s4 = "?s3\<lparr>shared := c2, callers := (callers ?s3)(1 := Returned ?k r')\<rparr>"
  have "reachable race_client race_keys ?s4"
    using r3 by (rule reachable.step) (rule write_section [OF _ l2], simp)
  moreover have "callers ?s4 0 = Returned ?k r" "callers ?s4 1 = Returned ?k r'" by simp_all
  ultimately show ?thesis by blast
qed

text \<open>C11: in every interleaving of the callers' critical sections, the shared client is the one that
  some sequence of complete, uninterrupted calls produces; every caller that has returned got a
  client and no error, namely the one the table holds for its key, so callers of one key agree.\<close>

theorem concurrent_calls_linearize:
  assumes "reachable c keys s"
  shows "(\<exists>ks. shared s = foldl (\<lambda>c k. snd (runtimeClient c k)) c ks)
    \<and> (callers s i = Returned k r \<longrightarrow>
         k = keys i \<and> (\<exists>cl. r = Inr cl \<and> runtimeTab (shared s) k = Some cl))
    \<and> (callers s i = Returned k r \<longrightarrow> callers s j = Returned k r' \<longrightarrow> r = r')"
  using reachable_linear [OF assms] reachable_key [OF assms, of i]
  by (auto simp: linear_def) (metis sum.inject(2) option.inject)

theorem concurrent_calls_linearize_witness:
  "\<exists>s cl. reachable race_client race_keys s \<and> callers s 0 = Returned (race_keys 0) (Inr cl)
     \<and> callers s 1 = Returned (race_keys 0) (Inr cl)"
proof -
  obtain s r r' where s: "reachable race_client race_keys s"
    "callers s 0 = Returned (race_keys 0) r" "callers s 1 = Returned (race_keys 0) r'"
    using race_reachable by blast
  then show ?thesis
    using concurrent_calls_linearize [OF s(1), of 0 "race_keys 0" r 1 r'] by auto
qed

text \<open>No deadlock and no starvation by its own work: a caller that has not returned always has an
  enabled section, each of its sections brings it closer to returning, after at most two, and the
  sections of others do not delay it.\<close>

theorem concurrent_calls_progress:
  "(0 < remaining (callers s i)) = (\<exists>t. section_step s i t)
   \<and> (section_step s i t \<longrightarrow> remaining (callers t i) < remaining (callers s i))
   \<and> (section_step s j t \<longrightarrow> j = i \<or> callers t i = callers s i)
   \<and> remaining (callers s i) \<le> 2
   \<and> (remaining (callers s i) = 0) = (\<exists>k r. callers s i = Returned k r)"
proof (intro conjI impI)
  show "(0 < remaining (callers s i)) = (\<exists>t. section_step s i t)"
    using section_step_enabled section_step_remaining by (metis gr_implies_not0 gr0I)
  show "remaining (callers s i) \<le> 2" by (cases "callers s i") auto
  show "(remaining (callers s i) = 0) = (\<exists>k r. callers s i = Returned k r)"
    by (cases "callers s i") auto
next
  assume "section_step s i t"
  then show "remaining (callers t i) < remaining (callers s i)" using section_step_remaining by blast
next
  assume "section_step s j t"
  then show "j = i \<or> callers t i = callers s i" using section_step_remaining [of s j t] by auto
qed

theorem concurrent_calls_progress_witness:
  "\<exists>t. section_step (init_system race_client race_keys) 0 t
     \<and> remaining (callers t 0) < remaining (callers (init_system race_client race_keys) 0)
     \<and> callers t 1 = callers (init_system race_client race_keys) 1"
proof -
  let ?s = "init_system race_client race_keys"
  have "0 < remaining (callers ?s 0)" by (simp add: init_system_def)
  then obtain t where t: "section_step ?s 0 t"
    using concurrent_calls_progress [of ?s 0 t 0] by blast
  then show ?thesis
    using concurrent_calls_progress [of ?s 0 t 0] concurrent_calls_progress [of ?s 1 t 0] by auto
qed

end
