(* ===== verification/Kube.thy ===== *)
theory Kube
  imports Api_Types
begin

section \<open>The Kubernetes API as the controllers use it\<close>

text \<open>
  The reconcilers talk to the API server through controller-runtime's client and use its helpers
  for finalizers, owner references and CreateOrUpdate. All of that is library code: the record
  \<open>kube\<close> holds the operations over a world \<open>'w\<close>, the locales \<open>resource_api\<close> and \<open>kube_api\<close> state
  what their documentation promises about a stored cluster, and \<open>cluster_kube\<close> is an in-memory API
  server in the manner of the fake client of the tests, with injected failures, on which the
  locales are interpreted.
\<close>

subsection \<open>Services\<close>

record ServicePort =
  spName :: string
  spPort :: int
  spTargetPort :: int

record ServiceSpec =
  ssType :: string
  ExternalName :: string
  Ports :: "ServicePort list"

record OwnerReference =
  orKind :: string
  orName :: string
  orController :: bool

record Service =
  svcName :: string
  svcNamespace :: string
  svcLabels :: "string \<Rightarrow> string option"
  svcOwners :: "OwnerReference list"
  svcSpec :: ServiceSpec

definition svcKey :: "Service \<Rightarrow> NamespacedName" where
  "svcKey s = \<lparr>nnNamespace = svcNamespace s, nnName = svcName s\<rparr>"

subsection \<open>The client interface\<close>

record ('o, 'w) crud =
  rGet :: "NamespacedName \<Rightarrow> 'w \<Rightarrow> (go_error + 'o) \<times> 'w"
  rUpdate :: "'o \<Rightarrow> 'w \<Rightarrow> go_error option \<times> 'w"
  rPatchStatus :: "'o \<Rightarrow> 'o \<Rightarrow> 'w \<Rightarrow> go_error option \<times> 'w" \<comment> \<open>the base of MergeFrom, then the object\<close>

record 'w kube =
  epAPI :: "(ModelEndpoint, 'w) crud"
  ptAPI :: "(PromptTemplate, 'w) crud"
  gpAPI :: "(GuardrailPolicy, 'w) crud"
  createOrUpdateService :: "Service \<Rightarrow> (Service \<Rightarrow> Service) \<Rightarrow> 'w \<Rightarrow> go_error option \<times> 'w"
  setControllerReference :: "ModelEndpoint \<Rightarrow> Service \<Rightarrow> go_error + Service"
  containsFinalizer :: "ObjectMeta \<Rightarrow> string \<Rightarrow> bool"
  addFinalizer :: "ObjectMeta \<Rightarrow> string \<Rightarrow> ObjectMeta"
  removeFinalizer :: "ObjectMeta \<Rightarrow> string \<Rightarrow> ObjectMeta"
  metaNow :: "'w \<Rightarrow> time \<times> 'w"

subsection \<open>What the documentation promises\<close>

text \<open>
  One kind of resource: a read returns the stored object; a successful Update of metadata replaces
  the object but for its status, and removes an object that is being deleted when its last
  finalizer goes; a successful status patch changes the status only. The patch is the merge patch
  that MergeFrom computes: it holds the fields in which the object differs from the base, and the
  server overwrites these, whatever else was written to the stored status since it was read.
\<close>

definition merge_field :: "'a \<Rightarrow> 'a \<Rightarrow> 'a \<Rightarrow> 'a" where
  "merge_field base new stored = (if new = base then stored else new)"

lemma merge_field_fresh [simp]: "merge_field base new base = new"
  by (simp add: merge_field_def)

lemma merge_field_same [simp]: "merge_field base base stored = stored"
  by (simp add: merge_field_def)

definition merge_endpoint_status :: "ModelEndpointStatus \<Rightarrow> ModelEndpointStatus \<Rightarrow> ModelEndpointStatus \<Rightarrow> ModelEndpointStatus" where
  "merge_endpoint_status b n s =
     \<lparr>Available = merge_field (Available b) (Available n) (Available s),
      epConditions = merge_field (epConditions b) (epConditions n) (epConditions s),
      CostThisMonth = merge_field (CostThisMonth b) (CostThisMonth n) (CostThisMonth s),
      CostToday = merge_field (CostToday b) (CostToday n) (CostToday s),
      InvocationsToday = merge_field (InvocationsToday b) (InvocationsToday n) (InvocationsToday s),
      TotalInputTokens = merge_field (TotalInputTokens b) (TotalInputTokens n) (TotalInputTokens s),
      TotalOutputTokens = merge_field (TotalOutputTokens b) (TotalOutputTokens n) (TotalOutputTokens s),
      ServiceName = merge_field (ServiceName b) (ServiceName n) (ServiceName s),
      epObservedGeneration = merge_field (epObservedGeneration b) (epObservedGeneration n) (epObservedGeneration s)\<rparr>"

definition merge_template_status :: "PromptTemplateStatus \<Rightarrow> PromptTemplateStatus \<Rightarrow> PromptTemplateStatus \<Rightarrow> PromptTemplateStatus" where
  "merge_template_status b n s =
     \<lparr>ptConditions = merge_field (ptConditions b) (ptConditions n) (ptConditions s),
      RenderCount = merge_field (RenderCount b) (RenderCount n) (RenderCount s),
      ptObservedGeneration = merge_field (ptObservedGeneration b) (ptObservedGeneration n) (ptObservedGeneration s)\<rparr>"

definition merge_policy_status :: "GuardrailPolicyStatus \<Rightarrow> GuardrailPolicyStatus \<Rightarrow> GuardrailPolicyStatus \<Rightarrow> GuardrailPolicyStatus" where
  "merge_policy_status b n s =
     \<lparr>GuardrailId = merge_field (GuardrailId b) (GuardrailId n) (GuardrailId s),
      GuardrailVersion = merge_field (GuardrailVersion b) (GuardrailVersion n) (GuardrailVersion s),
      gpConditions = merge_field (gpConditions b) (gpConditions n) (gpConditions s),
      gpObservedGeneration = merge_field (gpObservedGeneration b) (gpObservedGeneration n) (gpObservedGeneration s)\<rparr>"

lemma merge_status_fresh [simp]:
  "merge_endpoint_status b1 n1 b1 = n1" "merge_template_status b2 n2 b2 = n2" "merge_policy_status b3 n3 b3 = n3"
  by (simp_all add: merge_endpoint_status_def merge_template_status_def merge_policy_status_def)

definition updated_object :: "ObjectMeta \<Rightarrow> 'o \<Rightarrow> 'o option" where
  "updated_object m obj =
     (if \<not> IsZero (DeletionTimestamp m) \<and> Finalizers m = [] then None else Some obj)"

locale resource_api =
  fixes A :: "('o, 'w) crud" and tab :: "'w \<Rightarrow> NamespacedName \<Rightarrow> 'o option"
    and meta :: "'o \<Rightarrow> ObjectMeta" and spec :: "'o \<Rightarrow> 's" and status :: "'o \<Rightarrow> 't"
    and set_status :: "'t \<Rightarrow> 'o \<Rightarrow> 'o" and merge :: "'t \<Rightarrow> 't \<Rightarrow> 't \<Rightarrow> 't"
  assumes get_found: "rGet A k w = (Inr obj, w') \<Longrightarrow>
      tab w k = Some obj \<and> keyOf (meta obj) = k"
    and get_missing: "rGet A k w = (Inl e, w') \<Longrightarrow> IsNotFound e \<Longrightarrow> tab w k = None"
    and update_ok: "rUpdate A obj w = (None, w') \<Longrightarrow> tab w (keyOf (meta obj)) = Some old \<Longrightarrow>
      spec obj = spec old \<Longrightarrow>
      tab w' = (tab w)(keyOf (meta obj) := updated_object (meta obj) (set_status (status old) obj))"
    and patch_ok: "rPatchStatus A base obj w = (None, w') \<Longrightarrow> tab w (keyOf (meta obj)) = Some old \<Longrightarrow>
      tab w' = (tab w)(keyOf (meta obj) \<mapsto> set_status (merge (status base) (status obj) (status old)) old)"
    and merge_fresh: "merge s t s = t"
begin

text \<open>A controller reads an object, changes its finalizers and writes it back.\<close>

lemma finalizer_roundtrip:
  assumes "rGet A k w = (Inr old, w1)" "tab w2 = tab w"
    "rUpdate A obj w2 = (None, w')" "spec obj = spec old" "keyOf (meta obj) = k"
  shows "tab w' k = updated_object (meta obj) (set_status (status old) obj)
    \<and> (\<forall>k'. k' = k \<or> tab w' k' = tab w k')"
  using get_found [OF assms(1)] update_ok [OF assms(3)] assms by auto

text \<open>A controller reads an object, computes a status and patches it.\<close>

lemma status_roundtrip:
  assumes "rGet A k w = (Inr old, w1)" "tab w2 = tab w"
    "rPatchStatus A old obj w2 = (None, w')" "keyOf (meta obj) = k"
  shows "tab w' k = Some (set_status (status obj) old) \<and> (\<forall>k'. k' = k \<or> tab w' k' = tab w k')"
  using get_found [OF assms(1)] patch_ok [OF assms(3)] assms by (auto simp: merge_fresh)

end

record Store =
  stEndpoints :: "NamespacedName \<Rightarrow> ModelEndpoint option"
  stTemplates :: "NamespacedName \<Rightarrow> PromptTemplate option"
  stPolicies :: "NamespacedName \<Rightarrow> GuardrailPolicy option"
  stServices :: "NamespacedName \<Rightarrow> Service option"

text \<open>controllerutil's finalizer helpers.\<close>

locale finalizer_api =
  fixes K :: "'w kube"
  assumes contains_iff: "containsFinalizer K m f \<longleftrightarrow> f \<in> set (Finalizers m)"
    and add_eq: "addFinalizer K m f =
      m\<lparr>Finalizers := (if f \<in> set (Finalizers m) then Finalizers m else Finalizers m @ [f])\<rparr>"
    and remove_eq: "removeFinalizer K m f = m\<lparr>Finalizers := filter (\<lambda>x. x \<noteq> f) (Finalizers m)\<rparr>"
begin

lemma contains_add: "containsFinalizer K (addFinalizer K m f) f"
  by (simp add: contains_iff add_eq)

lemma contains_remove: "\<not> containsFinalizer K (removeFinalizer K m f) f"
  by (simp add: contains_iff remove_eq)

lemma key_add [simp]: "keyOf (addFinalizer K m f) = keyOf m"
  and key_remove [simp]: "keyOf (removeFinalizer K m f) = keyOf m"
  by (simp_all add: add_eq remove_eq keyOf_def)

lemma deletion_remove [simp]: "DeletionTimestamp (removeFinalizer K m f) = DeletionTimestamp m"
  by (simp add: remove_eq)

lemma remove_last: "Finalizers (removeFinalizer K m f) = [] \<longleftrightarrow> set (Finalizers m) \<subseteq> {f}"
  by (auto simp: remove_eq filter_empty_conv)

end

locale kube_api = finalizer_api K
  for K :: "'w kube" +
  fixes store :: "'w \<Rightarrow> Store"
  assumes endpoints: "resource_api (epAPI K) (\<lambda>w. stEndpoints (store w)) epMeta epSpec epStatus
      (\<lambda>s obj. obj\<lparr>epStatus := s\<rparr>) merge_endpoint_status"
    and templates: "resource_api (ptAPI K) (\<lambda>w. stTemplates (store w)) ptMeta ptSpec ptStatus
      (\<lambda>s obj. obj\<lparr>ptStatus := s\<rparr>) merge_template_status"
    and policies: "resource_api (gpAPI K) (\<lambda>w. stPolicies (store w)) gpMeta gpSpec gpStatus
      (\<lambda>s obj. obj\<lparr>gpStatus := s\<rparr>) merge_policy_status"
    and get_frame: "store (snd (rGet (epAPI K) k w)) = store w"
      "store (snd (rGet (ptAPI K) k w)) = store w" "store (snd (rGet (gpAPI K) k w)) = store w"
    and now_frame: "store (snd (metaNow K w)) = store w"
    and service_ok: "createOrUpdateService K d f w = (None, w') \<Longrightarrow>
      stServices (store w') = (stServices (store w))(svcKey d \<mapsto>
        f (case stServices (store w) (svcKey d) of None \<Rightarrow> d | Some s \<Rightarrow> s))"
    and service_frame: "stEndpoints (store (snd (createOrUpdateService K d f w))) = stEndpoints (store w)"
    and patch_frame: "stServices (store (snd (rPatchStatus (epAPI K) b obj w))) = stServices (store w)"
    and update_frame: "stServices (store (snd (rUpdate (epAPI K) obj w))) = stServices (store w)"
    and owner_ok: "setControllerReference K ep s = Inr s' \<Longrightarrow>
      svcKey s' = svcKey s \<and> svcLabels s' = svcLabels s \<and> svcSpec s' = svcSpec s
      \<and> (\<exists>r \<in> set (svcOwners s'). orController r \<and> orName r = Name (epMeta ep))
      \<and> (svcOwners s = [] \<longrightarrow>
          svcOwners s' = [\<lparr>orKind = ''ModelEndpoint'', orName = Name (epMeta ep), orController = True\<rparr>])"

sublocale kube_api \<subseteq> ep: resource_api "epAPI K" "\<lambda>w. stEndpoints (store w)" epMeta epSpec epStatus
    "\<lambda>s obj. obj\<lparr>epStatus := s\<rparr>" merge_endpoint_status
  by (rule endpoints)

sublocale kube_api \<subseteq> pt: resource_api "ptAPI K" "\<lambda>w. stTemplates (store w)" ptMeta ptSpec ptStatus
    "\<lambda>s obj. obj\<lparr>ptStatus := s\<rparr>" merge_template_status
  by (rule templates)

sublocale kube_api \<subseteq> gp: resource_api "gpAPI K" "\<lambda>w. stPolicies (store w)" gpMeta gpSpec gpStatus
    "\<lambda>s obj. obj\<lparr>gpStatus := s\<rparr>" merge_policy_status
  by (rule policies)

subsection \<open>An in-memory API server\<close>

text \<open>
  The cluster, a clock and a script of failures: every API call takes the next entry of the
  script and fails with it, leaving the cluster alone, unless the entry is \<open>None\<close>.
\<close>

record cluster =
  objects :: Store
  clock :: time
  faults :: "go_error option list"

definition next_fault :: "'z cluster_scheme \<Rightarrow> go_error option \<times> 'z cluster_scheme" where
  "next_fault w =
     (case faults w of [] \<Rightarrow> (None, w) | f # fs \<Rightarrow> (f, w\<lparr>faults := fs\<rparr>))"

definition mem_get :: "(Store \<Rightarrow> NamespacedName \<Rightarrow> 'o option) \<Rightarrow> ('o \<Rightarrow> ObjectMeta) \<Rightarrow> NamespacedName \<Rightarrow> 'z cluster_scheme
    \<Rightarrow> (go_error + 'o) \<times> 'z cluster_scheme" where
  "mem_get tab meta k w =
     (case next_fault w of
        (Some e, w') \<Rightarrow> (Inl (ErrMsg (error_text e)), w')
      | (None, w') \<Rightarrow>
          (case tab (objects w') k of
             None \<Rightarrow> (Inl (ErrNotFound (nnName k @ '' not found'')), w')
           | Some obj \<Rightarrow>
               (if keyOf (meta obj) = k then (Inr obj, w') else (Inl (ErrMsg ''corrupt key''), w'))))"

definition mem_update :: "(Store \<Rightarrow> NamespacedName \<Rightarrow> 'o option)
    \<Rightarrow> ((NamespacedName \<Rightarrow> 'o option) \<Rightarrow> Store \<Rightarrow> Store) \<Rightarrow> ('o \<Rightarrow> ObjectMeta) \<Rightarrow> ('o \<Rightarrow> 's)
    \<Rightarrow> ('o \<Rightarrow> 't) \<Rightarrow> ('t \<Rightarrow> 'o \<Rightarrow> 'o) \<Rightarrow> (int \<Rightarrow> 'o \<Rightarrow> 'o) \<Rightarrow> 'o \<Rightarrow> 'z cluster_scheme \<Rightarrow> go_error option \<times> 'z cluster_scheme" where
  "mem_update tab set_tab meta spec status set_status set_gen obj w =
     (case next_fault w of
        (Some e, w') \<Rightarrow> (Some e, w')
      | (None, w') \<Rightarrow>
          (case tab (objects w') (keyOf (meta obj)) of
             None \<Rightarrow> (Some (ErrNotFound (Name (meta obj) @ '' not found'')), w')
           | Some old \<Rightarrow>
               let kept = set_status (status old) obj;
                   new = (if spec obj = spec old then kept else set_gen (Generation (meta old) + 1) kept);
                   t = (tab (objects w'))(keyOf (meta obj) := updated_object (meta obj) new)
               in (None, w'\<lparr>objects := set_tab t (objects w')\<rparr>)))"

definition mem_patch :: "(Store \<Rightarrow> NamespacedName \<Rightarrow> 'o option)
    \<Rightarrow> ((NamespacedName \<Rightarrow> 'o option) \<Rightarrow> Store \<Rightarrow> Store) \<Rightarrow> ('o \<Rightarrow> ObjectMeta)
    \<Rightarrow> ('o \<Rightarrow> 't) \<Rightarrow> ('t \<Rightarrow> 'o \<Rightarrow> 'o) \<Rightarrow> ('t \<Rightarrow> 't \<Rightarrow> 't \<Rightarrow> 't) \<Rightarrow> 'o \<Rightarrow> 'o \<Rightarrow> 'z cluster_scheme
    \<Rightarrow> go_error option \<times> 'z cluster_scheme" where
  "mem_patch tab set_tab meta status set_status merge base obj w =
     (case next_fault w of
        (Some e, w') \<Rightarrow> (Some e, w')
      | (None, w') \<Rightarrow>
          (case tab (objects w') (keyOf (meta obj)) of
             None \<Rightarrow> (Some (ErrNotFound (Name (meta obj) @ '' not found'')), w')
           | Some old \<Rightarrow>
               let new = set_status (merge (status base) (status obj) (status old)) old
               in (None, w'\<lparr>objects := set_tab ((tab (objects w'))(keyOf (meta obj) \<mapsto> new)) (objects w')\<rparr>)))"

definition mem_create_or_update :: "Service \<Rightarrow> (Service \<Rightarrow> Service) \<Rightarrow> 'z cluster_scheme \<Rightarrow> go_error option \<times> 'z cluster_scheme" where
  "mem_create_or_update d f w =
     (case next_fault w of
        (Some e, w') \<Rightarrow> (Some e, w')
      | (None, w') \<Rightarrow>
          let s = f (case stServices (objects w') (svcKey d) of None \<Rightarrow> d | Some s \<Rightarrow> s)
          in (None, w'\<lparr>objects := (objects w')\<lparr>stServices := (stServices (objects w'))(svcKey d \<mapsto> s)\<rparr>\<rparr>))"

definition mem_set_owner :: "ModelEndpoint \<Rightarrow> Service \<Rightarrow> go_error + Service" where
  "mem_set_owner ep s =
     (if list_ex orController (svcOwners s) then Inl (ErrMsg ''already owned'')
      else Inr (s\<lparr>svcOwners := svcOwners s @
        [\<lparr>orKind = ''ModelEndpoint'', orName = Name (epMeta ep), orController = True\<rparr>]\<rparr>))"

definition cluster_kube :: "'z cluster_scheme kube" where
  "cluster_kube =
     \<lparr>epAPI = \<lparr>rGet = mem_get stEndpoints epMeta,
        rUpdate = mem_update stEndpoints (\<lambda>t st. st\<lparr>stEndpoints := t\<rparr>) epMeta epSpec epStatus
          (\<lambda>s obj. obj\<lparr>epStatus := s\<rparr>) (\<lambda>g obj. obj\<lparr>epMeta := (epMeta obj)\<lparr>Generation := g\<rparr>\<rparr>),
        rPatchStatus = mem_patch stEndpoints (\<lambda>t st. st\<lparr>stEndpoints := t\<rparr>) epMeta epStatus
          (\<lambda>s obj. obj\<lparr>epStatus := s\<rparr>) merge_endpoint_status\<rparr>,
      ptAPI = \<lparr>rGet = mem_get stTemplates ptMeta,
        rUpdate = mem_update stTemplates (\<lambda>t st. st\<lparr>stTemplates := t\<rparr>) ptMeta ptSpec ptStatus
          (\<lambda>s obj. obj\<lparr>ptStatus := s\<rparr>) (\<lambda>g obj. obj\<lparr>ptMeta := (ptMeta obj)\<lparr>Generation := g\<rparr>\<rparr>),
        rPatchStatus = mem_patch stTemplates (\<lambda>t st. st\<lparr>stTemplates := t\<rparr>) ptMeta ptStatus
          (\<lambda>s obj. obj\<lparr>ptStatus := s\<rparr>) merge_template_status\<rparr>,
      gpAPI = \<lparr>rGet = mem_get stPolicies gpMeta,
        rUpdate = mem_update stPolicies (\<lambda>t st. st\<lparr>stPolicies := t\<rparr>) gpMeta gpSpec gpStatus
          (\<lambda>s obj. obj\<lparr>gpStatus := s\<rparr>) (\<lambda>g obj. obj\<lparr>gpMeta := (gpMeta obj)\<lparr>Generation := g\<rparr>\<rparr>),
        rPatchStatus = mem_patch stPolicies (\<lambda>t st. st\<lparr>stPolicies := t\<rparr>) gpMeta gpStatus
          (\<lambda>s obj. obj\<lparr>gpStatus := s\<rparr>) merge_policy_status\<rparr>,
      createOrUpdateService = mem_create_or_update,
      setControllerReference = mem_set_owner,
      containsFinalizer = (\<lambda>m f. f \<in> set (Finalizers m)),
      addFinalizer = (\<lambda>m f. m\<lparr>Finalizers := (if f \<in> set (Finalizers m) then Finalizers m else Finalizers m @ [f])\<rparr>),
      removeFinalizer = (\<lambda>m f. m\<lparr>Finalizers := filter (\<lambda>x. x \<noteq> f) (Finalizers m)\<rparr>),
      metaNow = (\<lambda>w. (clock w, w\<lparr>clock := clock w + 1\<rparr>))\<rparr>"

lemma next_fault_objects: "next_fault w = (r, w') \<Longrightarrow> objects w' = objects w"
  by (auto simp: next_fault_def split: list.splits)

lemma mem_get_objects: "objects (snd (mem_get tab meta k w)) = objects w"
  using next_fault_objects by (fastforce simp: mem_get_def split: prod.splits option.splits)

lemma mem_resource:
  assumes "\<And>t st. tab (set_tab t st) = t" "\<And>s t. merge s t s = t"
  shows "resource_api \<lparr>rGet = mem_get tab meta,
      rUpdate = mem_update tab set_tab meta spec status set_status set_gen,
      rPatchStatus = mem_patch tab set_tab meta status set_status merge\<rparr>
    (\<lambda>w. tab (objects w)) meta spec status set_status merge"
  by (unfold_locales)
    (auto simp: mem_get_def mem_update_def mem_patch_def Let_def assms next_fault_objects
      split: prod.splits option.splits if_splits dest: next_fault_objects)

lemma mem_endpoints: "resource_api (epAPI cluster_kube) (\<lambda>w. stEndpoints (objects w)) epMeta epSpec epStatus
      (\<lambda>s obj. obj\<lparr>epStatus := s\<rparr>) merge_endpoint_status"
  and mem_templates: "resource_api (ptAPI cluster_kube) (\<lambda>w. stTemplates (objects w)) ptMeta ptSpec ptStatus
      (\<lambda>s obj. obj\<lparr>ptStatus := s\<rparr>) merge_template_status"
  and mem_policies: "resource_api (gpAPI cluster_kube) (\<lambda>w. stPolicies (objects w)) gpMeta gpSpec gpStatus
      (\<lambda>s obj. obj\<lparr>gpStatus := s\<rparr>) merge_policy_status"
  unfolding cluster_kube_def by (simp_all, (rule mem_resource, simp, simp)+)

interpretation mem: kube_api "cluster_kube :: 'z cluster_scheme kube" objects
proof (rule kube_api.intro)
  show "finalizer_api (cluster_kube :: 'z cluster_scheme kube)" by unfold_locales (auto simp: cluster_kube_def)
  show "kube_api_axioms (cluster_kube :: 'z cluster_scheme kube) objects"
    by (rule kube_api_axioms.intro, rule mem_endpoints, rule mem_templates, rule mem_policies)
      (auto simp: cluster_kube_def mem_get_objects mem_create_or_update_def mem_patch_def mem_update_def
        mem_set_owner_def svcKey_def Let_def split: prod.splits option.splits if_splits dest: next_fault_objects)
qed

subsection \<open>Progress through the fault script\<close>

text \<open>
  A call on the in-memory server either fails, using up an entry of the fault script, or takes
  effect; either way the script does not grow.
\<close>

lemma next_fault_cases:
  obtains (quiet) "faults w = []" "next_fault w = (None, w)"
  | (taken) f fs where "faults w = f # fs" "next_fault w = (f, w\<lparr>faults := fs\<rparr>)"
  by (cases "faults w") (auto simp: next_fault_def)

lemma mem_get_live:
  assumes "tab (objects w) k = Some obj" "keyOf (meta obj) = k"
  obtains (found) w' where "mem_get tab meta k w = (Inr obj, w')" "objects w' = objects w"
      "length (faults w') \<le> length (faults w)"
  | (failed) e w' where "mem_get tab meta k w = (Inl (ErrMsg e), w')" "objects w' = objects w"
      "length (faults w') < length (faults w)"
proof (cases w rule: next_fault_cases)
  case quiet
  then show ?thesis using assms found by (simp add: mem_get_def)
next
  case (taken f fs)
  then show ?thesis using assms found failed by (cases f) (simp_all add: mem_get_def)
qed

lemma mem_get_missing:
  assumes "tab (objects w) k = None"
  obtains (missing) e w' where "mem_get tab meta k w = (Inl (ErrNotFound e), w')" "objects w' = objects w"
      "length (faults w') \<le> length (faults w)"
  | (failed) e w' where "mem_get tab meta k w = (Inl (ErrMsg e), w')" "objects w' = objects w"
      "length (faults w') < length (faults w)"
proof (cases w rule: next_fault_cases)
  case quiet
  then show ?thesis using assms missing by (simp add: mem_get_def)
next
  case (taken f fs)
  then show ?thesis using assms missing failed by (cases f) (simp_all add: mem_get_def)
qed

lemma mem_update_live:
  assumes "tab (objects w) (keyOf (meta obj)) = Some old" "spec obj = spec old"
    "IsZero (DeletionTimestamp (meta obj))"
  obtains (written) w' where "mem_update tab set_tab meta spec status set_status set_gen obj w = (None, w')"
      "objects w' = set_tab ((tab (objects w))(keyOf (meta obj) \<mapsto> set_status (status old) obj)) (objects w)"
      "length (faults w') \<le> length (faults w)"
  | (failed) e w' where "mem_update tab set_tab meta spec status set_status set_gen obj w = (Some e, w')"
      "objects w' = objects w" "length (faults w') < length (faults w)"
proof (cases w rule: next_fault_cases)
  case quiet
  then show ?thesis using assms written by (simp add: mem_update_def updated_object_def Let_def)
next
  case (taken f fs)
  then show ?thesis using assms written failed
    by (cases f) (simp_all add: mem_update_def updated_object_def Let_def)
qed

lemma mem_patch_live:
  assumes "tab (objects w) (keyOf (meta obj)) = Some old"
  obtains (written) w' where "mem_patch tab set_tab meta status set_status merge base obj w = (None, w')"
      "objects w' = set_tab ((tab (objects w))(keyOf (meta obj) \<mapsto>
        set_status (merge (status base) (status obj) (status old)) old)) (objects w)"
      "length (faults w') \<le> length (faults w)"
  | (failed) e w' where "mem_patch tab set_tab meta status set_status merge base obj w = (Some e, w')"
      "objects w' = objects w" "length (faults w') < length (faults w)"
proof (cases w rule: next_fault_cases)
  case quiet
  then show ?thesis using assms written by (simp add: mem_patch_def)
next
  case (taken f fs)
  then show ?thesis using assms written failed by (cases f) (simp_all add: mem_patch_def)
qed

lemmas ep_get_live = mem_get_live [where tab = stEndpoints and meta = epMeta]
lemmas ep_update_live = mem_update_live [where tab = stEndpoints and set_tab = "\<lambda>t st. st\<lparr>stEndpoints := t\<rparr>"
    and meta = epMeta and spec = epSpec and status = epStatus and set_status = "\<lambda>s obj. obj\<lparr>epStatus := s\<rparr>"
    and set_gen = "\<lambda>g obj. obj\<lparr>epMeta := (epMeta obj)\<lparr>Generation := g\<rparr>\<rparr>"]
lemmas ep_patch_live = mem_patch_live [where tab = stEndpoints and set_tab = "\<lambda>t st. st\<lparr>stEndpoints := t\<rparr>"
    and meta = epMeta and status = epStatus and set_status = "\<lambda>s obj. obj\<lparr>epStatus := s\<rparr>"
    and merge = merge_endpoint_status]

lemmas pt_get_live = mem_get_live [where tab = stTemplates and meta = ptMeta]
lemmas pt_update_live = mem_update_live [where tab = stTemplates and set_tab = "\<lambda>t st. st\<lparr>stTemplates := t\<rparr>"
    and meta = ptMeta and spec = ptSpec and status = ptStatus and set_status = "\<lambda>s obj. obj\<lparr>ptStatus := s\<rparr>"
    and set_gen = "\<lambda>g obj. obj\<lparr>ptMeta := (ptMeta obj)\<lparr>Generation := g\<rparr>\<rparr>"]
lemmas pt_patch_live = mem_patch_live [where tab = stTemplates and set_tab = "\<lambda>t st. st\<lparr>stTemplates := t\<rparr>"
    and meta = ptMeta and status = ptStatus and set_status = "\<lambda>s obj. obj\<lparr>ptStatus := s\<rparr>"
    and merge = merge_template_status]

lemmas gp_get_live = mem_get_live [where tab = stPolicies and meta = gpMeta]
lemmas gp_update_live = mem_update_live [where tab = stPolicies and set_tab = "\<lambda>t st. st\<lparr>stPolicies := t\<rparr>"
    and meta = gpMeta and spec = gpSpec and status = gpStatus and set_status = "\<lambda>s obj. obj\<lparr>gpStatus := s\<rparr>"
    and set_gen = "\<lambda>g obj. obj\<lparr>gpMeta := (gpMeta obj)\<lparr>Generation := g\<rparr>\<rparr>"]
lemmas gp_patch_live = mem_patch_live [where tab = stPolicies and set_tab = "\<lambda>t st. st\<lparr>stPolicies := t\<rparr>"
    and meta = gpMeta and status = gpStatus and set_status = "\<lambda>s obj. obj\<lparr>gpStatus := s\<rparr>"
    and merge = merge_policy_status]

lemma cluster_kube_sel [simp]:
  "rGet (epAPI cluster_kube) = mem_get stEndpoints epMeta"
  "rUpdate (epAPI cluster_kube) =
    mem_update stEndpoints (\<lambda>t st. st\<lparr>stEndpoints := t\<rparr>) epMeta epSpec epStatus (\<lambda>s obj. obj\<lparr>epStatus := s\<rparr>) (\<lambda>g obj. obj\<lparr>epMeta := (epMeta obj)\<lparr>Generation := g\<rparr>\<rparr>)"
  "rPatchStatus (epAPI cluster_kube) = mem_patch stEndpoints (\<lambda>t st. st\<lparr>stEndpoints := t\<rparr>) epMeta epStatus (\<lambda>s obj. obj\<lparr>epStatus := s\<rparr>)
    merge_endpoint_status"
  "rGet (ptAPI cluster_kube) = mem_get stTemplates ptMeta"
  "rUpdate (ptAPI cluster_kube) =
    mem_update stTemplates (\<lambda>t st. st\<lparr>stTemplates := t\<rparr>) ptMeta ptSpec ptStatus (\<lambda>s obj. obj\<lparr>ptStatus := s\<rparr>) (\<lambda>g obj. obj\<lparr>ptMeta := (ptMeta obj)\<lparr>Generation := g\<rparr>\<rparr>)"
  "rPatchStatus (ptAPI cluster_kube) = mem_patch stTemplates (\<lambda>t st. st\<lparr>stTemplates := t\<rparr>) ptMeta ptStatus (\<lambda>s obj. obj\<lparr>ptStatus := s\<rparr>)
    merge_template_status"
  "rGet (gpAPI cluster_kube) = mem_get stPolicies gpMeta"
  "rUpdate (gpAPI cluster_kube) =
    mem_update stPolicies (\<lambda>t st. st\<lparr>stPolicies := t\<rparr>) gpMeta gpSpec gpStatus (\<lambda>s obj. obj\<lparr>gpStatus := s\<rparr>) (\<lambda>g obj. obj\<lparr>gpMeta := (gpMeta obj)\<lparr>Generation := g\<rparr>\<rparr>)"
  "rPatchStatus (gpAPI cluster_kube) = mem_patch stPolicies (\<lambda>t st. st\<lparr>stPolicies := t\<rparr>) gpMeta gpStatus (\<lambda>s obj. obj\<lparr>gpStatus := s\<rparr>)
    merge_policy_status"
  "createOrUpdateService cluster_kube = mem_create_or_update"
  "setControllerReference cluster_kube = mem_set_owner"
  "containsFinalizer cluster_kube = (\<lambda>m f. f \<in> set (Finalizers m))"
  "metaNow cluster_kube w = (clock w, w\<lparr>clock := clock w + 1\<rparr>)"
  by (simp_all add: cluster_kube_def)

end
