(* ===== verification/Reconciler.thy ===== *)
theory Reconciler
  imports Kube
begin

section \<open>What the reconcilers share\<close>

text \<open>
  The result type of controller-runtime, the requeue intervals of modelendpoint\_controller.go
  (nanoseconds, as time.Duration), when the work queue calls a reconciler again, and the locale
  \<open>converging\<close>: a loop that keeps an invariant and, until it reaches its goal, makes a rank smaller.
  The three controllers interpret it on their own runs over a faulty API server.
\<close>

record Result =
  Requeue :: bool
  RequeueAfter :: int

definition zero_result :: Result where
  "zero_result = \<lparr>Requeue = False, RequeueAfter = 0\<rparr>"

definition requeueSteadyState :: int where
  "requeueSteadyState = 5 * 60 * 1000000000"

definition requeueTransient :: int where
  "requeueTransient = 10 * 1000000000"

lemmas requeue_defs = zero_result_def requeueSteadyState_def requeueTransient_def

text \<open>The work queue runs a request again after an error, with backoff, or when the result asks for it.\<close>

definition runs_again :: "Result \<times> go_error option \<Rightarrow> bool" where
  "runs_again r \<longleftrightarrow> snd r \<noteq> None \<or> Requeue (fst r) \<or> RequeueAfter (fst r) > 0"

locale converging =
  fixes run :: "'w \<Rightarrow> 'w" and inv :: "'w \<Rightarrow> bool" and goal :: "'w \<Rightarrow> bool" and rank :: "'w \<Rightarrow> nat"
  assumes inv_run: "inv w \<Longrightarrow> inv (run w)"
    and progress: "inv w \<Longrightarrow> \<not> goal w \<Longrightarrow> goal (run w) \<or> rank (run w) < rank w"
    and goal_run: "inv w \<Longrightarrow> goal w \<Longrightarrow> goal (run w)"
    and rank_0: "inv w \<Longrightarrow> rank w = 0 \<Longrightarrow> goal w"
begin

lemma inv_runs: "inv w \<Longrightarrow> inv ((run ^^ n) w)"
  by (induction n) (auto intro: inv_run)

lemma goal_runs: "inv w \<Longrightarrow> goal w \<Longrightarrow> goal ((run ^^ n) w)"
  by (induction n) (auto intro: goal_run inv_runs)

lemma goal_or_rank: "inv w \<Longrightarrow> goal ((run ^^ n) w) \<or> rank ((run ^^ n) w) + n \<le> rank w"
proof (induction n)
  case (Suc n)
  then show ?case using progress [OF inv_runs [OF Suc.prems, of n]] goal_run [OF inv_runs [OF Suc.prems, of n]]
    by fastforce
qed simp

lemma converges: "inv w \<Longrightarrow> rank w \<le> n \<Longrightarrow> goal ((run ^^ n) w)"
  using goal_or_rank [of w n] rank_0 [OF inv_runs, of w n] by auto

end

end
