(* ===== verification/ModelEndpoint_Controller.thy ===== *)
theory ModelEndpoint_Controller
  imports Reconciler Controller_Helpers Metrics Bedrock_Invoke
begin

section \<open>The ModelEndpoint reconciler (internal/controller/modelendpoint\_controller.go)\<close>

text \<open>
  \<open>ModelEndpoint_Reconcile\<close> with its helpers \<open>handleDeletion\<close> and \<open>reconcileService\<close>. The
  Kubernetes client is a \<open>kube\<close> record, the Go interface BedrockHealthChecker is the record
  \<open>checker\<close>, both over one world; a call returns the result and error of the Go function, the
  metric calls it made and the next world. The locale \<open>endpoint_env\<close> adds to \<open>kube_api\<close> what the
  reconciler expects of the health checker; it is interpreted on the in-memory API server together
  with the model of the Bedrock client.
\<close>

subsection \<open>The reconciler\<close>

record 'w checker =
  cHealthCheck :: "EndpointKey \<Rightarrow> string \<Rightarrow> 'w \<Rightarrow> HealthResult \<times> 'w"
  cInvalidateCache :: "EndpointKey \<Rightarrow> 'w \<Rightarrow> 'w"

record 'w ModelEndpointReconciler =
  epClient :: "'w kube"
  epBedrock :: "'w checker"
  ProxyNamespace :: string
  ProxyServiceName :: string

type_synonym 'w outcome = "(Result \<times> go_error option) \<times> metric_op list \<times> 'w"

definition proxyPort :: int where
  "proxyPort = 8090"

definition service_name :: "ModelEndpoint \<Rightarrow> string" where
  "service_name ep = ''model-'' @ Name (epMeta ep)"

definition zero_service_spec :: ServiceSpec where
  "zero_service_spec = \<lparr>ssType = [], ExternalName = [], Ports = []\<rparr>"

definition desired_service :: "ModelEndpoint \<Rightarrow> Service" where
  "desired_service ep =
     \<lparr>svcName = service_name ep, svcNamespace = Namespace (epMeta ep),
      svcLabels = [''app.kubernetes.io/managed-by'' \<mapsto> ''k8s-ai-operator'',
                   ''ai.kernelpanic09.io/endpoint'' \<mapsto> Name (epMeta ep),
                   ''ai.kernelpanic09.io/model-id'' \<mapsto> sanitizeLabel (ModelId (epSpec ep))],
      svcOwners = [], svcSpec = zero_service_spec\<rparr>"

definition proxy_service_spec :: "'w ModelEndpointReconciler \<Rightarrow> ServiceSpec" where
  "proxy_service_spec r =
     \<lparr>ssType = ''ExternalName'',
      ExternalName = ProxyServiceName r @ ''.'' @ ProxyNamespace r @ ''.svc.cluster.local'',
      Ports = [\<lparr>spName = ''proxy'', spPort = proxyPort, spTargetPort = proxyPort\<rparr>]\<rparr>"

definition reconcileService :: "'w ModelEndpointReconciler \<Rightarrow> ModelEndpoint \<Rightarrow> 'w
    \<Rightarrow> (go_error + string) \<times> 'w" where
  "reconcileService r ep w =
     (case setControllerReference (epClient r) ep (desired_service ep) of
        Inl err \<Rightarrow> (Inl (Wrapf ''setting owner reference'' err), w)
      | Inr desired \<Rightarrow>
          (case createOrUpdateService (epClient r) desired (\<lambda>s. s\<lparr>svcSpec := proxy_service_spec r\<rparr>) w of
             (Some err, w') \<Rightarrow>
               (Inl (Wrapf (''CreateOrUpdate service '' @ Namespace (epMeta ep) @ ''/'' @ service_name ep) err), w')
           | (None, w') \<Rightarrow> (Inr (service_name ep), w')))"

definition handleDeletion :: "'w ModelEndpointReconciler \<Rightarrow> ModelEndpoint \<Rightarrow> 'w \<Rightarrow> 'w outcome" where
  "handleDeletion r ep w =
     (if \<not> containsFinalizer (epClient r) (epMeta ep) FinalizerName then ((zero_result, None), [], w)
      else
        let ops = [MDelete EndpointAvailable [Namespace (epMeta ep), Name (epMeta ep), ModelId (epSpec ep)]];
            w1 = cInvalidateCache (epBedrock r) (endpoint_key ep) w;
            ep' = ep\<lparr>epMeta := removeFinalizer (epClient r) (epMeta ep) FinalizerName\<rparr>
        in (case rUpdate (epAPI (epClient r)) ep' w1 of
              (Some err, w2) \<Rightarrow> ((zero_result, Some (Wrapf ''removing finalizer'' err)), ops, w2)
            | (None, w2) \<Rightarrow> ((zero_result, None), ops, w2)))"

definition endpoint_condition :: "string \<Rightarrow> HealthResult \<Rightarrow> time \<Rightarrow> Condition" where
  "endpoint_condition ty health now =
     \<lparr>cType = ty, cStatus = conditionStatus (hrAvailable health), cReason = hrReason health,
      cMessage = hrMessage health, LastTransitionTime = now\<rparr>"

text \<open>The status that Reconcile patches, from the health result and the two readings of the clock.\<close>

definition endpoint_status :: "ModelEndpoint \<Rightarrow> HealthResult \<Rightarrow> string \<Rightarrow> time \<Rightarrow> time \<Rightarrow> ModelEndpointStatus" where
  "endpoint_status ep health svc now1 now2 =
     (let st = (epStatus ep)\<lparr>Available := hrAvailable health, ServiceName := svc,
                             epObservedGeneration := Generation (epMeta ep)\<rparr>;
          cs1 = setCondition (epConditions st) (endpoint_condition ConditionBedrockReachable health now1);
          cs2 = setCondition cs1 (endpoint_condition ConditionReady health now2)
      in st\<lparr>epConditions := cs2\<rparr>)"

definition available_value :: "HealthResult \<Rightarrow> rat" where
  "available_value health = (if hrAvailable health then 1 else 0)"

definition ModelEndpoint_Reconcile :: "'w ModelEndpointReconciler \<Rightarrow> NamespacedName \<Rightarrow> 'w \<Rightarrow> 'w outcome" where
  "ModelEndpoint_Reconcile r req w =
     (let K = epClient r in
      case rGet (epAPI K) req w of
        (Inl err, w1) \<Rightarrow>
          (if IsNotFound err then ((zero_result, None), [], w1)
           else ((zero_result, Some (Wrapf ''fetching ModelEndpoint'' err)), [], w1))
      | (Inr ep, w1) \<Rightarrow>
          if \<not> IsZero (DeletionTimestamp (epMeta ep)) then handleDeletion r ep w1
          else if \<not> containsFinalizer K (epMeta ep) FinalizerName then
            (case rUpdate (epAPI K) (ep\<lparr>epMeta := addFinalizer K (epMeta ep) FinalizerName\<rparr>) w1 of
               (Some err, w2) \<Rightarrow> ((zero_result, Some (Wrapf ''adding finalizer'' err)), [], w2)
             | (None, w2) \<Rightarrow> ((zero_result\<lparr>Requeue := True\<rparr>, None), [], w2))
          else
            (let (health, w2) = cHealthCheck (epBedrock r) (endpoint_key ep) (ModelId (epSpec ep)) w1 in
             case reconcileService r ep w2 of
               (Inl err, w3) \<Rightarrow>
                 ((zero_result\<lparr>RequeueAfter := requeueTransient\<rparr>, Some (Wrapf ''reconciling service'' err)),
                  [MInc ReconcileErrorsTotal [''modelendpoint'', ''service_reconcile'']], w3)
             | (Inr svc, w3) \<Rightarrow>
                 (let ops = [MSet EndpointAvailable
                               [Namespace (epMeta ep), Name (epMeta ep), ModelId (epSpec ep)]
                               (available_value health)];
                      (now1, w4) = metaNow K w3;
                      (now2, w5) = metaNow K w4;
                      ep' = ep\<lparr>epStatus := endpoint_status ep health svc now1 now2\<rparr>
                  in case rPatchStatus (epAPI K) ep ep' w5 of
                       (Some err, w6) \<Rightarrow> ((zero_result, Some (Wrapf ''patching status'' err)), ops, w6)
                     | (None, w6) \<Rightarrow>
                         ((zero_result\<lparr>RequeueAfter :=
                             (if hrAvailable health then requeueSteadyState else requeueTransient)\<rparr>, None),
                          ops, w6))))"

subsection \<open>The patched status\<close>

lemma endpoint_condition_simps [simp]:
  "cType (endpoint_condition ty h now) = ty"
  "cStatus (endpoint_condition ty h now) = conditionStatus (hrAvailable h)"
  "cReason (endpoint_condition ty h now) = hrReason h"
  "cMessage (endpoint_condition ty h now) = hrMessage h"
  by (simp_all add: endpoint_condition_def)

lemma endpoint_status_fields [simp]:
  "Available (endpoint_status ep h svc t1 t2) = hrAvailable h"
  "ServiceName (endpoint_status ep h svc t1 t2) = svc"
  "epObservedGeneration (endpoint_status ep h svc t1 t2) = Generation (epMeta ep)"
  "CostThisMonth (endpoint_status ep h svc t1 t2) = CostThisMonth (epStatus ep)"
  "CostToday (endpoint_status ep h svc t1 t2) = CostToday (epStatus ep)"
  "InvocationsToday (endpoint_status ep h svc t1 t2) = InvocationsToday (epStatus ep)"
  "TotalInputTokens (endpoint_status ep h svc t1 t2) = TotalInputTokens (epStatus ep)"
  "TotalOutputTokens (endpoint_status ep h svc t1 t2) = TotalOutputTokens (epStatus ep)"
  by (simp_all add: endpoint_status_def Let_def)

text \<open>Both conditions carry the verdict of the health check, whatever the list held.\<close>

lemma endpoint_status_condition:
  assumes "ty \<in> {ConditionBedrockReachable, ConditionReady}"
  shows "\<exists>c. condition_of ty (epConditions (endpoint_status ep h svc t1 t2)) = Some c
    \<and> cStatus c = conditionStatus (hrAvailable h) \<and> cReason c = hrReason h \<and> cMessage c = hrMessage h"
proof -
  let ?b = "endpoint_condition ConditionBedrockReachable h t1" and ?r = "endpoint_condition ConditionReady h t2"
  let ?cs = "epConditions (epStatus ep)"
  have cs: "epConditions (endpoint_status ep h svc t1 t2) = setCondition (setCondition ?cs ?b) ?r"
    by (simp add: endpoint_status_def Let_def)
  have "ConditionBedrockReachable \<noteq> ConditionReady" by (simp add: condition_types)
  then show ?thesis
    using assms conds.put_same [of ?r "setCondition ?cs ?b"] conds.put_same [of ?b ?cs]
      conds.put_other [of ConditionBedrockReachable ?r "setCondition ?cs ?b"]
    unfolding cs by auto
qed

lemma endpoint_status_other:
  "ty \<notin> {ConditionBedrockReachable, ConditionReady} \<Longrightarrow>
   condition_of ty (epConditions (endpoint_status ep h svc t1 t2)) = condition_of ty (epConditions (epStatus ep))"
  by (simp add: endpoint_status_def Let_def conds.put_other)

lemma endpoint_status_distinct:
  "distinct (map cType (epConditions (epStatus ep))) \<Longrightarrow>
   distinct (map cType (epConditions (endpoint_status ep h svc t1 t2)))"
  by (simp add: endpoint_status_def Let_def conds.put_distinct)

subsection \<open>What the reconciler expects of its environment\<close>

text \<open>
  The check is a call to Bedrock that takes its time: \<open>endpoint_calls\<close> says nothing of the objects in the
  cluster after it, since others may write meanwhile; \<open>endpoint_env\<close> is the environment in which they
  do not.
\<close>

locale endpoint_calls = kube_api K store
  for K :: "'w kube" and store :: "'w \<Rightarrow> Store" +
  fixes C :: "'w checker" and cached :: "'w \<Rightarrow> EndpointKey \<Rightarrow> bool"
  assumes evict_frame: "store (cInvalidateCache C key w) = store w"
    and health_reason: "hrAvailable (fst (cHealthCheck C key m w)) \<longleftrightarrow>
      hrReason (fst (cHealthCheck C key m w)) = ''ModelAvailable''"
    and evict_cached: "cached (cInvalidateCache C key w) = (cached w)(key := False)"
    and get_cached: "cached (snd (rGet (epAPI K) req w)) = cached w"
    and update_cached: "cached (snd (rUpdate (epAPI K) obj w)) = cached w"
begin

text \<open>The Service is reconciled before the status; both leave the other's table alone.\<close>

lemma service_stored:
  assumes "reconcileService r ep w = (Inr n, w')" "epClient r = K"
  shows "n = service_name ep \<and> stEndpoints (store w') = stEndpoints (store w)
    \<and> (\<exists>s. stServices (store w') = (stServices (store w))
          (\<lparr>nnNamespace = Namespace (epMeta ep), nnName = service_name ep\<rparr> \<mapsto> s)
        \<and> svcSpec s = proxy_service_spec r
        \<and> (case stServices (store w) \<lparr>nnNamespace = Namespace (epMeta ep), nnName = service_name ep\<rparr> of
             Some old \<Rightarrow> s = old\<lparr>svcSpec := proxy_service_spec r\<rparr>
           | None \<Rightarrow> svcLabels s = svcLabels (desired_service ep)
               \<and> (\<exists>o' \<in> set (svcOwners s). orController o' \<and> orName o' = Name (epMeta ep))))"
proof -
  obtain d where d: "setControllerReference K ep (desired_service ep) = Inr d"
    using assms by (auto simp: reconcileService_def split: sum.splits)
  then have key: "svcKey d = \<lparr>nnNamespace = Namespace (epMeta ep), nnName = service_name ep\<rparr>"
    using owner_ok [OF d] by (simp add: svcKey_def desired_service_def)
  have c: "createOrUpdateService K d (\<lambda>s. s\<lparr>svcSpec := proxy_service_spec r\<rparr>) w = (None, w')"
    and n: "n = service_name ep"
    using assms d by (auto simp: reconcileService_def split: prod.splits option.splits)
  show ?thesis
    using service_ok [OF c] service_frame [of d "\<lambda>s. s\<lparr>svcSpec := proxy_service_spec r\<rparr>" w] c n key owner_ok [OF d]
    by (intro conjI exI [of _ "(case stServices (store w) (svcKey d) of None \<Rightarrow> d | Some s \<Rightarrow> s)
          \<lparr>svcSpec := proxy_service_spec r\<rparr>"]) (simp_all split: option.splits)
qed

text \<open>A call that ends without an error has done one of four things.\<close>

lemma reconcile_ok_cases:
  assumes run: "ModelEndpoint_Reconcile r req w = ((res, None), ops, w')"
    and r: "epClient r = K" "epBedrock r = C"
  obtains (missing) e w1 where "rGet (epAPI K) req w = (Inl e, w1)" "IsNotFound e" "res = zero_result" "ops = []" "w' = w1"
  | (deleting) ep w1 where "rGet (epAPI K) req w = (Inr ep, w1)" "\<not> IsZero (DeletionTimestamp (epMeta ep))"
      "handleDeletion r ep w1 = ((res, None), ops, w')"
  | (adding) ep w1 where "rGet (epAPI K) req w = (Inr ep, w1)" "IsZero (DeletionTimestamp (epMeta ep))"
      "FinalizerName \<notin> set (Finalizers (epMeta ep))"
      "rUpdate (epAPI K) (ep\<lparr>epMeta := addFinalizer K (epMeta ep) FinalizerName\<rparr>) w1 = (None, w')"
      "res = zero_result\<lparr>Requeue := True\<rparr>" "ops = []"
  | (synced) ep w1 health w2 w3 now1 w4 now2 w5 where "rGet (epAPI K) req w = (Inr ep, w1)"
      "IsZero (DeletionTimestamp (epMeta ep))" "FinalizerName \<in> set (Finalizers (epMeta ep))"
      "cHealthCheck C (endpoint_key ep) (ModelId (epSpec ep)) w1 = (health, w2)"
      "reconcileService r ep w2 = (Inr (service_name ep), w3)"
      "metaNow K w3 = (now1, w4)" "metaNow K w4 = (now2, w5)"
      "rPatchStatus (epAPI K) ep (ep\<lparr>epStatus := endpoint_status ep health (service_name ep) now1 now2\<rparr>) w5 = (None, w')"
      "res = zero_result\<lparr>RequeueAfter := (if hrAvailable health then requeueSteadyState else requeueTransient)\<rparr>"
      "ops = [MSet EndpointAvailable [Namespace (epMeta ep), Name (epMeta ep), ModelId (epSpec ep)] (available_value health)]"
proof (cases "rGet (epAPI K) req w")
  case (Pair g w1)
  note get = Pair
  show ?thesis
  proof (cases g)
    case (Inl e)
    then show ?thesis using run r get missing by (auto simp: ModelEndpoint_Reconcile_def split: if_splits)
  next
    case (Inr ep)
    note get = get [unfolded Inr]
    consider "\<not> IsZero (DeletionTimestamp (epMeta ep))"
      | "IsZero (DeletionTimestamp (epMeta ep))" "FinalizerName \<notin> set (Finalizers (epMeta ep))"
      | "IsZero (DeletionTimestamp (epMeta ep))" "FinalizerName \<in> set (Finalizers (epMeta ep))"
      by blast
    then show ?thesis
    proof cases
      case 1
      then show ?thesis using run r get deleting by (simp add: ModelEndpoint_Reconcile_def)
    next
      case 2
      then show ?thesis using run r get adding
        by (auto simp: ModelEndpoint_Reconcile_def Let_def contains_iff split: prod.splits option.splits)
    next
      case 3
      obtain h w2 where h: "cHealthCheck C (endpoint_key ep) (ModelId (epSpec ep)) w1 = (h, w2)" by fastforce
      obtain n w3 where s: "reconcileService r ep w2 = (Inr n, w3)"
        using run r get 3 h
        by (auto simp: ModelEndpoint_Reconcile_def Let_def contains_iff split: prod.splits sum.splits)
      have n: "n = service_name ep" using service_stored [OF s r(1)] by simp
      obtain t1 w4 t2 w5 where t: "metaNow K w3 = (t1, w4)" "metaNow K w4 = (t2, w5)" by fastforce
      show ?thesis using run r get 3 h s n t
        by (intro synced [OF get 3 h _ t]) (auto simp: ModelEndpoint_Reconcile_def Let_def contains_iff split: prod.splits option.splits)
    qed
  qed
qed

end

subsection \<open>The operator on the in-memory API server\<close>

record 'w operator_world = cluster +
  bedrockClient :: BedrockClient
  awsWorld :: 'w

definition bedrock_checker :: "'w aws \<Rightarrow> 'w operator_world checker" where
  "bedrock_checker sdk =
     \<lparr>cHealthCheck = (\<lambda>key m w.
        let (h, c, a) = HealthCheck sdk key m (bedrockClient w) (awsWorld w)
        in (h, w\<lparr>bedrockClient := c, awsWorld := a\<rparr>)),
      cInvalidateCache = (\<lambda>key w. w\<lparr>bedrockClient := InvalidateCache (bedrockClient w) key\<rparr>)\<rparr>"

definition has_client :: "'w operator_world \<Rightarrow> EndpointKey \<Rightarrow> bool" where
  "has_client w key \<longleftrightarrow> runtimeTab (bedrockClient w) key \<noteq> None \<or> controlTab (bedrockClient w) key \<noteq> None"

definition operator_reconciler :: "'w aws \<Rightarrow> string \<Rightarrow> string \<Rightarrow> 'w operator_world ModelEndpointReconciler" where
  "operator_reconciler sdk ns svc =
     \<lparr>epClient = cluster_kube, epBedrock = bedrock_checker sdk, ProxyNamespace = ns, ProxyServiceName = svc\<rparr>"

lemma next_fault_client: "next_fault w = (f, w') \<Longrightarrow>
    bedrockClient w' = bedrockClient w \<and> awsWorld w' = awsWorld w"
  by (auto simp: next_fault_def split: list.splits)

locale endpoint_env = endpoint_calls K store C cached
  for K :: "'w kube" and store :: "'w \<Rightarrow> Store" and C :: "'w checker" and cached :: "'w \<Rightarrow> EndpointKey \<Rightarrow> bool" +
  assumes health_frame: "store (snd (cHealthCheck C key m w)) = store w"

interpretation memory: endpoint_env "cluster_kube :: 'w operator_world kube" objects "bedrock_checker sdk" has_client
  for sdk :: "'w aws"
proof (intro endpoint_env.intro endpoint_calls.intro endpoint_calls_axioms.intro endpoint_env_axioms.intro)
  show "kube_api (cluster_kube :: 'w operator_world kube) objects" by unfold_locales
  fix key k m and w :: "'w operator_world"
  show "objects (snd (cHealthCheck (bedrock_checker sdk) key m w)) = objects w"
    by (simp add: bedrock_checker_def split: prod.split)
  show "objects (cInvalidateCache (bedrock_checker sdk) key w) = objects w"
    by (simp add: bedrock_checker_def)
  show "hrAvailable (fst (cHealthCheck (bedrock_checker sdk) key m w)) \<longleftrightarrow>
      hrReason (fst (cHealthCheck (bedrock_checker sdk) key m w)) = ''ModelAvailable''"
    by (simp add: bedrock_checker_def HealthCheck_def split: prod.split option.split)
  show "has_client (cInvalidateCache (bedrock_checker sdk) key w) = (has_client w)(key := False)"
    by (auto simp: bedrock_checker_def has_client_def InvalidateCache_def fun_eq_iff)
  show "has_client (snd (rGet (epAPI cluster_kube) k w)) = has_client w"
    by (auto simp: cluster_kube_def mem_get_def has_client_def fun_eq_iff
        split: prod.splits option.splits dest: next_fault_client)
  fix obj
  show "has_client (snd (rUpdate (epAPI cluster_kube) obj w)) = has_client w"
    by (auto simp: cluster_kube_def mem_update_def has_client_def fun_eq_iff Let_def
        split: prod.splits option.splits dest: next_fault_client)
qed

subsection \<open>What each branch leaves behind\<close>

abbreviation service_key :: "ModelEndpoint \<Rightarrow> NamespacedName" where
  "service_key ep \<equiv> \<lparr>nnNamespace = Namespace (epMeta ep), nnName = service_name ep\<rparr>"

text \<open>The Service that a reconciliation leaves: a new one, or the old one with its spec.\<close>

definition endpoint_service :: "'w ModelEndpointReconciler \<Rightarrow> ModelEndpoint \<Rightarrow> Service option \<Rightarrow> Service" where
  "endpoint_service r ep old =
     (case old of
        Some s \<Rightarrow> s\<lparr>svcSpec := proxy_service_spec r\<rparr>
      | None \<Rightarrow> (desired_service ep)\<lparr>svcSpec := proxy_service_spec r,
          svcOwners := [\<lparr>orKind = ''ModelEndpoint'', orName = Name (epMeta ep), orController = True\<rparr>]\<rparr>)"

lemma endpoint_service_again: "endpoint_service r ep (Some (endpoint_service r ep old)) = endpoint_service r ep old"
  by (simp add: endpoint_service_def split: option.split)

lemma endpoint_service_key [simp]:
  "svcKey (endpoint_service r ep None) = service_key ep"
  "svcKey (endpoint_service r ep (Some s)) = svcKey s"
  by (simp_all add: endpoint_service_def svcKey_def desired_service_def)

context endpoint_calls begin

lemma service_result:
  assumes "reconcileService r ep w = (Inr n, w')" "epClient r = K"
  shows "stServices (store w') = (stServices (store w))
    (service_key ep \<mapsto> endpoint_service r ep (stServices (store w) (service_key ep)))"
proof -
  obtain d where d: "setControllerReference K ep (desired_service ep) = Inr d"
    using assms by (auto simp: reconcileService_def split: sum.splits)
  note owner = owner_ok [OF d]
  have c: "createOrUpdateService K d (\<lambda>s. s\<lparr>svcSpec := proxy_service_spec r\<rparr>) w = (None, w')"
    using assms d by (auto simp: reconcileService_def split: prod.splits option.splits)
  have key: "svcKey d = service_key ep" using owner by (simp add: svcKey_def desired_service_def)
  have "d\<lparr>svcSpec := proxy_service_spec r\<rparr> = endpoint_service r ep None"
    using owner by (cases d) (auto simp: endpoint_service_def desired_service_def svcKey_def)
  then show ?thesis using service_ok [OF c] by (simp add: key endpoint_service_def split: option.splits)
qed

lemma get_stored: "stEndpoints (store w) req = Some ep \<Longrightarrow> rGet (epAPI K) req w = (Inr ep', w1) \<Longrightarrow>
    ep' = ep \<and> keyOf (epMeta ep) = req \<and> store w1 = store w \<and> cached w1 = cached w"
  using ep.get_found get_frame(1) get_cached by (metis option.inject snd_conv)

lemma get_not_missing: "stEndpoints (store w) req = Some ep \<Longrightarrow> rGet (epAPI K) req w = (Inl e, w1) \<Longrightarrow> \<not> IsNotFound e"
  using ep.get_missing by fastforce

text \<open>
  A live endpoint with its finalizer: what the call leaves behind, given the objects \<open>cur\<close> and services
  that are stored when the check of Bedrock returns.
\<close>

lemma synced_calls:
  assumes run: "ModelEndpoint_Reconcile r req w = ((res, None), ops, w')"
    and r: "epClient r = K" "epBedrock r = C"
    and ep: "stEndpoints (store w) req = Some ep" "IsZero (DeletionTimestamp (epMeta ep))"
      "FinalizerName \<in> set (Finalizers (epMeta ep))"
    and check: "cHealthCheck C (endpoint_key ep) (ModelId (epSpec ep)) (snd (rGet (epAPI K) req w)) = (h, w2)"
    and cur: "stEndpoints (store w2) req = Some cur"
  shows "keyOf (epMeta ep) = req
    \<and> (\<exists>t1 t2. stEndpoints (store w') = (stEndpoints (store w2))(req \<mapsto> cur\<lparr>epStatus :=
        merge_endpoint_status (epStatus ep) (endpoint_status ep h (service_name ep) t1 t2) (epStatus cur)\<rparr>))
    \<and> stServices (store w') = (stServices (store w2))
        (service_key ep \<mapsto> endpoint_service r ep (stServices (store w2) (service_key ep)))
    \<and> res = zero_result\<lparr>RequeueAfter := (if hrAvailable h then requeueSteadyState else requeueTransient)\<rparr>
    \<and> ops = [MSet EndpointAvailable [Namespace (epMeta ep), Name (epMeta ep), ModelId (epSpec ep)] (available_value h)]"
using run r
proof (cases rule: reconcile_ok_cases)
  case missing
  with get_not_missing [OF ep(1)] show ?thesis by blast
next
  case deleting
  with get_stored [OF ep(1)] ep(2) show ?thesis by blast
next
  case adding
  with get_stored [OF ep(1)] ep(3) show ?thesis by blast
next
  case (synced ep' w1 h' w2' w3 t1 w4 t2 w5)
  have eq: "ep' = ep" "keyOf (epMeta ep) = req" using get_stored [OF ep(1) synced(1)] by simp_all
  have h: "h' = h" "w2' = w2" using synced(1,4) check eq(1) by simp_all
  have w5: "store w5 = store w3" using now_frame [of w3] now_frame [of w4] synced(6,7) by simp
  have w5e: "stEndpoints (store w5) = stEndpoints (store w2)" using service_stored [OF synced(5) r(1)] w5 h by simp
  let ?new = "ep\<lparr>epStatus := endpoint_status ep h (service_name ep) t1 t2\<rparr>"
  have "stEndpoints (store w') = (stEndpoints (store w5))(req \<mapsto>
      cur\<lparr>epStatus := merge_endpoint_status (epStatus ep) (epStatus ?new) (epStatus cur)\<rparr>)"
    using ep.patch_ok [OF synced(8) [unfolded eq(1)], of cur] w5e cur eq(2) h by simp
  moreover have "stServices (store w') = stServices (store w3)"
    using patch_frame synced(8) w5 by (metis snd_conv)
  ultimately show ?thesis using service_result [OF synced(5) r(1)] eq h synced(9,10) w5e by auto
qed

end

context endpoint_env begin

lemma synced_store:
  assumes run: "ModelEndpoint_Reconcile r req w = ((res, None), ops, w')"
    and r: "epClient r = K" "epBedrock r = C"
    and ep: "stEndpoints (store w) req = Some ep" "IsZero (DeletionTimestamp (epMeta ep))"
      "FinalizerName \<in> set (Finalizers (epMeta ep))"
  shows "keyOf (epMeta ep) = req" "stServices (store w') = (stServices (store w))
      (service_key ep \<mapsto> endpoint_service r ep (stServices (store w) (service_key ep)))"
    "\<exists>h t1 t2. h = fst (cHealthCheck C (endpoint_key ep) (ModelId (epSpec ep)) (snd (rGet (epAPI K) req w)))
      \<and> stEndpoints (store w') =
        (stEndpoints (store w))(req \<mapsto> ep\<lparr>epStatus := endpoint_status ep h (service_name ep) t1 t2\<rparr>)
      \<and> res = zero_result\<lparr>RequeueAfter := (if hrAvailable h then requeueSteadyState else requeueTransient)\<rparr>
      \<and> ops = [MSet EndpointAvailable [Namespace (epMeta ep), Name (epMeta ep), ModelId (epSpec ep)] (available_value h)]"
proof -
  obtain h w2 where check: "cHealthCheck C (endpoint_key ep) (ModelId (epSpec ep)) (snd (rGet (epAPI K) req w)) = (h, w2)"
    by fastforce
  then have w2: "store w2 = store w"
    using health_frame [of "endpoint_key ep" "ModelId (epSpec ep)" "snd (rGet (epAPI K) req w)"] get_frame(1) by simp
  then have cur: "stEndpoints (store w2) req = Some ep" using ep(1) by simp
  note * = synced_calls [OF run r ep check cur]
  show "keyOf (epMeta ep) = req" "stServices (store w') = (stServices (store w))
      (service_key ep \<mapsto> endpoint_service r ep (stServices (store w) (service_key ep)))"
    using * w2 by simp_all
  show "\<exists>h t1 t2. h = fst (cHealthCheck C (endpoint_key ep) (ModelId (epSpec ep)) (snd (rGet (epAPI K) req w)))
      \<and> stEndpoints (store w') =
        (stEndpoints (store w))(req \<mapsto> ep\<lparr>epStatus := endpoint_status ep h (service_name ep) t1 t2\<rparr>)
      \<and> res = zero_result\<lparr>RequeueAfter := (if hrAvailable h then requeueSteadyState else requeueTransient)\<rparr>
      \<and> ops = [MSet EndpointAvailable [Namespace (epMeta ep), Name (epMeta ep), ModelId (epSpec ep)] (available_value h)]"
    using * w2 check by auto
qed

lemma synced_state:
  assumes run: "ModelEndpoint_Reconcile r req w = ((res, None), ops, w')"
    and r: "epClient r = K" "epBedrock r = C"
    and ep: "stEndpoints (store w) req = Some ep" "IsZero (DeletionTimestamp (epMeta ep))"
      "FinalizerName \<in> set (Finalizers (epMeta ep))"
  shows "\<exists>h t1 t2 s. h = fst (cHealthCheck C (endpoint_key ep) (ModelId (epSpec ep)) (snd (rGet (epAPI K) req w)))
    \<and> stEndpoints (store w') =
        (stEndpoints (store w))(req \<mapsto> ep\<lparr>epStatus := endpoint_status ep h (service_name ep) t1 t2\<rparr>)
    \<and> stServices (store w') \<lparr>nnNamespace = Namespace (epMeta ep), nnName = service_name ep\<rparr> = Some s
    \<and> svcSpec s = proxy_service_spec r
    \<and> res = zero_result\<lparr>RequeueAfter := (if hrAvailable h then requeueSteadyState else requeueTransient)\<rparr>
    \<and> ops = [MSet EndpointAvailable [Namespace (epMeta ep), Name (epMeta ep), ModelId (epSpec ep)] (available_value h)]"
  using synced_store(2,3) [OF run r ep] by (auto simp: endpoint_service_def split: option.split)

lemma deleted_state:
  assumes run: "ModelEndpoint_Reconcile r req w = ((res, None), ops, w')"
    and r: "epClient r = K" "epBedrock r = C"
    and ep: "stEndpoints (store w) req = Some ep" "\<not> IsZero (DeletionTimestamp (epMeta ep))"
      "FinalizerName \<in> set (Finalizers (epMeta ep))"
  shows "stEndpoints (store w') = (stEndpoints (store w))(req :=
      (if set (Finalizers (epMeta ep)) \<subseteq> {FinalizerName} then None
       else Some (ep\<lparr>epMeta := removeFinalizer K (epMeta ep) FinalizerName\<rparr>)))
    \<and> cached w' = (cached w)(endpoint_key ep := False)
    \<and> res = zero_result
    \<and> ops = [MDelete EndpointAvailable [Namespace (epMeta ep), Name (epMeta ep), ModelId (epSpec ep)]]"
using run r
proof (cases rule: reconcile_ok_cases)
  case missing
  with get_not_missing [OF ep(1)] show ?thesis by blast
next
  case (deleting ep' w1)
  have eq: "ep' = ep" "keyOf (epMeta ep) = req" "store w1 = store w" "cached w1 = cached w"
    using get_stored [OF ep(1) deleting(1)] by simp_all
  let ?m = "removeFinalizer K (epMeta ep) FinalizerName"
  let ?w1 = "cInvalidateCache C (endpoint_key ep) w1"
  have u: "rUpdate (epAPI K) (ep\<lparr>epMeta := ?m\<rparr>) ?w1 = (None, w')" and o: "res = zero_result"
    "ops = [MDelete EndpointAvailable [Namespace (epMeta ep), Name (epMeta ep), ModelId (epSpec ep)]]"
    using deleting(3) r ep(3) eq(1) by (auto simp: handleDeletion_def Let_def contains_iff split: prod.splits option.splits)
  have "stEndpoints (store w') = (stEndpoints (store ?w1))(req := updated_object ?m (ep\<lparr>epMeta := ?m\<rparr>))"
    using ep.update_ok [OF u, of ep] ep(1) eq evict_frame by simp
  moreover have "cached w' = cached ?w1" using update_cached u by (metis snd_conv)
  ultimately show ?thesis using o eq ep(2) evict_frame
    by (simp add: evict_cached updated_object_def remove_last)
next
  case adding
  with get_stored [OF ep(1)] ep(2) show ?thesis by blast
next
  case synced
  with get_stored [OF ep(1)] ep(2) show ?thesis by blast
qed

lemma adding_state:
  assumes r: "epClient r = K"
    and ep: "stEndpoints (store w) req = Some ep" "IsZero (DeletionTimestamp (epMeta ep))"
      "FinalizerName \<notin> set (Finalizers (epMeta ep))"
    and run: "ModelEndpoint_Reconcile r req w = ((res, err), ops, w')"
  shows "ops = [] \<and> stServices (store w') = stServices (store w) \<and> cached w' = cached w
    \<and> (err = None \<longrightarrow> res = zero_result\<lparr>Requeue := True\<rparr> \<and>
       stEndpoints (store w') = (stEndpoints (store w))(req \<mapsto>
         ep\<lparr>epMeta := (epMeta ep)\<lparr>Finalizers := Finalizers (epMeta ep) @ [FinalizerName]\<rparr>\<rparr>))"
proof (cases "rGet (epAPI K) req w")
  case (Pair g w1)
  show ?thesis
  proof (cases g)
    case (Inl e)
    have "store w1 = store w" "cached w1 = cached w"
      using get_frame(1) [of req w] get_cached [of req w] Pair by simp_all
    then show ?thesis using run r Pair Inl get_not_missing [OF ep(1)]
      by (auto simp: ModelEndpoint_Reconcile_def split: if_splits)
  next
    case (Inr ep')
    have eq: "ep' = ep" "keyOf (epMeta ep) = req" "store w1 = store w" "cached w1 = cached w"
      using get_stored [OF ep(1) Pair [unfolded Inr]] by simp_all
    let ?ep = "ep\<lparr>epMeta := addFinalizer K (epMeta ep) FinalizerName\<rparr>"
    obtain e w2 where u: "rUpdate (epAPI K) ?ep w1 = (e, w2)" by fastforce
    have w2: "stServices (store w2) = stServices (store w)" "cached w2 = cached w"
      using update_frame [of ?ep w1] update_cached [of ?ep w1] u eq by simp_all
    have "e = None \<Longrightarrow> stEndpoints (store w2) = (stEndpoints (store w))(req \<mapsto>
        ep\<lparr>epMeta := (epMeta ep)\<lparr>Finalizers := Finalizers (epMeta ep) @ [FinalizerName]\<rparr>\<rparr>)"
      using ep.update_ok [of ?ep w1 w2 ep] u eq ep by (simp add: updated_object_def add_eq)
    then show ?thesis using run r Pair Inr eq ep u w2
      by (auto simp: ModelEndpoint_Reconcile_def Let_def contains_iff split: option.splits)
  qed
qed

text \<open>Without the finalizer the health checker is not consulted.\<close>

lemma reconcile_unchecked:
  assumes r: "epClient r = K"
    and ep: "stEndpoints (store w) req = Some ep" "IsZero (DeletionTimestamp (epMeta ep))"
      "FinalizerName \<notin> set (Finalizers (epMeta ep))"
  shows "ModelEndpoint_Reconcile (r\<lparr>epBedrock := C'\<rparr>) req w = ModelEndpoint_Reconcile r req w"
proof (cases "rGet (epAPI K) req w")
  case (Pair g w1)
  then show ?thesis using get_stored [OF ep(1)] ep(2,3) r
    by (cases g) (auto simp: ModelEndpoint_Reconcile_def Let_def contains_iff split: option.splits)
qed

lemma live_runs_again:
  assumes r: "epClient r = K"
    and ep: "stEndpoints (store w) req = Some ep" "IsZero (DeletionTimestamp (epMeta ep))"
  shows "runs_again (fst (ModelEndpoint_Reconcile r req w))"
proof (cases "rGet (epAPI K) req w")
  case (Pair g w1)
  then show ?thesis
    using get_stored [OF ep(1)] get_not_missing [OF ep(1)] ep(2) r
    by (cases g) (auto simp: ModelEndpoint_Reconcile_def Let_def runs_again_def requeue_defs
      split: option.splits sum.splits prod.splits)
qed

end

lemma ModelEndpoint_Reconcile_metrics:
  "list_all metric_op_ok (fst (snd (ModelEndpoint_Reconcile r req w)))"
  by (auto simp: ModelEndpoint_Reconcile_def handleDeletion_def Let_def
      split: option.splits sum.splits prod.splits)

subsection \<open>Convergence over a faulty API server\<close>

text \<open>One turn of the work queue on one request, as the state it leaves.\<close>

definition endpoint_turn :: "'w ModelEndpointReconciler \<Rightarrow> NamespacedName \<Rightarrow> 'w \<Rightarrow> 'w" where
  "endpoint_turn r req w = snd (snd (ModelEndpoint_Reconcile r req w))"

text \<open>The endpoint as the user declared it: its status and finalizers are the operator's business.\<close>

definition declared_endpoint :: "NamespacedName \<Rightarrow> ModelEndpointSpec \<Rightarrow> int \<Rightarrow> ModelEndpoint \<Rightarrow> bool" where
  "declared_endpoint req spec gen ep \<longleftrightarrow> keyOf (epMeta ep) = req \<and> epSpec ep = spec
     \<and> Generation (epMeta ep) = gen \<and> IsZero (DeletionTimestamp (epMeta ep))"

definition endpoint_ready :: "ModelEndpoint \<Rightarrow> bool" where
  "endpoint_ready ep \<longleftrightarrow> Available (epStatus ep) \<and> ServiceName (epStatus ep) = service_name ep
     \<and> epObservedGeneration (epStatus ep) = Generation (epMeta ep)
     \<and> (\<exists>c. condition_of ConditionReady (epConditions (epStatus ep)) = Some c \<and> cStatus c = ConditionTrue)"

definition endpoint_rank :: "NamespacedName \<Rightarrow> 'w operator_world \<Rightarrow> nat" where
  "endpoint_rank req w = 1 + length (faults w) +
     (case stEndpoints (objects w) req of
        None \<Rightarrow> 0 | Some ep \<Rightarrow> if FinalizerName \<in> set (Finalizers (epMeta ep)) then 0 else 1)"

lemma endpoint_status_ready:
  "hrAvailable h \<Longrightarrow> endpoint_ready (ep\<lparr>epStatus := endpoint_status ep h (service_name ep) t1 t2\<rparr>)"
  using endpoint_status_condition [of ConditionReady ep h "service_name ep" t1 t2]
  by (auto simp: endpoint_ready_def conditionStatus_def service_name_def)

lemma mem_service_live:
  obtains (written) w' where "reconcileService (operator_reconciler sdk ns svc) ep w = (Inr (service_name ep), w')"
      "stEndpoints (objects w') = stEndpoints (objects w)" "length (faults w') \<le> length (faults w)"
  | (failed) e w' where "reconcileService (operator_reconciler sdk ns svc) ep w = (Inl e, w')"
      "stEndpoints (objects w') = stEndpoints (objects w)" "length (faults w') < length (faults w)"
proof (cases w rule: next_fault_cases)
  case quiet
  then show ?thesis using written
    by (simp add: reconcileService_def operator_reconciler_def cluster_kube_def mem_set_owner_def
        desired_service_def mem_create_or_update_def Let_def)
next
  case (taken f fs)
  then show ?thesis using written failed
    by (cases f) (simp_all add: reconcileService_def operator_reconciler_def cluster_kube_def
        mem_set_owner_def desired_service_def mem_create_or_update_def Let_def)
qed

text \<open>Bedrock offers every model to everybody: no GetFoundationModel call fails.\<close>

definition bedrock_up :: "'w aws \<Rightarrow> bool" where
  "bedrock_up sdk \<longleftrightarrow> (\<forall>cl m a. fst (awsGetFoundationModel sdk cl m a) = None)"

lemma checker_up:
  assumes "bedrock_up sdk"
  obtains h w' where "cHealthCheck (bedrock_checker sdk) key m w = (h, w')" "hrAvailable h"
    "objects w' = objects w" "faults w' = faults w"
proof -
  obtain cl c' where "controlClient (bedrockClient w) key = (Inr cl, c')" using control.get_ok by blast
  then have "hrAvailable (fst (cHealthCheck (bedrock_checker sdk) key m w))"
    using assms
    by (auto simp: bedrock_up_def bedrock_checker_def HealthCheck_def CheckModelAvailability_def
        split: prod.splits option.splits) (metis fst_conv option.distinct(1))
  moreover have "objects (snd (cHealthCheck (bedrock_checker sdk) key m w)) = objects w"
    "faults (snd (cHealthCheck (bedrock_checker sdk) key m w)) = faults w"
    by (simp_all add: bedrock_checker_def split: prod.split)
  ultimately show ?thesis using that by (metis prod.collapse)
qed

definition live_endpoint :: "NamespacedName \<Rightarrow> ModelEndpointSpec \<Rightarrow> int \<Rightarrow> 'w operator_world \<Rightarrow> bool" where
  "live_endpoint req spec gen w \<longleftrightarrow>
     (case stEndpoints (objects w) req of None \<Rightarrow> False | Some ep \<Rightarrow> declared_endpoint req spec gen ep)"

definition endpoint_settled :: "NamespacedName \<Rightarrow> 'w operator_world \<Rightarrow> bool" where
  "endpoint_settled req w \<longleftrightarrow>
     (case stEndpoints (objects w) req of None \<Rightarrow> False | Some ep \<Rightarrow> endpoint_ready ep)"

lemma operator_reconciler_sel [simp]:
  "epClient (operator_reconciler sdk ns svc) = cluster_kube"
  "epBedrock (operator_reconciler sdk ns svc) = bedrock_checker sdk"
  by (simp_all add: operator_reconciler_def)

lemma endpoint_turn_live:
  assumes up: "bedrock_up sdk" and ep: "stEndpoints (objects w) req = Some ep" "declared_endpoint req spec gen ep"
    and w'_def: "w' = endpoint_turn (operator_reconciler sdk ns svc) req w"
  shows "\<exists>ep'. stEndpoints (objects w') req = Some ep' \<and> declared_endpoint req spec gen ep'
    \<and> (endpoint_ready ep \<longrightarrow> endpoint_ready ep') \<and> (endpoint_ready ep' \<or> endpoint_rank req w' < endpoint_rank req w)"
proof -
  let ?r = "operator_reconciler sdk ns svc" and ?K = "cluster_kube :: 'a operator_world kube"
  have key: "keyOf (epMeta ep) = req" "IsZero (DeletionTimestamp (epMeta ep))"
    using ep(2) by (simp_all add: declared_endpoint_def)
  from ep(1) key(1) show ?thesis
  proof (cases rule: ep_get_live)
    case (failed e w1)
    then have "w' = w1" by (simp add: w'_def endpoint_turn_def ModelEndpoint_Reconcile_def)
    with failed ep show ?thesis by (simp add: endpoint_rank_def)
  next
    case (found w1)
    note get = found
    show ?thesis
    proof (cases "FinalizerName \<in> set (Finalizers (epMeta ep))")
      case False
      let ?ep = "ep\<lparr>epMeta := addFinalizer ?K (epMeta ep) FinalizerName\<rparr>"
      have m: "addFinalizer ?K (epMeta ep) FinalizerName = (epMeta ep)\<lparr>Finalizers := Finalizers (epMeta ep) @ [FinalizerName]\<rparr>"
        using False by (simp add: mem.add_eq)
      have "stEndpoints (objects w1) (keyOf (epMeta ?ep)) = Some ep" "epSpec ?ep = epSpec ep"
        "IsZero (DeletionTimestamp (epMeta ?ep))"
        using get(2) ep(1) key by (simp_all add: m)
      then show ?thesis
      proof (cases rule: ep_update_live)
        case (written w2)
        then have "w' = w2" using get key False
          by (simp add: w'_def endpoint_turn_def ModelEndpoint_Reconcile_def Let_def)
        with get written ep False show ?thesis
          by (simp add: m key declared_endpoint_def endpoint_rank_def endpoint_ready_def service_name_def)
      next
        case (failed e w2)
        then have "w' = w2" using get key False
          by (simp add: w'_def endpoint_turn_def ModelEndpoint_Reconcile_def Let_def)
        with get failed ep show ?thesis by (simp add: endpoint_rank_def)
      qed
    next
      case True
      obtain h w2 where h: "cHealthCheck (bedrock_checker sdk) (endpoint_key ep) (ModelId (epSpec ep)) w1 = (h, w2)"
        "hrAvailable h" "objects w2 = objects w1" "faults w2 = faults w1" by (rule checker_up [OF up])
      show ?thesis
      proof (cases sdk ns svc ep w2 rule: mem_service_live)
        case (failed e w3)
        then have "w' = w3" using get h key True
          by (simp add: w'_def endpoint_turn_def ModelEndpoint_Reconcile_def Let_def)
        with get h failed ep show ?thesis by (simp add: endpoint_rank_def)
      next
        case (written w3)
        let ?st = "endpoint_status ep h (service_name ep) (clock w3) (clock w3 + 1)"
        let ?ep = "ep\<lparr>epStatus := ?st\<rparr>" and ?w5 = "w3\<lparr>clock := clock w3 + 1 + 1\<rparr>"
        have run: "w' = snd (rPatchStatus (epAPI ?K) ep ?ep ?w5)"
          using get h written key True
          by (simp add: w'_def endpoint_turn_def ModelEndpoint_Reconcile_def Let_def
              split: prod.split option.split)
        have "stEndpoints (objects ?w5) (keyOf (epMeta ?ep)) = Some ep"
          using written h get ep(1) key by simp
        then show ?thesis
        proof (cases rule: ep_patch_live [where base = ep])
          case (written w6)
          then show ?thesis using run key ep(2) endpoint_status_ready [OF h(2)]
            by (simp add: declared_endpoint_def)
        next
          case (failed e w6)
          then show ?thesis using run get h written ep by (simp add: endpoint_rank_def)
        qed
      qed
    qed
  qed
qed

interpretation endpoint_loop: converging "endpoint_turn (operator_reconciler sdk ns svc) req"
    "\<lambda>w. bedrock_up sdk \<and> live_endpoint req spec gen w" "endpoint_settled req" "endpoint_rank req"
  for sdk :: "'w aws" and ns svc req spec gen
proof unfold_locales
  fix w :: "'w operator_world"
  let ?w' = "endpoint_turn (operator_reconciler sdk ns svc) req w"
  assume inv: "bedrock_up sdk \<and> live_endpoint req spec gen w"
  then obtain ep where "stEndpoints (objects w) req = Some ep" "declared_endpoint req spec gen ep"
    by (auto simp: live_endpoint_def split: option.splits)
  with endpoint_turn_live [of sdk w req ep spec gen ?w' ns svc] inv obtain ep' where
    ep': "stEndpoints (objects w) req = Some ep" "stEndpoints (objects ?w') req = Some ep'"
      "declared_endpoint req spec gen ep'" "endpoint_ready ep \<longrightarrow> endpoint_ready ep'"
      "endpoint_ready ep' \<or> endpoint_rank req ?w' < endpoint_rank req w" by blast
  then show "bedrock_up sdk \<and> live_endpoint req spec gen ?w'"
    and "endpoint_settled req ?w' \<or> endpoint_rank req ?w' < endpoint_rank req w"
    and "endpoint_settled req w \<Longrightarrow> endpoint_settled req ?w'"
    using inv by (auto simp: live_endpoint_def endpoint_settled_def)
qed (simp add: endpoint_rank_def)

subsection \<open>A concrete operator\<close>

definition demo_endpoint :: "string list \<Rightarrow> time option \<Rightarrow> ModelEndpoint" where
  "demo_endpoint fs del =
     \<lparr>epMeta = \<lparr>Name = ''haiku'', Namespace = ''team-a'', Generation = 2, DeletionTimestamp = del, Finalizers = fs\<rparr>,
      epSpec = \<lparr>ModelId = ''anthropic.claude-3-haiku-20240307-v1:0'', Region = ''eu-west-1'',
        IRSARoleArn = ''arn:aws:iam::123456789012:role/bedrock'', epMaxTokens = Some 512, CostBudget = None,
        RateLimit = None, GuardrailPolicyRef = None\<rparr>,
      epStatus = \<lparr>Available = False, epConditions = [], CostThisMonth = [], CostToday = [],
        InvocationsToday = 0, TotalInputTokens = 0, TotalOutputTokens = 0, ServiceName = [],
        epObservedGeneration = 0\<rparr>\<rparr>"

definition demo_req :: NamespacedName where
  "demo_req = \<lparr>nnNamespace = ''team-a'', nnName = ''haiku''\<rparr>"

definition demo_world :: "ModelEndpoint \<Rightarrow> go_error option list \<Rightarrow> nat operator_world" where
  "demo_world ep fs =
     \<lparr>objects = \<lparr>stEndpoints = [demo_req \<mapsto> ep], stTemplates = Map.empty, stPolicies = Map.empty,
        stServices = Map.empty\<rparr>,
      clock = 100, faults = fs, bedrockClient = sample_client, awsWorld = 0\<rparr>"

definition demo_operator :: "nat operator_world ModelEndpointReconciler" where
  "demo_operator = operator_reconciler sample_aws ''ai-system'' ''k8s-ai-operator''"

lemmas demo_defs = demo_endpoint_def demo_req_def demo_world_def keyOf_def IsZero_def FinalizerName_def

lemma demo_env: "endpoint_env (epClient demo_operator) objects (epBedrock demo_operator) has_client"
  by (simp add: demo_operator_def memory.endpoint_env_axioms)

lemma demo_up: "bedrock_up sample_aws"
  by (simp add: bedrock_up_def sample_aws_def)

lemmas demo_run_defs = ModelEndpoint_Reconcile_def operator_reconciler_def demo_defs
  mem_get_def next_fault_def bedrock_checker_def HealthCheck_def CheckModelAvailability_def controlTab_get
  sample_client_def sample_aws_def reconcileService_def mem_set_owner_def desired_service_def
  mem_create_or_update_def mem_patch_def handleDeletion_def mem_update_def Let_def endpoint_key_def

lemma demo_synced_run:
  "fst (ModelEndpoint_Reconcile demo_operator demo_req (demo_world (demo_endpoint [FinalizerName] None) []))
     = (zero_result\<lparr>RequeueAfter := requeueSteadyState\<rparr>, None)"
  by (simp add: demo_operator_def demo_run_defs)

lemma demo_deletion_run:
  "fst (ModelEndpoint_Reconcile demo_operator demo_req (demo_world (demo_endpoint [FinalizerName] (Some 7)) []))
     = (zero_result, None)"
  by (simp add: demo_operator_def cluster_kube_def demo_run_defs)

subsection \<open>Properties\<close>

text \<open>C2: a reconciliation of a live endpoint that returns no error stores the verdict of the health
  check: availability, service name, observed generation and both conditions with the check's reason
  and message; every other condition, the spec, the metadata and all other endpoints stay as they
  were; the proxy Service exists with the ExternalName of the operator; the gauge is set to the
  verdict; and the next check comes after five minutes, or ten seconds while the model is not
  available.\<close>

theorem ModelEndpoint_Reconcile_publishes:
  assumes "endpoint_env (epClient r) store (epBedrock r) cached"
    and "stEndpoints (store w) req = Some ep" "IsZero (DeletionTimestamp (epMeta ep))"
      "FinalizerName \<in> set (Finalizers (epMeta ep))"
    and "ModelEndpoint_Reconcile r req w = ((res, None), ops, w')"
  shows "\<exists>h st s. h = fst (cHealthCheck (epBedrock r) \<lparr>RoleArn = IRSARoleArn (epSpec ep), ekRegion = Region (epSpec ep)\<rparr>
        (ModelId (epSpec ep)) (snd (rGet (epAPI (epClient r)) req w)))
    \<and> stEndpoints (store w') = (stEndpoints (store w))(req \<mapsto> ep\<lparr>epStatus := st\<rparr>)
    \<and> Available st = hrAvailable h \<and> ServiceName st = ''model-'' @ Name (epMeta ep)
    \<and> epObservedGeneration st = Generation (epMeta ep)
    \<and> (\<forall>ty \<in> {ConditionBedrockReachable, ConditionReady}. \<exists>c. condition_of ty (epConditions st) = Some c
        \<and> cStatus c = (if hrAvailable h then ConditionTrue else ConditionFalse)
        \<and> cReason c = hrReason h \<and> cMessage c = hrMessage h)
    \<and> (\<forall>ty. ty \<in> {ConditionBedrockReachable, ConditionReady}
        \<or> condition_of ty (epConditions st) = condition_of ty (epConditions (epStatus ep)))
    \<and> (distinct (map cType (epConditions (epStatus ep))) \<longrightarrow> distinct (map cType (epConditions st)))
    \<and> stServices (store w') \<lparr>nnNamespace = Namespace (epMeta ep), nnName = ''model-'' @ Name (epMeta ep)\<rparr> = Some s
    \<and> ssType (svcSpec s) = ''ExternalName''
    \<and> ExternalName (svcSpec s) = ProxyServiceName r @ ''.'' @ ProxyNamespace r @ ''.svc.cluster.local''
    \<and> \<not> Requeue res \<and> RequeueAfter res = (if hrAvailable h then 300 * 10 ^ 9 else 10 * 10 ^ 9)
    \<and> ops = [MSet EndpointAvailable [Namespace (epMeta ep), Name (epMeta ep), ModelId (epSpec ep)]
               (if hrAvailable h then 1 else 0)]"
proof -
  obtain h t1 t2 s where post:
    "h = fst (cHealthCheck (epBedrock r) (endpoint_key ep) (ModelId (epSpec ep)) (snd (rGet (epAPI (epClient r)) req w)))"
    "stEndpoints (store w') =
        (stEndpoints (store w))(req \<mapsto> ep\<lparr>epStatus := endpoint_status ep h (service_name ep) t1 t2\<rparr>)"
    "stServices (store w') \<lparr>nnNamespace = Namespace (epMeta ep), nnName = service_name ep\<rparr> = Some s"
    "svcSpec s = proxy_service_spec r"
    "res = zero_result\<lparr>RequeueAfter := (if hrAvailable h then requeueSteadyState else requeueTransient)\<rparr>"
    "ops = [MSet EndpointAvailable [Namespace (epMeta ep), Name (epMeta ep), ModelId (epSpec ep)] (available_value h)]"
    using endpoint_env.synced_state [OF assms(1,5) refl refl assms(2-4)] by blast
  have other: "\<forall>ty. ty \<in> {ConditionBedrockReachable, ConditionReady}
      \<or> condition_of ty (epConditions (endpoint_status ep h (service_name ep) t1 t2))
        = condition_of ty (epConditions (epStatus ep))"
    using endpoint_status_other by blast
  show ?thesis
    by (intro exI [of _ h] exI [of _ "endpoint_status ep h (service_name ep) t1 t2"] exI [of _ s] conjI)
      (use post other in \<open>simp_all add: endpoint_status_distinct
          endpoint_status_condition [unfolded conditionStatus_def]
          endpoint_key_def service_name_def proxy_service_spec_def requeue_defs available_value_def\<close>)
qed

theorem ModelEndpoint_Reconcile_publishes_witness:
  "\<exists>w' st. snd (snd (ModelEndpoint_Reconcile demo_operator demo_req
        (demo_world (demo_endpoint [FinalizerName] None) []))) = w'
    \<and> stEndpoints (objects w') demo_req = Some ((demo_endpoint [FinalizerName] None)\<lparr>epStatus := st\<rparr>)
    \<and> ServiceName st = ''model-haiku'' \<and> epObservedGeneration st = 2
    \<and> (\<exists>s. stServices (objects w') \<lparr>nnNamespace = ''team-a'', nnName = ''model-haiku''\<rparr> = Some s
        \<and> ExternalName (svcSpec s) = ''k8s-ai-operator.ai-system.svc.cluster.local'')"
proof -
  let ?w = "demo_world (demo_endpoint [FinalizerName] None) []"
  obtain ops w' where run: "ModelEndpoint_Reconcile demo_operator demo_req ?w =
      ((zero_result\<lparr>RequeueAfter := requeueSteadyState\<rparr>, None), ops, w')"
    using demo_synced_run by (metis prod.collapse)
  have "stEndpoints (objects ?w) demo_req = Some (demo_endpoint [FinalizerName] None)"
    "IsZero (DeletionTimestamp (epMeta (demo_endpoint [FinalizerName] None)))"
    "FinalizerName \<in> set (Finalizers (epMeta (demo_endpoint [FinalizerName] None)))"
    by (simp_all add: demo_defs)
  from ModelEndpoint_Reconcile_publishes [OF demo_env this run] run show ?thesis
    by (auto simp: demo_operator_def operator_reconciler_def demo_endpoint_def)
qed

text \<open>C16: before an endpoint carries the operator's finalizer, a reconciliation does nothing but add
  it: no metric, no Service and no SDK client changes, the outcome is the same whatever the health
  checker would say, and after a successful write the stored endpoint differs only in the finalizer
  and is queued again.\<close>

theorem ModelEndpoint_Reconcile_finalizer_first:
  assumes "endpoint_env (epClient r) store (epBedrock r) cached"
    and "stEndpoints (store w) req = Some ep" "IsZero (DeletionTimestamp (epMeta ep))"
      "FinalizerName \<notin> set (Finalizers (epMeta ep))"
    and "ModelEndpoint_Reconcile r req w = ((res, err), ops, w')"
  shows "ops = [] \<and> stServices (store w') = stServices (store w) \<and> cached w' = cached w
    \<and> ModelEndpoint_Reconcile (r\<lparr>epBedrock := C'\<rparr>) req w = ((res, err), ops, w')
    \<and> (err = None \<longrightarrow> Requeue res \<and> stEndpoints (store w') = (stEndpoints (store w))(req \<mapsto>
         ep\<lparr>epMeta := (epMeta ep)\<lparr>Finalizers := Finalizers (epMeta ep) @ [FinalizerName]\<rparr>\<rparr>))"
proof -
  have "ModelEndpoint_Reconcile (r\<lparr>epBedrock := C'\<rparr>) req w = ModelEndpoint_Reconcile r req w"
    using endpoint_env.reconcile_unchecked [OF assms(1) refl assms(2-4)] .
  then show ?thesis using endpoint_env.adding_state [OF assms(1) refl assms(2-5)] assms(5) by simp
qed

theorem ModelEndpoint_Reconcile_finalizer_first_witness:
  "\<exists>w'. snd (snd (ModelEndpoint_Reconcile demo_operator demo_req (demo_world (demo_endpoint [] None) []))) = w'
    \<and> stEndpoints (objects w') demo_req = Some (demo_endpoint [FinalizerName] None)
    \<and> stServices (objects w') = Map.empty"
proof -
  let ?w = "demo_world (demo_endpoint [] None) []"
  obtain res ops w' where run: "ModelEndpoint_Reconcile demo_operator demo_req ?w = ((res, None), ops, w')"
    by (simp add: ModelEndpoint_Reconcile_def demo_operator_def operator_reconciler_def demo_defs
        cluster_kube_def mem_get_def mem_update_def next_fault_def Let_def)
  have "stEndpoints (objects ?w) demo_req = Some (demo_endpoint [] None)"
    "IsZero (DeletionTimestamp (epMeta (demo_endpoint [] None)))"
    "FinalizerName \<notin> set (Finalizers (epMeta (demo_endpoint [] None)))"
    by (simp_all add: demo_defs)
  from ModelEndpoint_Reconcile_finalizer_first [OF demo_env this run] run show ?thesis
    by (simp add: demo_endpoint_def demo_world_def)
qed

text \<open>C21: a reconciliation of an endpoint that is being deleted and returns no error evicts the SDK
  clients of its role and region, and no others, deletes its gauge series, takes the operator's
  finalizer off, so that the endpoint is gone when that was the last one, and is not queued again.\<close>

theorem ModelEndpoint_Reconcile_deletion:
  assumes "endpoint_env (epClient r) store (epBedrock r) cached"
    and "stEndpoints (store w) req = Some ep" "\<not> IsZero (DeletionTimestamp (epMeta ep))"
      "FinalizerName \<in> set (Finalizers (epMeta ep))"
    and "ModelEndpoint_Reconcile r req w = ((res, None), ops, w')"
  shows "cached w' = (cached w)(\<lparr>RoleArn = IRSARoleArn (epSpec ep), ekRegion = Region (epSpec ep)\<rparr> := False)
    \<and> ops = [MDelete EndpointAvailable [Namespace (epMeta ep), Name (epMeta ep), ModelId (epSpec ep)]]
    \<and> (if set (Finalizers (epMeta ep)) = {FinalizerName} then stEndpoints (store w') req = None
       else \<exists>ep'. stEndpoints (store w') req = Some ep'
         \<and> Finalizers (epMeta ep') = filter (\<lambda>f. f \<noteq> FinalizerName) (Finalizers (epMeta ep))
         \<and> epSpec ep' = epSpec ep \<and> epStatus ep' = epStatus ep)
    \<and> (\<forall>k. k = req \<or> stEndpoints (store w') k = stEndpoints (store w) k)
    \<and> \<not> runs_again (res, None)"
proof -
  have "set (Finalizers (epMeta ep)) \<subseteq> {FinalizerName} \<longleftrightarrow> set (Finalizers (epMeta ep)) = {FinalizerName}"
    using assms(4) by auto
  then show ?thesis
    using endpoint_env.deleted_state [OF assms(1,5) refl refl assms(2-4)]
      finalizer_api.remove_eq [OF kube_api.axioms(1) [OF endpoint_calls.axioms(1) [OF endpoint_env.axioms(1) [OF assms(1)]]]]
    by (simp add: endpoint_key_def runs_again_def zero_result_def)
qed

theorem ModelEndpoint_Reconcile_deletion_witness:
  "stEndpoints (objects (snd (snd (ModelEndpoint_Reconcile demo_operator demo_req
      (demo_world (demo_endpoint [FinalizerName] (Some 7)) []))))) demo_req = None"
proof -
  let ?ep = "demo_endpoint [FinalizerName] (Some 7)"
  let ?w = "demo_world ?ep []"
  obtain ops w' where run: "ModelEndpoint_Reconcile demo_operator demo_req ?w = ((zero_result, None), ops, w')"
    using demo_deletion_run by (metis prod.collapse)
  have "stEndpoints (objects ?w) demo_req = Some ?ep" "\<not> IsZero (DeletionTimestamp (epMeta ?ep))"
    "FinalizerName \<in> set (Finalizers (epMeta ?ep))" "set (Finalizers (epMeta ?ep)) = {FinalizerName}"
    by (simp_all add: demo_defs)
  from ModelEndpoint_Reconcile_deletion [OF demo_env this(1-3) run] this(4) run show ?thesis by simp
qed

text \<open>An endpoint that is not being deleted never falls out of the work queue: whatever fails,
  the reconciliation returns an error or asks to be run again; and no metric call it makes can
  panic.\<close>

theorem ModelEndpoint_Reconcile_never_dropped:
  assumes "endpoint_env (epClient r) store (epBedrock r) cached"
    and "stEndpoints (store w) req = Some ep" "IsZero (DeletionTimestamp (epMeta ep))"
    and "ModelEndpoint_Reconcile r req w = ((res, err), ops, w')"
  shows "(err \<noteq> None \<or> Requeue res \<or> RequeueAfter res > 0) \<and> list_all metric_op_ok ops"
  using endpoint_env.live_runs_again [OF assms(1) refl assms(2,3)] assms(4)
    ModelEndpoint_Reconcile_metrics [of r req w]
  by (auto simp: runs_again_def)

theorem ModelEndpoint_Reconcile_never_dropped_witness:
  "(\<lambda>((res, err), ops, w'). err \<noteq> None \<or> Requeue res \<or> RequeueAfter res > 0)
     (ModelEndpoint_Reconcile demo_operator demo_req
       (demo_world (demo_endpoint [FinalizerName] None) [None, Some (ErrMsg ''conflict'')]))"
proof -
  let ?ep = "demo_endpoint [FinalizerName] None"
  let ?w = "demo_world ?ep [None, Some (ErrMsg ''conflict'')]"
  have "stEndpoints (objects ?w) demo_req = Some ?ep" "IsZero (DeletionTimestamp (epMeta ?ep))"
    by (simp_all add: demo_defs)
  moreover obtain res err ops w' where run: "ModelEndpoint_Reconcile demo_operator demo_req ?w = ((res, err), ops, w')"
    by (metis prod.collapse)
  ultimately have "err \<noteq> None \<or> Requeue res \<or> RequeueAfter res > 0"
    using ModelEndpoint_Reconcile_never_dropped [OF demo_env _ _ run] by blast
  then show ?thesis by (simp only: run prod.case)
qed

text \<open>An endpoint becomes ready in spite of transient failures: if n calls of the API server are
  made to fail or not in any order while Bedrock offers the model, n + 2 turns of the work queue leave
  the endpoint available, with its Service name, observed generation and a true Ready condition, and
  so does every larger number of turns.\<close>

theorem ModelEndpoint_Reconcile_converges:
  assumes "bedrock_up sdk"
    and "stEndpoints (objects w) req = Some ep" "keyOf (epMeta ep) = req" "IsZero (DeletionTimestamp (epMeta ep))"
    and "length (faults w) + 2 \<le> n"
    and "w' = ((\<lambda>v. snd (snd (ModelEndpoint_Reconcile (operator_reconciler sdk ns svc) req v))) ^^ n) w"
  shows "\<exists>ep'. stEndpoints (objects w') req = Some ep' \<and> epSpec ep' = epSpec ep
    \<and> Available (epStatus ep') \<and> ServiceName (epStatus ep') = ''model-'' @ Name (epMeta ep')
    \<and> epObservedGeneration (epStatus ep') = Generation (epMeta ep)
    \<and> (\<exists>c. condition_of ConditionReady (epConditions (epStatus ep')) = Some c \<and> cStatus c = ConditionTrue)"
proof -
  let ?run = "endpoint_turn (operator_reconciler sdk ns svc) req"
  have run: "?run = (\<lambda>v. snd (snd (ModelEndpoint_Reconcile (operator_reconciler sdk ns svc) req v)))"
    by (simp add: endpoint_turn_def fun_eq_iff)
  have inv: "bedrock_up sdk \<and> live_endpoint req (epSpec ep) (Generation (epMeta ep)) w"
    using assms(1-4) by (simp add: live_endpoint_def declared_endpoint_def)
  have rank: "endpoint_rank req w \<le> n" using assms(2,5) by (simp add: endpoint_rank_def)
  have w': "w' = (?run ^^ n) w" unfolding run by (rule assms(6))
  have "endpoint_settled req w'" "live_endpoint req (epSpec ep) (Generation (epMeta ep)) w'"
    unfolding w' using endpoint_loop.converges [OF inv rank] endpoint_loop.inv_runs [OF inv] by blast+
  then show ?thesis
    by (auto simp: endpoint_settled_def live_endpoint_def declared_endpoint_def endpoint_ready_def
        service_name_def split: option.splits)
qed

theorem ModelEndpoint_Reconcile_converges_witness:
  "\<exists>ep'. stEndpoints (objects (((\<lambda>v. snd (snd (ModelEndpoint_Reconcile demo_operator demo_req v))) ^^ 4)
      (demo_world (demo_endpoint [] None) [None, Some (ErrMsg ''conflict'')]))) demo_req = Some ep'
    \<and> Available (epStatus ep')"
proof -
  have "stEndpoints (objects (demo_world (demo_endpoint [] None) [None, Some (ErrMsg ''conflict'')])) demo_req
      = Some (demo_endpoint [] None)"
    "keyOf (epMeta (demo_endpoint [] None)) = demo_req"
    "IsZero (DeletionTimestamp (epMeta (demo_endpoint [] None)))"
    "length (faults (demo_world (demo_endpoint [] None) [None, Some (ErrMsg ''conflict'')])) + 2 \<le> 4"
    by (simp_all add: demo_defs)
  from ModelEndpoint_Reconcile_converges [OF demo_up this refl] show ?thesis
    unfolding demo_operator_def by blast
qed

text \<open>A successful reconcileService leaves one Service changed, that of the endpoint, pointing at
  the operator. A new Service carries the endpoint's labels and owner; of one that exists the labels
  and owners stay as they are, even when they name another model, since they are set outside the
  mutate function.\<close>

theorem reconcileService_state:
  assumes "endpoint_env (epClient r) store (epBedrock r) cached"
    and "reconcileService r ep w = (Inr n, w')"
  shows "n = ''model-'' @ Name (epMeta ep)
    \<and> (\<exists>s. stServices (store w') = (stServices (store w))(\<lparr>nnNamespace = Namespace (epMeta ep), nnName = n\<rparr> \<mapsto> s)
        \<and> ExternalName (svcSpec s) = ProxyServiceName r @ ''.'' @ ProxyNamespace r @ ''.svc.cluster.local''
        \<and> map spPort (Ports (svcSpec s)) = [8090]
        \<and> (case stServices (store w) \<lparr>nnNamespace = Namespace (epMeta ep), nnName = n\<rparr> of
             Some old \<Rightarrow> svcLabels s = svcLabels old \<and> svcOwners s = svcOwners old
           | None \<Rightarrow> svcLabels s ''ai.kernelpanic09.io/model-id'' = Some (sanitizeLabel (ModelId (epSpec ep)))
               \<and> (\<exists>o' \<in> set (svcOwners s). orController o' \<and> orName o' = Name (epMeta ep))))"
  using endpoint_calls.service_stored [OF endpoint_env.axioms(1) [OF assms(1)] assms(2) refl]
  by (auto simp: service_name_def proxy_service_spec_def proxyPort_def desired_service_def split: option.splits)

theorem reconcileService_state_witness:
  "(let ep = demo_endpoint [FinalizerName] None;
        old = \<lparr>svcName = ''model-haiku'', svcNamespace = ''team-a'',
               svcLabels = [''ai.kernelpanic09.io/model-id'' \<mapsto> ''amazon.nova-lite-v1_0''], svcOwners = [],
               svcSpec = zero_service_spec\<rparr>;
        w = demo_world ep [];
        w1 = w\<lparr>objects := (objects w)\<lparr>stServices := [svcKey old \<mapsto> old]\<rparr>\<rparr>
    in \<exists>s. stServices (objects (snd (reconcileService demo_operator ep w1))) (svcKey old) = Some s
         \<and> svcLabels s ''ai.kernelpanic09.io/model-id'' = Some ''amazon.nova-lite-v1_0''
         \<and> sanitizeLabel (ModelId (epSpec ep)) = ''anthropic.claude-3-haiku-20240307-v1_0'')"
proof -
  let ?ep = "demo_endpoint [FinalizerName] None"
  let ?old = "\<lparr>svcName = ''model-haiku'', svcNamespace = ''team-a'',
               svcLabels = [''ai.kernelpanic09.io/model-id'' \<mapsto> ''amazon.nova-lite-v1_0''], svcOwners = [],
               svcSpec = zero_service_spec\<rparr>"
  let ?w = "demo_world ?ep []"
  let ?w1 = "?w\<lparr>objects := (objects ?w)\<lparr>stServices := [svcKey ?old \<mapsto> ?old]\<rparr>\<rparr>"
  have label: "sanitizeLabel (ModelId (epSpec ?ep)) = ''anthropic.claude-3-haiku-20240307-v1_0''"
    by (simp add: demo_endpoint_def sanitizeLabel_def label_char_def is_alnum_def byte_in_def)
  obtain w' where run: "reconcileService demo_operator ?ep ?w1 = (Inr ''model-haiku'', w')"
    by (simp add: reconcileService_def demo_operator_def operator_reconciler_def mem_set_owner_def
        desired_service_def mem_create_or_update_def next_fault_def demo_world_def service_name_def
        demo_endpoint_def Let_def)
  have key: "svcKey ?old = \<lparr>nnNamespace = Namespace (epMeta ?ep), nnName = ''model-haiku''\<rparr>"
    by (simp add: svcKey_def demo_endpoint_def)
  from reconcileService_state [OF demo_env run] label run show ?thesis
    by (simp add: Let_def key) (auto simp: svcKey_def demo_endpoint_def)
qed

end
