(* ===== verification/Text_Template.thy ===== *)
theory Text_Template
  imports Prelude
begin

section \<open>Templates (text/template)\<close>

text \<open>
  The controller parses a template to validate it, the proxy parses and executes it over a map of
  strings. The template language is the standard library's: an engine is a record of the two calls,
  its documented behaviour, as far as the program relies on it, the locale \<open>template_engine\<close>. The
  fragment of plain text and field actions such as \<open>{{.name}}\<close> is modelled here as an engine of
  its own, on which the locale is interpreted: a template outside the fragment is a parse error.
\<close>

record engine =
  tParse :: "string \<Rightarrow> string \<Rightarrow> go_error option" \<comment> \<open>template.New(name).Parse(text)\<close>
  tExecute :: "string \<Rightarrow> (string \<rightharpoonup> string) \<Rightarrow> go_error + string" \<comment> \<open>Execute of the parsed text\<close>

definition open_delim :: string where "open_delim = ''{{''"
definition close_delim :: string where "close_delim = ''}}''"

locale template_engine =
  fixes T :: engine
  assumes parse_name: "tParse T n text = None \<longleftrightarrow> tParse T n' text = None"
    and parse_plain: "\<not> sublist open_delim text \<Longrightarrow> tParse T n text = None"
    and execute_plain: "\<not> sublist open_delim text \<Longrightarrow> tExecute T text vars = Inr text"

subsection \<open>The fragment\<close>

datatype template_node = TextNode string | FieldNode string

definition field_char :: "char \<Rightarrow> bool" where
  "field_char c \<longleftrightarrow> is_alnum c \<or> c = CHR ''_''"

text \<open>Text up to an opening delimiter; then a dot, a field name and the closing delimiter.\<close>

function parse_nodes :: "string \<Rightarrow> string \<Rightarrow> template_node list option" where
  "parse_nodes acc [] = Some [TextNode (rev acc)]"
| "parse_nodes acc (c # cs) =
     (if prefix open_delim (c # cs) then
        (case drop 1 cs of
           [] \<Rightarrow> None
         | d # rest \<Rightarrow>
             let name = takeWhile field_char rest; tl = dropWhile field_char rest in
             if d = CHR ''.'' \<and> name \<noteq> [] \<and> \<not> byte_in CHR ''0'' CHR ''9'' (hd name) \<and> prefix close_delim tl
             then map_option (\<lambda>ns. TextNode (rev acc) # FieldNode name # ns) (parse_nodes [] (drop 2 tl))
             else None)
      else parse_nodes (c # acc) cs)"
  by pat_completeness auto
termination
proof (relation "measure (\<lambda>(acc, s). length s)", goal_cases)
  case (2 acc c cs d rest name tl)
  have "length cs \<ge> length rest + 1" using 2(2) by (metis length_Cons length_drop diff_le_self Suc_eq_plus1)
  moreover have "length tl \<le> length rest" using 2(4) by (simp add: length_dropWhile_le)
  ultimately show ?case by simp
qed simp_all

definition render_node :: "(string \<rightharpoonup> string) \<Rightarrow> template_node \<Rightarrow> string" where
  "render_node vars n =
     (case n of
        TextNode s \<Rightarrow> s
      | FieldNode k \<Rightarrow> (case vars k of None \<Rightarrow> ''<no value>'' | Some s \<Rightarrow> s))"

definition field_engine :: engine where
  "field_engine =
     \<lparr>tParse = (\<lambda>n text. if parse_nodes [] text = None
        then Some (ErrMsg (''template: '' @ n @ '': unsupported action'')) else None),
      tExecute = (\<lambda>text vars.
        (case parse_nodes [] text of
           None \<Rightarrow> Inl (ErrMsg ''incomplete or empty template'')
         | Some ns \<Rightarrow> Inr (concat (map (render_node vars) ns))))\<rparr>"

lemma parse_plain_nodes: "\<not> sublist open_delim tx \<Longrightarrow> parse_nodes acc tx = Some [TextNode (rev acc @ tx)]"
proof (induction tx arbitrary: acc)
  case (Cons c cs)
  then have "\<not> prefix open_delim (c # cs)" "\<not> sublist open_delim cs"
    by (auto simp: sublist_Cons_right)
  with Cons.IH show ?case by (simp del: prefix_Cons)
qed simp

interpretation field: template_engine field_engine
  by unfold_locales (simp_all add: field_engine_def parse_plain_nodes render_node_def)

end
