(* ===== verification/PromptTemplate_Controller.thy ===== *)
theory PromptTemplate_Controller
  imports Reconciler Controller_Helpers Text_Template
begin

section \<open>The PromptTemplate reconciler (internal/controller/prompttemplate\_controller.go)\<close>

text \<open>
  \<open>PromptTemplate_Reconcile\<close> validates a template's syntax, looks up the endpoint it names in its
  own namespace, and reports both as conditions. The template engine and the Kubernetes client are
  records; the call makes no metric call, so its outcome is result, error and the next world.
\<close>

record 'w PromptTemplateReconciler =
  ptClient :: "'w kube"
  ptEngine :: engine

text \<open>The verdict on the endpoint: the result of the Get on it decides readiness, reason and message.\<close>

definition endpoint_verdict :: "go_error + ModelEndpoint \<Rightarrow> bool \<times> string \<times> string" where
  "endpoint_verdict got =
     (case got of
        Inl err \<Rightarrow> (False, ''EndpointNotFound'', ''ModelEndpoint not found'')
      | Inr ep \<Rightarrow>
          (if Available (epStatus ep)
           then (True, ''EndpointFound'', ''ModelEndpoint '' @ go_quote (Name (epMeta ep)) @ '' is available'')
           else (False, ''EndpointUnavailable'',
                 ''ModelEndpoint '' @ go_quote (Name (epMeta ep)) @ '' exists but is not available'')))"

definition template_verdict :: "go_error option \<Rightarrow> bool \<times> string" where
  "template_verdict parsed =
     (case parsed of
        None \<Rightarrow> (True, ''template syntax is valid'')
      | Some err \<Rightarrow> (False, ''template syntax error: '' @ error_text err))"

definition template_status :: "PromptTemplate \<Rightarrow> bool \<times> string \<Rightarrow> bool \<times> string \<times> string \<Rightarrow> time \<Rightarrow> time
    \<Rightarrow> PromptTemplateStatus" where
  "template_status pt tv ev now1 now2 =
     (let (templateValid, templateMsg) = tv; (endpointReady, endpointReason, endpointMsg) = ev;
          st = (ptStatus pt)\<lparr>ptObservedGeneration := Generation (ptMeta pt)\<rparr>;
          cs1 = setCondition (ptConditions st)
            \<lparr>cType = ''TemplateValid'', cStatus = conditionStatus templateValid, cReason = ''ParseCheck'',
             cMessage = templateMsg, LastTransitionTime = now1\<rparr>;
          cs2 = setCondition cs1
            \<lparr>cType = ConditionReady, cStatus = conditionStatus (templateValid \<and> endpointReady),
             cReason = endpointReason, cMessage = endpointMsg, LastTransitionTime = now2\<rparr>
      in st\<lparr>ptConditions := cs2\<rparr>)"

definition referenced_endpoint :: "NamespacedName \<Rightarrow> PromptTemplate \<Rightarrow> NamespacedName" where
  "referenced_endpoint req pt =
     \<lparr>nnNamespace = nnNamespace req, nnName = refName (ptModelEndpointRef (ptSpec pt))\<rparr>"

text \<open>The end of the function: the two conditions, the patch, the requeue interval.\<close>

definition template_finish :: "'w PromptTemplateReconciler \<Rightarrow> PromptTemplate \<Rightarrow> bool \<times> string
    \<Rightarrow> bool \<times> string \<times> string \<Rightarrow> 'w \<Rightarrow> (Result \<times> go_error option) \<times> 'w" where
  "template_finish r pt tv ev w =
     (let K = ptClient r; (now1, w1) = metaNow K w; (now2, w2) = metaNow K w1;
          pt' = pt\<lparr>ptStatus := template_status pt tv ev now1 now2\<rparr>
      in case rPatchStatus (ptAPI K) pt pt' w2 of
           (Some err, w3) \<Rightarrow> ((zero_result, Some (Wrapf ''patching status'' err)), w3)
         | (None, w3) \<Rightarrow>
             ((zero_result\<lparr>RequeueAfter := (if \<not> fst ev then requeueTransient else requeueSteadyState)\<rparr>, None), w3))"

definition PromptTemplate_Reconcile :: "'w PromptTemplateReconciler \<Rightarrow> NamespacedName \<Rightarrow> 'w
    \<Rightarrow> (Result \<times> go_error option) \<times> 'w" where
  "PromptTemplate_Reconcile r req w =
     (let K = ptClient r in
      case rGet (ptAPI K) req w of
        (Inl err, w1) \<Rightarrow>
          (if IsNotFound err then ((zero_result, None), w1)
           else ((zero_result, Some (Wrapf ''fetching PromptTemplate'' err)), w1))
      | (Inr pt, w1) \<Rightarrow>
          if \<not> IsZero (DeletionTimestamp (ptMeta pt)) then
            (if containsFinalizer K (ptMeta pt) FinalizerName then
               (case rUpdate (ptAPI K) (pt\<lparr>ptMeta := removeFinalizer K (ptMeta pt) FinalizerName\<rparr>) w1 of
                  (Some err, w2) \<Rightarrow> ((zero_result, Some (Wrapf ''removing finalizer'' err)), w2)
                | (None, w2) \<Rightarrow> ((zero_result, None), w2))
             else ((zero_result, None), w1))
          else if \<not> containsFinalizer K (ptMeta pt) FinalizerName then
            (case rUpdate (ptAPI K) (pt\<lparr>ptMeta := addFinalizer K (ptMeta pt) FinalizerName\<rparr>) w1 of
               (Some err, w2) \<Rightarrow> ((zero_result, Some (Wrapf ''adding finalizer'' err)), w2)
             | (None, w2) \<Rightarrow> ((zero_result\<lparr>Requeue := True\<rparr>, None), w2))
          else
            (let tv = template_verdict (tParse (ptEngine r) ''validate'' (Template (ptSpec pt)));
                 (got, w2) = rGet (epAPI K) (referenced_endpoint req pt) w1
             in case got of
                  Inl err \<Rightarrow>
                    (if \<not> IsNotFound err
                     then ((zero_result, Some (Wrapf ''fetching referenced ModelEndpoint'' err)), w2)
                     else template_finish r pt tv (endpoint_verdict got) w2)
                | Inr ep \<Rightarrow> template_finish r pt tv (endpoint_verdict got) w2))"

subsection \<open>The patched status\<close>

lemma template_status_fields [simp]:
  "ptObservedGeneration (template_status pt tv ev t1 t2) = Generation (ptMeta pt)"
  "RenderCount (template_status pt tv ev t1 t2) = RenderCount (ptStatus pt)"
  by (simp_all add: template_status_def Let_def split: prod.split)

lemma template_status_conditions:
  "\<exists>v d. condition_of ''TemplateValid'' (ptConditions (template_status pt tv ev t1 t2)) = Some v
     \<and> cStatus v = conditionStatus (fst tv) \<and> cMessage v = snd tv
     \<and> condition_of ConditionReady (ptConditions (template_status pt tv ev t1 t2)) = Some d
     \<and> cStatus d = conditionStatus (fst tv \<and> fst ev) \<and> cReason d = fst (snd ev) \<and> cMessage d = snd (snd ev)"
proof -
  obtain ok msg ready reason emsg where v: "tv = (ok, msg)" "ev = (ready, reason, emsg)"
    by (metis prod.collapse)
  let ?cs = "ptConditions (ptStatus pt)"
  let ?a = "\<lparr>cType = ''TemplateValid'', cStatus = conditionStatus ok, cReason = ''ParseCheck'',
             cMessage = msg, LastTransitionTime = t1\<rparr>"
  let ?b = "\<lparr>cType = ConditionReady, cStatus = conditionStatus (ok \<and> ready), cReason = reason,
             cMessage = emsg, LastTransitionTime = t2\<rparr>"
  have cs: "ptConditions (template_status pt (ok, msg) (ready, reason, emsg) t1 t2)
      = setCondition (setCondition ?cs ?a) ?b"
    by (simp add: template_status_def Let_def)
  have "''TemplateValid'' \<noteq> ConditionReady" by (simp add: condition_types)
  then show ?thesis
    unfolding v cs using conds.put_same [of ?b "setCondition ?cs ?a"] conds.put_same [of ?a ?cs]
      conds.put_other [of "''TemplateValid''" ?b "setCondition ?cs ?a"]
    by simp
qed

lemma template_status_other:
  "ty \<notin> {''TemplateValid'', ConditionReady} \<Longrightarrow>
   condition_of ty (ptConditions (template_status pt tv ev t1 t2)) = condition_of ty (ptConditions (ptStatus pt))"
  by (simp add: template_status_def Let_def conds.put_other split: prod.split)

text \<open>What the two conditions say of the template and of the endpoint it names.\<close>

definition template_reported :: "engine \<Rightarrow> ModelEndpoint option \<Rightarrow> PromptTemplate \<Rightarrow> bool" where
  "template_reported T ep pt \<longleftrightarrow>
     ptObservedGeneration (ptStatus pt) = Generation (ptMeta pt)
     \<and> (\<exists>v d. condition_of ''TemplateValid'' (ptConditions (ptStatus pt)) = Some v
        \<and> (cStatus v = ConditionTrue \<longleftrightarrow> tParse T ''validate'' (Template (ptSpec pt)) = None)
        \<and> condition_of ConditionReady (ptConditions (ptStatus pt)) = Some d
        \<and> (cStatus d = ConditionTrue \<longleftrightarrow> tParse T ''validate'' (Template (ptSpec pt)) = None
            \<and> (case ep of None \<Rightarrow> False | Some e \<Rightarrow> Available (epStatus e)))
        \<and> cReason d = (case ep of None \<Rightarrow> ''EndpointNotFound''
            | Some e \<Rightarrow> if Available (epStatus e) then ''EndpointFound'' else ''EndpointUnavailable''))"

lemma template_status_reported:
  assumes "case got of Inl err \<Rightarrow> ep = None | Inr e \<Rightarrow> ep = Some e"
  shows "template_reported T ep (pt\<lparr>ptStatus := template_status pt
      (template_verdict (tParse T ''validate'' (Template (ptSpec pt)))) (endpoint_verdict got) t1 t2\<rparr>)"
  using assms template_status_conditions [of pt "template_verdict (tParse T ''validate'' (Template (ptSpec pt)))"
      "endpoint_verdict got" t1 t2]
  by (auto simp: template_reported_def template_verdict_def endpoint_verdict_def conditionStatus_def
      split: sum.splits option.splits if_splits)

subsection \<open>What a successful call leaves behind\<close>

context kube_api begin

lemma template_synced:
  assumes run: "PromptTemplate_Reconcile r req w = ((res, None), w')" and r: "ptClient r = K"
    and pt: "stTemplates (store w) req = Some pt" "IsZero (DeletionTimestamp (ptMeta pt))"
      "FinalizerName \<in> set (Finalizers (ptMeta pt))"
  shows "\<exists>got t1 t2. (case got of Inl err \<Rightarrow> stEndpoints (store w) (referenced_endpoint req pt) = None
        | Inr e \<Rightarrow> stEndpoints (store w) (referenced_endpoint req pt) = Some e)
    \<and> stTemplates (store w') = (stTemplates (store w))(req \<mapsto> pt\<lparr>ptStatus := template_status pt
          (template_verdict (tParse (ptEngine r) ''validate'' (Template (ptSpec pt)))) (endpoint_verdict got) t1 t2\<rparr>)
    \<and> res = zero_result\<lparr>RequeueAfter := (if \<not> fst (endpoint_verdict got) then requeueTransient else requeueSteadyState)\<rparr>"
proof -
  obtain g w1 where get: "rGet (ptAPI K) req w = (g, w1)" by fastforce
  have "\<exists>pt'. g = Inr pt'"
    using run r get pt(1) pt.get_missing [of req w _ w1]
    by (cases g) (auto simp: PromptTemplate_Reconcile_def split: if_splits)
  then have g: "g = Inr pt" and key: "keyOf (ptMeta pt) = req" and w1: "store w1 = store w"
    using get pt(1) pt.get_found [of req w _ w1] get_frame(2) [of req w] by auto
  obtain got w2 where ep: "rGet (epAPI K) (referenced_endpoint req pt) w1 = (got, w2)" by fastforce
  have w2: "store w2 = store w" using get_frame(1) [of "referenced_endpoint req pt" w1] ep w1 by simp
  let ?tv = "template_verdict (tParse (ptEngine r) ''validate'' (Template (ptSpec pt)))"
  have fin: "template_finish r pt ?tv (endpoint_verdict got) w2 = ((res, None), w')"
    and ok: "case got of Inl err \<Rightarrow> IsNotFound err | Inr e \<Rightarrow> True"
    using run r get g ep pt(2,3)
    by (auto simp: PromptTemplate_Reconcile_def Let_def contains_iff split: sum.splits if_splits)
  have got: "case got of Inl err \<Rightarrow> stEndpoints (store w) (referenced_endpoint req pt) = None
      | Inr e \<Rightarrow> stEndpoints (store w) (referenced_endpoint req pt) = Some e"
    using ok ep ep.get_missing [of "referenced_endpoint req pt" w1 _ w2]
      ep.get_found [of "referenced_endpoint req pt" w1 _ w2] w1 by (auto split: sum.splits)
  obtain t1 w3 t2 w4 where t: "metaNow K w2 = (t1, w3)" "metaNow K w3 = (t2, w4)" by fastforce
  have w4: "store w4 = store w" using now_frame [of w2] now_frame [of w3] t w2 by simp
  let ?st = "template_status pt ?tv (endpoint_verdict got) t1 t2"
  have p: "rPatchStatus (ptAPI K) pt (pt\<lparr>ptStatus := ?st\<rparr>) w4 = (None, w')"
    and res: "res = zero_result\<lparr>RequeueAfter := (if \<not> fst (endpoint_verdict got) then requeueTransient else requeueSteadyState)\<rparr>"
    using fin t r by (auto simp: template_finish_def Let_def split: prod.splits option.splits)
  have "stTemplates (store w') = (stTemplates (store w))(req \<mapsto> pt\<lparr>ptStatus := ?st\<rparr>)"
    using pt.patch_ok [OF p, of pt] w4 pt(1) key by simp
  then show ?thesis using got res by blast
qed

end

subsection \<open>Convergence over a faulty API server\<close>

definition template_reconciler :: "engine \<Rightarrow> 'z cluster_scheme PromptTemplateReconciler" where
  "template_reconciler T = \<lparr>ptClient = cluster_kube, ptEngine = T\<rparr>"

definition template_turn :: "engine \<Rightarrow> NamespacedName \<Rightarrow> 'z cluster_scheme \<Rightarrow> 'z cluster_scheme" where
  "template_turn T req w = snd (PromptTemplate_Reconcile (template_reconciler T) req w)"

definition declared_template :: "NamespacedName \<Rightarrow> PromptTemplateSpec \<Rightarrow> PromptTemplate \<Rightarrow> bool" where
  "declared_template req spec pt \<longleftrightarrow> keyOf (ptMeta pt) = req \<and> ptSpec pt = spec
     \<and> IsZero (DeletionTimestamp (ptMeta pt))"

definition endpoint_keys_ok :: "Store \<Rightarrow> bool" where
  "endpoint_keys_ok s \<longleftrightarrow> (\<forall>k ep. stEndpoints s k = Some ep \<longrightarrow> keyOf (epMeta ep) = k)"

definition template_rank :: "NamespacedName \<Rightarrow> 'z cluster_scheme \<Rightarrow> nat" where
  "template_rank req w = 1 + length (faults w) +
     (case stTemplates (objects w) req of
        None \<Rightarrow> 0 | Some pt \<Rightarrow> if FinalizerName \<in> set (Finalizers (ptMeta pt)) then 0 else 1)"

definition template_settled :: "engine \<Rightarrow> NamespacedName \<Rightarrow> 'z cluster_scheme \<Rightarrow> bool" where
  "template_settled T req w \<longleftrightarrow>
     (case stTemplates (objects w) req of
        None \<Rightarrow> False
      | Some pt \<Rightarrow> template_reported T (stEndpoints (objects w) (referenced_endpoint req pt)) pt)"

definition live_template :: "NamespacedName \<Rightarrow> PromptTemplateSpec \<Rightarrow> (NamespacedName \<Rightarrow> ModelEndpoint option)
    \<Rightarrow> 'z cluster_scheme \<Rightarrow> bool" where
  "live_template req spec eps w \<longleftrightarrow> stEndpoints (objects w) = eps \<and> endpoint_keys_ok (objects w) \<and>
     (case stTemplates (objects w) req of None \<Rightarrow> False | Some pt \<Rightarrow> declared_template req spec pt)"

lemma template_reconciler_sel [simp]:
  "ptClient (template_reconciler T) = cluster_kube" "ptEngine (template_reconciler T) = T"
  by (simp_all add: template_reconciler_def)

lemma template_turn_live:
  fixes w :: "'z cluster_scheme"
  assumes pt: "stTemplates (objects w) req = Some pt" "declared_template req spec pt"
    and keys: "endpoint_keys_ok (objects w)" and w'_def: "w' = template_turn T req w"
  shows "\<exists>pt'. stTemplates (objects w') req = Some pt' \<and> declared_template req spec pt'
    \<and> stEndpoints (objects w') = stEndpoints (objects w)
    \<and> (template_settled T req w \<longrightarrow> template_settled T req w')
    \<and> (template_settled T req w' \<or> template_rank req w' < template_rank req w)"
proof -
  let ?K = "cluster_kube :: 'z cluster_scheme kube"
  note defs = template_turn_def PromptTemplate_Reconcile_def Let_def
  note goals = template_rank_def template_settled_def
  have key: "keyOf (ptMeta pt) = req" "IsZero (DeletionTimestamp (ptMeta pt))"
    using pt(2) by (simp_all add: declared_template_def)
  from pt(1) key(1) show ?thesis
  proof (cases rule: pt_get_live)
    case (failed e w1)
    then have "w' = w1" by (simp add: w'_def defs)
    with failed pt show ?thesis by (simp add: goals)
  next
    case (found w1)
    note get = found
    show ?thesis
    proof (cases "FinalizerName \<in> set (Finalizers (ptMeta pt))")
      case False
      let ?pt = "pt\<lparr>ptMeta := addFinalizer ?K (ptMeta pt) FinalizerName\<rparr>"
      have m: "addFinalizer ?K (ptMeta pt) FinalizerName
          = (ptMeta pt)\<lparr>Finalizers := Finalizers (ptMeta pt) @ [FinalizerName]\<rparr>"
        using False by (simp add: mem.add_eq)
      have "stTemplates (objects w1) (keyOf (ptMeta ?pt)) = Some pt" "ptSpec ?pt = ptSpec pt"
        "IsZero (DeletionTimestamp (ptMeta ?pt))"
        using get(2) pt(1) key by (simp_all add: m)
      then show ?thesis
      proof (cases rule: pt_update_live)
        case (written w2)
        then have "w' = w2" using get key False by (simp add: w'_def defs)
        with get written pt False show ?thesis
          by (simp add: m key declared_template_def goals template_reported_def referenced_endpoint_def)
      next
        case (failed e w2)
        then have "w' = w2" using get key False by (simp add: w'_def defs)
        with get failed pt show ?thesis by (simp add: goals)
      qed
    next
      case True
      let ?ref = "referenced_endpoint req pt" and ?tv = "template_verdict (tParse T ''validate'' (Template (ptSpec pt)))"
      have finish: ?thesis
        if w2: "objects w2 = objects w" "length (faults w2) \<le> length (faults w)"
          and got: "case got of Inl err \<Rightarrow> stEndpoints (objects w) ?ref = None | Inr e \<Rightarrow> stEndpoints (objects w) ?ref = Some e"
          and run: "w' = snd (template_finish (template_reconciler T) pt ?tv (endpoint_verdict got) w2)"
        for got w2
      proof -
        let ?st = "template_status pt ?tv (endpoint_verdict got) (clock w2) (clock w2 + 1)"
        let ?pt = "pt\<lparr>ptStatus := ?st\<rparr>" and ?w4 = "w2\<lparr>clock := clock w2 + 1 + 1\<rparr>"
        have run: "w' = snd (rPatchStatus (ptAPI ?K) pt ?pt ?w4)"
          unfolding run by (simp add: template_finish_def Let_def split: prod.split option.split)
        have "stTemplates (objects ?w4) (keyOf (ptMeta ?pt)) = Some pt" using w2 pt(1) key by simp
        then show ?thesis
        proof (cases rule: pt_patch_live [where base = pt])
          case (written w6)
          then show ?thesis using run key pt w2 template_status_reported [OF got, of T pt]
            by (simp add: declared_template_def goals referenced_endpoint_def)
        next
          case (failed e w6)
          then show ?thesis using run w2 pt by (simp add: goals)
        qed
      qed
      show ?thesis
      proof (cases "stEndpoints (objects w1) ?ref")
        case None
        then show ?thesis
        proof (cases rule: mem_get_missing [where meta = epMeta])
          case (missing e w2)
          then have "w' = snd (template_finish (template_reconciler T) pt ?tv (endpoint_verdict (Inl (ErrNotFound e))) w2)"
            using get key True by (simp add: w'_def defs)
          then show ?thesis using missing get None by (intro finish [of w2 "Inl (ErrNotFound e)"]) simp_all
        next
          case (failed e w2)
          then have "w' = w2" using get key True by (simp add: w'_def defs)
          with failed get pt show ?thesis by (simp add: goals)
        qed
      next
        case (Some ep)
        moreover have "keyOf (epMeta ep) = ?ref" using Some keys get by (simp add: endpoint_keys_ok_def)
        ultimately show ?thesis
        proof (cases rule: ep_get_live)
          case (found w2)
          then have "w' = snd (template_finish (template_reconciler T) pt ?tv (endpoint_verdict (Inr ep)) w2)"
            using get key True by (simp add: w'_def defs)
          then show ?thesis using found get Some by (intro finish [of w2 "Inr ep"]) simp_all
        next
          case (failed e w2)
          then have "w' = w2" using get key True by (simp add: w'_def defs)
          with failed get pt show ?thesis by (simp add: goals)
        qed
      qed
    qed
  qed
qed

interpretation template_loop: converging "template_turn T req" "live_template req spec eps"
    "template_settled T req" "template_rank req"
  for T req spec eps
proof unfold_locales
  fix w :: "'z cluster_scheme"
  assume inv: "live_template req spec eps w"
  then obtain pt where pt: "stTemplates (objects w) req = Some pt" "declared_template req spec pt"
    "endpoint_keys_ok (objects w)" "stEndpoints (objects w) = eps"
    by (auto simp: live_template_def split: option.splits)
  from template_turn_live [OF pt(1-3) refl, of T] pt(3,4)
  show "live_template req spec eps (template_turn T req w)"
    and "template_settled T req (template_turn T req w) \<or> template_rank req (template_turn T req w) < template_rank req w"
    and "template_settled T req w \<Longrightarrow> template_settled T req (template_turn T req w)"
    by (auto simp: live_template_def endpoint_keys_ok_def)
qed (simp add: template_rank_def)

subsection \<open>A concrete template\<close>

definition summarize :: "string \<Rightarrow> string list \<Rightarrow> PromptTemplate" where
  "summarize body fs =
     \<lparr>ptMeta = \<lparr>Name = ''summarize'', Namespace = ''team-a'', Generation = 3, DeletionTimestamp = None, Finalizers = fs\<rparr>,
      ptSpec = \<lparr>Template = body,
        Variables = [\<lparr>tvName = ''tone'', tvType = TemplateVariableTypeString, tvRequired = False,
                      tvDefault = ''terse'', tvDescription = []\<rparr>],
        ptModelEndpointRef = \<lparr>refName = ''haiku''\<rparr>, ptSystemPrompt = [], ptMaxTokens = None\<rparr>,
      ptStatus = \<lparr>ptConditions = [], RenderCount = 0, ptObservedGeneration = 0\<rparr>\<rparr>"

definition summarize_req :: NamespacedName where
  "summarize_req = \<lparr>nnNamespace = ''team-a'', nnName = ''summarize''\<rparr>"

definition template_world :: "PromptTemplate \<Rightarrow> go_error option list \<Rightarrow> cluster" where
  "template_world pt fs =
     \<lparr>objects = \<lparr>stEndpoints = Map.empty, stTemplates = [summarize_req \<mapsto> pt], stPolicies = Map.empty,
        stServices = Map.empty\<rparr>, clock = 50, faults = fs\<rparr>"

lemmas summarize_defs = summarize_def summarize_req_def template_world_def keyOf_def IsZero_def FinalizerName_def

lemma summarize_parses: "tParse field_engine n ''Summarize in a {{.tone}} way.'' = None"
  by (simp add: field_engine_def open_delim_def close_delim_def Let_def field_char_def is_alnum_def
      byte_in_def)

lemma summarize_run:
  "fst (PromptTemplate_Reconcile (template_reconciler field_engine) summarize_req
      (template_world (summarize ''Summarize in a {{.tone}} way.'' [FinalizerName]) []))
     = (zero_result\<lparr>RequeueAfter := requeueTransient\<rparr>, None)"
  by (simp add: PromptTemplate_Reconcile_def summarize_defs mem_get_def next_fault_def
      template_finish_def mem_patch_def referenced_endpoint_def endpoint_verdict_def Let_def)

subsection \<open>Properties\<close>

text \<open>C19: a successful reconciliation of a live template reports what is so: TemplateValid is true
  exactly when the template parses, Ready exactly when moreover the endpoint it names in its
  namespace exists and is available, with the reason telling the three cases apart; other conditions,
  spec, metadata and other templates are untouched; and it checks again after ten seconds while the
  endpoint is not ready, else after five minutes, whatever the syntax.\<close>

theorem PromptTemplate_Reconcile_reports:
  assumes "kube_api (ptClient r) store"
    and "stTemplates (store w) req = Some pt" "IsZero (DeletionTimestamp (ptMeta pt))"
      "FinalizerName \<in> set (Finalizers (ptMeta pt))"
    and "PromptTemplate_Reconcile r req w = ((res, None), w')"
    and "ref = \<lparr>nnNamespace = nnNamespace req, nnName = refName (ptModelEndpointRef (ptSpec pt))\<rparr>"
    and "valid \<longleftrightarrow> tParse (ptEngine r) ''validate'' (Template (ptSpec pt)) = None"
  shows "\<exists>st v d. stTemplates (store w') = (stTemplates (store w))(req \<mapsto> pt\<lparr>ptStatus := st\<rparr>)
    \<and> ptObservedGeneration st = Generation (ptMeta pt) \<and> RenderCount st = RenderCount (ptStatus pt)
    \<and> condition_of ''TemplateValid'' (ptConditions st) = Some v \<and> (cStatus v = ConditionTrue \<longleftrightarrow> valid)
    \<and> condition_of ConditionReady (ptConditions st) = Some d
    \<and> (cStatus d, cReason d, RequeueAfter res) =
        (case stEndpoints (store w) ref of
           None \<Rightarrow> (ConditionFalse, ''EndpointNotFound'', 10 * 10 ^ 9)
         | Some ep \<Rightarrow>
             if Available (epStatus ep)
             then (if valid then ConditionTrue else ConditionFalse, ''EndpointFound'', 300 * 10 ^ 9)
             else (ConditionFalse, ''EndpointUnavailable'', 10 * 10 ^ 9))
    \<and> (\<forall>ty. ty \<in> {''TemplateValid'', ConditionReady}
        \<or> condition_of ty (ptConditions st) = condition_of ty (ptConditions (ptStatus pt)))"
proof -
  have ref: "ref = referenced_endpoint req pt" using assms(6) by (simp add: referenced_endpoint_def)
  obtain got t1 t2 where post:
    "case got of Inl err \<Rightarrow> stEndpoints (store w) ref = None | Inr e \<Rightarrow> stEndpoints (store w) ref = Some e"
    "stTemplates (store w') = (stTemplates (store w))(req \<mapsto> pt\<lparr>ptStatus := template_status pt
          (template_verdict (tParse (ptEngine r) ''validate'' (Template (ptSpec pt)))) (endpoint_verdict got) t1 t2\<rparr>)"
    "res = zero_result\<lparr>RequeueAfter := (if \<not> fst (endpoint_verdict got) then requeueTransient else requeueSteadyState)\<rparr>"
    using kube_api.template_synced [OF assms(1,5) refl assms(2-4)] unfolding ref [symmetric] by blast
  let ?tv = "template_verdict (tParse (ptEngine r) ''validate'' (Template (ptSpec pt)))"
  let ?st = "template_status pt ?tv (endpoint_verdict got) t1 t2"
  obtain v d where vd: "condition_of ''TemplateValid'' (ptConditions ?st) = Some v"
    "cStatus v = conditionStatus (fst ?tv)" "condition_of ConditionReady (ptConditions ?st) = Some d"
    "cStatus d = conditionStatus (fst ?tv \<and> fst (endpoint_verdict got))"
    "cReason d = fst (snd (endpoint_verdict got))"
    using template_status_conditions by blast
  have tv: "fst ?tv = valid" using assms(7) by (simp add: template_verdict_def split: option.split)
  have other: "\<forall>ty. ty \<in> {''TemplateValid'', ConditionReady}
      \<or> condition_of ty (ptConditions ?st) = condition_of ty (ptConditions (ptStatus pt))"
    using template_status_other by blast
  have verdict: "(cStatus d, cReason d, RequeueAfter res) =
        (case stEndpoints (store w) ref of
           None \<Rightarrow> (ConditionFalse, ''EndpointNotFound'', 10 * 10 ^ 9)
         | Some ep \<Rightarrow>
             if Available (epStatus ep)
             then (if valid then ConditionTrue else ConditionFalse, ''EndpointFound'', 300 * 10 ^ 9)
             else (ConditionFalse, ''EndpointUnavailable'', 10 * 10 ^ 9))"
    using post(1) unfolding vd(4,5) tv post(3)
    by (auto simp: endpoint_verdict_def conditionStatus_def requeue_defs split: sum.splits)
  have v: "cStatus v = ConditionTrue \<longleftrightarrow> valid" using vd(2) tv by (simp add: conditionStatus_def)
  show ?thesis
    by (intro exI [of _ ?st] exI [of _ v] exI [of _ d] conjI)
      (rule post(2) vd(1,3) other v verdict template_status_fields)+
qed

theorem PromptTemplate_Reconcile_reports_witness:
  "\<exists>st d. stTemplates (objects (snd (PromptTemplate_Reconcile (template_reconciler field_engine) summarize_req
        (template_world (summarize ''Summarize in a {{.tone}} way.'' [FinalizerName]) [])))) summarize_req
      = Some ((summarize ''Summarize in a {{.tone}} way.'' [FinalizerName])\<lparr>ptStatus := st\<rparr>)
    \<and> condition_of ConditionReady (ptConditions st) = Some d
    \<and> cStatus d = ConditionFalse \<and> cReason d = ''EndpointNotFound''"
proof -
  let ?pt = "summarize ''Summarize in a {{.tone}} way.'' [FinalizerName]"
  let ?w = "template_world ?pt []"
  have api: "kube_api (ptClient (template_reconciler field_engine)) (objects :: cluster \<Rightarrow> Store)"
    by (simp add: mem.kube_api_axioms)
  have pre: "stTemplates (objects ?w) summarize_req = Some ?pt" "IsZero (DeletionTimestamp (ptMeta ?pt))"
    "FinalizerName \<in> set (Finalizers (ptMeta ?pt))"
    by (simp_all add: summarize_defs)
  obtain w' where run: "PromptTemplate_Reconcile (template_reconciler field_engine) summarize_req ?w
      = ((zero_result\<lparr>RequeueAfter := requeueTransient\<rparr>, None), w')"
    using summarize_run by (metis prod.collapse)
  have none: "stEndpoints (objects ?w) k = None" for k by (simp add: template_world_def)
  from PromptTemplate_Reconcile_reports [OF api pre run refl refl] run show ?thesis
    unfolding none by auto
qed

text \<open>A template's status becomes right in spite of transient failures: with n entries in the
  API server's fault script, after n + 2 or more turns of the work queue the stored conditions say
  what is so of the template's syntax and of its endpoint.\<close>

theorem PromptTemplate_Reconcile_converges:
  fixes w :: "'z cluster_scheme"
  assumes "stTemplates (objects w) req = Some pt" "keyOf (ptMeta pt) = req" "IsZero (DeletionTimestamp (ptMeta pt))"
    and "\<forall>k ep. stEndpoints (objects w) k = Some ep \<longrightarrow> keyOf (epMeta ep) = k"
    and "length (faults w) + 2 \<le> n"
    and "w' = ((\<lambda>v. snd (PromptTemplate_Reconcile (template_reconciler T) req v)) ^^ n) w"
  shows "\<exists>pt'. stTemplates (objects w') req = Some pt' \<and> ptSpec pt' = ptSpec pt
    \<and> template_reported T (stEndpoints (objects w')
        \<lparr>nnNamespace = nnNamespace req, nnName = refName (ptModelEndpointRef (ptSpec pt))\<rparr>) pt'"
proof -
  let ?run = "template_turn T req"
  have w': "w' = (?run ^^ n) w" using assms(6) by (simp add: template_turn_def [abs_def])
  have inv: "live_template req (ptSpec pt) (stEndpoints (objects w)) w"
    using assms(1-4) by (simp add: live_template_def declared_template_def endpoint_keys_ok_def)
  have rank: "template_rank req w \<le> n" using assms(1,5) by (simp add: template_rank_def)
  have "template_settled T req w'" "live_template req (ptSpec pt) (stEndpoints (objects w)) w'"
    unfolding w' using template_loop.converges [OF inv rank] template_loop.inv_runs [OF inv] by blast+
  then show ?thesis
    by (auto simp: template_settled_def live_template_def declared_template_def referenced_endpoint_def
        split: option.splits)
qed

theorem PromptTemplate_Reconcile_converges_witness:
  "\<exists>pt'. stTemplates (objects (((\<lambda>v. snd (PromptTemplate_Reconcile (template_reconciler field_engine) summarize_req v)) ^^ 3)
      (template_world (summarize ''Hi.'' []) [Some (ErrMsg ''timeout'')]))) summarize_req = Some pt'
    \<and> template_reported field_engine None pt'"
proof -
  let ?w = "template_world (summarize ''Hi.'' []) [Some (ErrMsg ''timeout'')]"
  let ?w' = "((\<lambda>v. snd (PromptTemplate_Reconcile (template_reconciler field_engine) summarize_req v)) ^^ 3) ?w"
  have pre: "stTemplates (objects ?w) summarize_req = Some (summarize ''Hi.'' [])"
    "keyOf (ptMeta (summarize ''Hi.'' [])) = summarize_req" "IsZero (DeletionTimestamp (ptMeta (summarize ''Hi.'' [])))"
    "\<forall>k ep. stEndpoints (objects ?w) k = Some ep \<longrightarrow> keyOf (epMeta ep) = k"
    "length (faults ?w) + 2 \<le> 3"
    by (simp_all add: summarize_defs)
  have inv: "live_template summarize_req (ptSpec (summarize ''Hi.'' [])) Map.empty ?w"
    using pre by (simp add: live_template_def declared_template_def endpoint_keys_ok_def template_world_def)
  have "live_template summarize_req (ptSpec (summarize ''Hi.'' [])) Map.empty
      ((template_turn field_engine summarize_req ^^ 3) ?w)"
    by (rule template_loop.inv_runs [OF inv])
  then have "live_template summarize_req (ptSpec (summarize ''Hi.'' [])) Map.empty ?w'"
    by (simp only: template_turn_def [abs_def])
  with PromptTemplate_Reconcile_converges [OF pre refl, of field_engine] show ?thesis
    by (auto simp: live_template_def)
qed

end
