(* ===== verification/Guardrail_Controller.thy ===== *)
theory Guardrail_Controller
  imports Reconciler Controller_Helpers Metrics Bedrock_Client
begin

section \<open>Guardrails (internal/bedrock/guardrail.go, internal/controller/guardrailpolicy\_controller.go)\<close>

text \<open>
  The guardrail client of the bedrock package, the translation of a GuardrailPolicy into the inputs
  of the Bedrock control plane, and \<open>GuardrailPolicy_Reconcile\<close>. The SDK's input types keep their
  pointer fields as options; the Go interface GuardrailCreator is the record \<open>creator\<close>. The locale
  \<open>guardrail_service\<close> states what the Bedrock documentation promises: a created guardrail is stored
  under a new identifier, an update replaces the configuration, a deletion removes it. It is
  interpreted on an in-memory service that shares the fault script of the cluster.
\<close>

subsection \<open>Inputs of the SDK\<close>

record GuardrailContentFilterConfig =
  fcType :: string
  fcInputStrength :: string
  fcOutputStrength :: string

record GuardrailTopicConfig =
  tcName :: "string option"
  tcDefinition :: "string option"
  tcType :: string
  tcExamples :: "string list"

record GuardrailWordPolicyConfig =
  WordsConfig :: "string option list"
  ManagedWordListsConfig :: "string list"

record GuardrailPiiEntityConfig =
  peType :: string
  peAction :: string

record GuardrailInput =
  inName :: "string option"
  inDescription :: "string option"
  inBlockedInputMessaging :: "string option"
  inBlockedOutputsMessaging :: "string option"
  inContentPolicy :: "GuardrailContentFilterConfig list option"
  inTopicPolicy :: "GuardrailTopicConfig list option"
  inWordPolicy :: "GuardrailWordPolicyConfig option"
  inSensitivePolicy :: "GuardrailPiiEntityConfig list option"

record UpdateGuardrailInput = GuardrailInput +
  GuardrailIdentifier :: "string option"

text \<open>CreateGuardrail returns the identifier and the version, UpdateGuardrail the version.\<close>

record 'w creator =
  gCreate :: "GuardrailInput \<Rightarrow> 'w \<Rightarrow> (go_error + string option \<times> string option) \<times> 'w"
  gUpdate :: "UpdateGuardrailInput \<Rightarrow> 'w \<Rightarrow> (go_error + string option) \<times> 'w"
  gDelete :: "string option \<Rightarrow> 'w \<Rightarrow> go_error option \<times> 'w"

definition ToString :: "string option \<Rightarrow> string" where
  "ToString p = (case p of None \<Rightarrow> [] | Some s \<Rightarrow> s)"

subsection \<open>The guardrail client\<close>

definition NewGuardrailClient :: "BedrockClient \<Rightarrow> EndpointKey \<Rightarrow> (go_error + AwsClient) \<times> BedrockClient" where
  "NewGuardrailClient c key =
     (if RoleArn key = [] then
        (let cfg = (if ekRegion key \<noteq> [] then (baseConfig c)\<lparr>cfgRegion := ekRegion key\<rparr> else baseConfig c);
             (inner, c') = NewFromConfig cfg c
         in (Inr inner, c'))
      else
        (case controlClient c key of
           (Inl err, c') \<Rightarrow>
             (Inl (Wrapf (''building guardrail client for '' @ RoleArn key @ ''/'' @ ekRegion key) err), c')
         | (Inr inner, c') \<Rightarrow> (Inr inner, c')))"

text \<open>The methods of GuardrailClient hand their input to the SDK client it holds.\<close>

record 'w guardrail_sdk =
  sdkCreateGuardrail :: "AwsClient \<Rightarrow> GuardrailInput \<Rightarrow> 'w \<Rightarrow> (go_error + string option \<times> string option) \<times> 'w"
  sdkUpdateGuardrail :: "AwsClient \<Rightarrow> UpdateGuardrailInput \<Rightarrow> 'w \<Rightarrow> (go_error + string option) \<times> 'w"
  sdkDeleteGuardrail :: "AwsClient \<Rightarrow> string option \<Rightarrow> 'w \<Rightarrow> go_error option \<times> 'w"

definition GuardrailClient :: "'w guardrail_sdk \<Rightarrow> AwsClient \<Rightarrow> 'w creator" where
  "GuardrailClient sdk inner =
     \<lparr>gCreate = sdkCreateGuardrail sdk inner, gUpdate = sdkUpdateGuardrail sdk inner,
      gDelete = sdkDeleteGuardrail sdk inner\<rparr>"

definition defaultGuardrailBlockedMessage :: string where
  "defaultGuardrailBlockedMessage = ''Your request was blocked by the content policy.''"

definition DefaultBlockedInput :: "string \<Rightarrow> string option" where
  "DefaultBlockedInput msg = (if msg = [] then Some defaultGuardrailBlockedMessage else Some msg)"

subsection \<open>Translation of the spec\<close>

definition buildContentPolicy :: "ContentPolicyConfig \<Rightarrow> GuardrailContentFilterConfig list" where
  "buildContentPolicy spec =
     map (\<lambda>f. \<lparr>fcType = cfType f, fcInputStrength = InputStrength (cfConfig f),
               fcOutputStrength = OutputStrength (cfConfig f)\<rparr>) (Filters spec)"

definition buildTopicPolicy :: "TopicPolicyConfig \<Rightarrow> GuardrailTopicConfig list" where
  "buildTopicPolicy spec =
     map (\<lambda>t. \<lparr>tcName = Some (dtName t), tcDefinition = Some (dtDefinition t), tcType = ''DENY'',
               tcExamples = dtExamples t\<rparr>) (Topics spec)"

definition buildWordPolicy :: "WordPolicyConfig \<Rightarrow> GuardrailWordPolicyConfig" where
  "buildWordPolicy spec =
     \<lparr>WordsConfig = map (\<lambda>w. Some w) (Words spec), ManagedWordListsConfig = ManagedWordLists spec\<rparr>"

fun action_text :: "PIIAction \<Rightarrow> string" where
  "action_text PIIActionBlock = ''BLOCK''"
| "action_text PIIActionAnonymize = ''ANONYMIZE''"

definition buildPIIPolicy :: "SensitiveInformationPolicyConfig \<Rightarrow> GuardrailPiiEntityConfig list" where
  "buildPIIPolicy spec = map (\<lambda>p. \<lparr>peType = piiType p, peAction = action_text (piiAction p)\<rparr>) (PIIEntities spec)"

subsection \<open>The reconciler\<close>

record 'w GuardrailPolicyReconciler =
  gpClient :: "'w kube"
  gpBedrock :: "'w creator"

definition createInput :: "GuardrailPolicy \<Rightarrow> GuardrailInput" where
  "createInput gp =
     (let spec = gpSpec gp;
          input = \<lparr>inName = Some (Name (gpMeta gp)), inDescription = Some (gpDescription spec),
            inBlockedInputMessaging = None, inBlockedOutputsMessaging = None, inContentPolicy = None,
            inTopicPolicy = None, inWordPolicy = None, inSensitivePolicy = None\<rparr>;
          input = (if BlockedInputMessage spec \<noteq> []
                   then input\<lparr>inBlockedInputMessaging := Some (BlockedInputMessage spec)\<rparr> else input);
          input = (if BlockedOutputsMessage spec \<noteq> []
                   then input\<lparr>inBlockedOutputsMessaging := Some (BlockedOutputsMessage spec)\<rparr> else input);
          input = (case ContentPolicy spec of None \<Rightarrow> input
                   | Some p \<Rightarrow> input\<lparr>inContentPolicy := Some (buildContentPolicy p)\<rparr>);
          input = (case TopicPolicy spec of None \<Rightarrow> input
                   | Some p \<Rightarrow> input\<lparr>inTopicPolicy := Some (buildTopicPolicy p)\<rparr>);
          input = (case WordPolicy spec of None \<Rightarrow> input
                   | Some p \<Rightarrow> input\<lparr>inWordPolicy := Some (buildWordPolicy p)\<rparr>)
      in (case SensitiveInformationPolicy spec of None \<Rightarrow> input
          | Some p \<Rightarrow> input\<lparr>inSensitivePolicy := Some (buildPIIPolicy p)\<rparr>))"

definition createGuardrail :: "'w GuardrailPolicyReconciler \<Rightarrow> GuardrailPolicy \<Rightarrow> 'w
    \<Rightarrow> (go_error + string \<times> string) \<times> 'w" where
  "createGuardrail r gp w =
     (case gCreate (gpBedrock r) (createInput gp) w of
        (Inl err, w') \<Rightarrow> (Inl (Wrapf ''CreateGuardrail'' err), w')
      | (Inr (guardrailId, version), w') \<Rightarrow> (Inr (ToString guardrailId, ToString version), w'))"

definition updateInput :: "GuardrailPolicy \<Rightarrow> UpdateGuardrailInput" where
  "updateInput gp =
     (let spec = gpSpec gp;
          input = \<lparr>inName = Some (Name (gpMeta gp)), inDescription = Some (gpDescription spec),
            inBlockedInputMessaging = None, inBlockedOutputsMessaging = None, inContentPolicy = None,
            inTopicPolicy = None, inWordPolicy = None, inSensitivePolicy = None,
            GuardrailIdentifier = Some (GuardrailId (gpStatus gp))\<rparr>;
          input = (if BlockedInputMessage spec \<noteq> []
                   then input\<lparr>inBlockedInputMessaging := Some (BlockedInputMessage spec)\<rparr> else input);
          input = (if BlockedOutputsMessage spec \<noteq> []
                   then input\<lparr>inBlockedOutputsMessaging := Some (BlockedOutputsMessage spec)\<rparr> else input);
          input = (case ContentPolicy spec of None \<Rightarrow> input
                   | Some p \<Rightarrow> input\<lparr>inContentPolicy := Some (buildContentPolicy p)\<rparr>);
          input = (case TopicPolicy spec of None \<Rightarrow> input
                   | Some p \<Rightarrow> input\<lparr>inTopicPolicy := Some (buildTopicPolicy p)\<rparr>);
          input = (case WordPolicy spec of None \<Rightarrow> input
                   | Some p \<Rightarrow> input\<lparr>inWordPolicy := Some (buildWordPolicy p)\<rparr>)
      in (case SensitiveInformationPolicy spec of None \<Rightarrow> input
          | Some p \<Rightarrow> input\<lparr>inSensitivePolicy := Some (buildPIIPolicy p)\<rparr>))"

definition updateGuardrail :: "'w GuardrailPolicyReconciler \<Rightarrow> GuardrailPolicy \<Rightarrow> 'w
    \<Rightarrow> (go_error + string) \<times> 'w" where
  "updateGuardrail r gp w =
     (case gUpdate (gpBedrock r) (updateInput gp) w of
        (Inl err, w') \<Rightarrow> (Inl (Wrapf (''UpdateGuardrail '' @ GuardrailId (gpStatus gp)) err), w')
      | (Inr version, w') \<Rightarrow> (Inr (ToString version), w'))"

definition handleGuardrailDeletion :: "'w GuardrailPolicyReconciler \<Rightarrow> GuardrailPolicy \<Rightarrow> 'w
    \<Rightarrow> (Result \<times> go_error option) \<times> 'w" where
  "handleGuardrailDeletion r gp w =
     (if \<not> containsFinalizer (gpClient r) (gpMeta gp) FinalizerName then ((zero_result, None), w)
      else
        (let w1 = (if GuardrailId (gpStatus gp) \<noteq> []
                   then snd (gDelete (gpBedrock r) (Some (GuardrailId (gpStatus gp))) w) else w);
             gp' = gp\<lparr>gpMeta := removeFinalizer (gpClient r) (gpMeta gp) FinalizerName\<rparr>
         in case rUpdate (gpAPI (gpClient r)) gp' w1 of
              (Some err, w2) \<Rightarrow> ((zero_result, Some (Wrapf ''removing finalizer'' err)), w2)
            | (None, w2) \<Rightarrow> ((zero_result, None), w2)))"

text \<open>Create or update, as Reconcile chooses by the identifier in the status: identifier and version.\<close>

definition syncGuardrail :: "'w GuardrailPolicyReconciler \<Rightarrow> GuardrailPolicy \<Rightarrow> 'w
    \<Rightarrow> (go_error + string \<times> string) \<times> 'w" where
  "syncGuardrail r gp w =
     (if GuardrailId (gpStatus gp) = [] then createGuardrail r gp w
      else (case updateGuardrail r gp w of
              (Inl err, w') \<Rightarrow> (Inl err, w')
            | (Inr version, w') \<Rightarrow> (Inr (GuardrailId (gpStatus gp), version), w')))"

definition synced_condition :: "go_error + string \<times> string \<Rightarrow> time \<Rightarrow> Condition" where
  "synced_condition res now =
     (case res of
        Inl syncErr \<Rightarrow>
          \<lparr>cType = ConditionGuardrailSynced, cStatus = ConditionFalse, cReason = ''SyncFailed'',
           cMessage = error_text syncErr, LastTransitionTime = now\<rparr>
      | Inr (guardrailId, guardrailVersion) \<Rightarrow>
          \<lparr>cType = ConditionGuardrailSynced, cStatus = ConditionTrue, cReason = ''Synced'',
           cMessage = ''guardrail '' @ guardrailId @ '' version '' @ guardrailVersion @ '' synced to Bedrock'',
           LastTransitionTime = now\<rparr>)"

definition guardrail_status :: "GuardrailPolicy \<Rightarrow> go_error + string \<times> string \<Rightarrow> time \<Rightarrow> GuardrailPolicyStatus" where
  "guardrail_status gp res now =
     (let st = (gpStatus gp)\<lparr>gpObservedGeneration := Generation (gpMeta gp)\<rparr>;
          st = (case res of Inl err \<Rightarrow> st
                | Inr (guardrailId, guardrailVersion) \<Rightarrow>
                    st\<lparr>GuardrailId := guardrailId, GuardrailVersion := guardrailVersion\<rparr>)
      in st\<lparr>gpConditions := setCondition (gpConditions st) (synced_condition res now)\<rparr>)"

definition GuardrailPolicy_Reconcile :: "'w GuardrailPolicyReconciler \<Rightarrow> NamespacedName \<Rightarrow> 'w
    \<Rightarrow> (Result \<times> go_error option) \<times> metric_op list \<times> 'w" where
  "GuardrailPolicy_Reconcile r req w =
     (let K = gpClient r in
      case rGet (gpAPI K) req w of
        (Inl err, w1) \<Rightarrow>
          (if IsNotFound err then ((zero_result, None), [], w1)
           else ((zero_result, Some (Wrapf ''fetching GuardrailPolicy'' err)), [], w1))
      | (Inr gp, w1) \<Rightarrow>
          if \<not> IsZero (DeletionTimestamp (gpMeta gp)) then
            (let (out, w2) = handleGuardrailDeletion r gp w1 in (out, [], w2))
          else if \<not> containsFinalizer K (gpMeta gp) FinalizerName then
            (case rUpdate (gpAPI K) (gp\<lparr>gpMeta := addFinalizer K (gpMeta gp) FinalizerName\<rparr>) w1 of
               (Some err, w2) \<Rightarrow> ((zero_result, Some (Wrapf ''adding finalizer'' err)), [], w2)
             | (None, w2) \<Rightarrow> ((zero_result\<lparr>Requeue := True\<rparr>, None), [], w2))
          else
            (let (synced, w2) = syncGuardrail r (gp\<lparr>gpStatus := (gpStatus gp)\<lparr>gpObservedGeneration := Generation (gpMeta gp)\<rparr>\<rparr>) w1;
                 ops = (case synced of Inl err \<Rightarrow> [MInc ReconcileErrorsTotal [''guardrailpolicy'', ''bedrock_sync'']]
                        | Inr v \<Rightarrow> []);
                 (now, w3) = metaNow K w2;
                 gp' = gp\<lparr>gpStatus := guardrail_status gp synced now\<rparr>
             in case rPatchStatus (gpAPI K) gp gp' w3 of
                  (Some err, w4) \<Rightarrow> ((zero_result, Some (Wrapf ''patching status'' err)), ops, w4)
                | (None, w4) \<Rightarrow>
                    ((zero_result\<lparr>RequeueAfter := (case synced of Inl err \<Rightarrow> requeueTransient
                                                  | Inr v \<Rightarrow> requeueSteadyState)\<rparr>, None), ops, w4)))"

subsection \<open>The two inputs\<close>

text \<open>The configuration that a policy asks for, as a function of its spec.\<close>

definition wanted_guardrail :: "GuardrailPolicy \<Rightarrow> GuardrailInput" where
  "wanted_guardrail gp =
     \<lparr>inName = Some (Name (gpMeta gp)), inDescription = Some (gpDescription (gpSpec gp)),
      inBlockedInputMessaging =
        (if BlockedInputMessage (gpSpec gp) = [] then None else Some (BlockedInputMessage (gpSpec gp))),
      inBlockedOutputsMessaging =
        (if BlockedOutputsMessage (gpSpec gp) = [] then None else Some (BlockedOutputsMessage (gpSpec gp))),
      inContentPolicy = map_option buildContentPolicy (ContentPolicy (gpSpec gp)),
      inTopicPolicy = map_option buildTopicPolicy (TopicPolicy (gpSpec gp)),
      inWordPolicy = map_option buildWordPolicy (WordPolicy (gpSpec gp)),
      inSensitivePolicy = map_option buildPIIPolicy (SensitiveInformationPolicy (gpSpec gp))\<rparr>"

lemma createInput_wanted: "createInput gp = wanted_guardrail gp"
  by (simp add: createInput_def wanted_guardrail_def Let_def split: option.split)

lemma updateInput_wanted:
  "GuardrailInput.truncate (updateInput gp) = wanted_guardrail gp
   \<and> GuardrailIdentifier (updateInput gp) = Some (GuardrailId (gpStatus gp))"
  by (simp add: updateInput_def wanted_guardrail_def GuardrailInput.truncate_def Let_def split: option.split)

lemma wanted_status [simp]: "wanted_guardrail (gp\<lparr>gpStatus := st\<rparr>) = wanted_guardrail gp"
  by (simp add: wanted_guardrail_def)

text \<open>The observed generation does not matter to a sync.\<close>

lemma sync_generation: "syncGuardrail r (gp\<lparr>gpStatus := (gpStatus gp)\<lparr>gpObservedGeneration := g\<rparr>\<rparr>) = syncGuardrail r gp"
proof -
  let ?gp = "gp\<lparr>gpStatus := (gpStatus gp)\<lparr>gpObservedGeneration := g\<rparr>\<rparr>"
  have "createInput ?gp = createInput gp" "updateInput ?gp = updateInput gp" "GuardrailId (gpStatus ?gp) = GuardrailId (gpStatus gp)"
    by (simp_all add: createInput_def updateInput_def)
  then show ?thesis
    by (intro ext) (simp only: syncGuardrail_def createGuardrail_def updateGuardrail_def)
qed

text \<open>The version that a sync returns is the one in Bedrock's answer.\<close>

lemma sync_version:
  assumes "fst (syncGuardrail r gp w) = Inr (gid, v)"
  shows "if GuardrailId (gpStatus gp) = []
    then \<exists>i ver. fst (gCreate (gpBedrock r) (createInput gp) w) = Inr (i, ver) \<and> gid = ToString i \<and> v = ToString ver
    else \<exists>ver. fst (gUpdate (gpBedrock r) (updateInput gp) w) = Inr ver \<and> v = ToString ver"
  using assms by (auto simp: syncGuardrail_def createGuardrail_def updateGuardrail_def split: prod.splits sum.splits if_splits)

subsection \<open>What Bedrock promises\<close>

locale guardrail_service =
  fixes S :: "'w creator" and remote :: "'w \<Rightarrow> string \<Rightarrow> GuardrailInput option"
  assumes create_ok: "gCreate S i w = (Inr (gid, v), w') \<Longrightarrow>
      \<exists>n. gid = Some n \<and> n \<noteq> [] \<and> remote w n = None \<and> remote w' = (remote w)(n \<mapsto> i)"
    and update_ok: "gUpdate S u w = (Inr v, w') \<Longrightarrow>
      \<exists>n. GuardrailIdentifier u = Some n \<and> remote w n \<noteq> None
        \<and> remote w' = (remote w)(n \<mapsto> GuardrailInput.truncate u)"
    and delete_ok: "gDelete S (Some n) w = (None, w') \<Longrightarrow> remote w' = (remote w)(n := None)"
begin

text \<open>A successful sync leaves the wanted configuration under the returned identifier.\<close>

lemma sync_ok:
  assumes "syncGuardrail r gp w = (Inr (gid, v), w')" "gpBedrock r = S"
  shows "gid \<noteq> [] \<and> remote w' = (remote w)(gid \<mapsto> wanted_guardrail gp)
    \<and> (if GuardrailId (gpStatus gp) = [] then remote w gid = None
       else gid = GuardrailId (gpStatus gp) \<and> remote w gid \<noteq> None)"
proof (cases "GuardrailId (gpStatus gp) = []")
  case True
  then obtain g v' where "gCreate S (wanted_guardrail gp) w = (Inr (g, v'), w')" "gid = ToString g"
    using assms by (auto simp: syncGuardrail_def createGuardrail_def createInput_wanted
        split: prod.splits sum.splits)
  with create_ok [of "wanted_guardrail gp" w g v' w'] True show ?thesis by (auto simp: ToString_def)
next
  case False
  then obtain v' where "gUpdate S (updateInput gp) w = (Inr v', w')" "gid = GuardrailId (gpStatus gp)"
    using assms by (auto simp: syncGuardrail_def updateGuardrail_def split: prod.splits sum.splits)
  with update_ok [of "updateInput gp" w v' w'] updateInput_wanted [of gp] False show ?thesis by auto
qed

end

locale guardrail_env = kube_api K store + guardrail_service S remote
  for K :: "'w kube" and store :: "'w \<Rightarrow> Store" and S :: "'w creator"
    and remote :: "'w \<Rightarrow> string \<Rightarrow> GuardrailInput option" +
  assumes create_frame: "store (snd (gCreate S i w)) = store w"
    and guardrail_update_frame: "store (snd (gUpdate S u w)) = store w"
    and delete_frame: "store (snd (gDelete S n w)) = store w"
    and remote_frame: "remote (snd (rGet (gpAPI K) k w)) = remote w"
      "remote (snd (rUpdate (gpAPI K) obj w)) = remote w"
      "remote (snd (rPatchStatus (gpAPI K) base obj w)) = remote w"
      "remote (snd (metaNow K w)) = remote w"
begin

lemma sync_frame: "gpBedrock r = S \<Longrightarrow> store (snd (syncGuardrail r gp w)) = store w"
  using create_frame [of "createInput gp" w] guardrail_update_frame [of "updateInput gp" w]
  by (auto simp: syncGuardrail_def createGuardrail_def updateGuardrail_def split: prod.splits sum.splits)

lemma policy_get:
  assumes "stPolicies (store w) req = Some gp" "rGet (gpAPI K) req w = (g, w1)"
  shows "(\<forall>e. g = Inl e \<longrightarrow> \<not> IsNotFound e) \<and> (\<forall>gp'. g = Inr gp' \<longrightarrow> gp' = gp \<and> keyOf (gpMeta gp) = req)
    \<and> store w1 = store w \<and> remote w1 = remote w"
  using gp.get_missing [of req w _ w1] gp.get_found [of req w _ w1] get_frame(3) [of req w]
    remote_frame(1) [of req w] assms by (cases g) auto

lemma guardrail_synced:
  assumes run: "GuardrailPolicy_Reconcile r req w = ((res, None), ops, w')"
    and r: "gpClient r = K" "gpBedrock r = S"
    and gp: "stPolicies (store w) req = Some gp" "IsZero (DeletionTimestamp (gpMeta gp))"
      "FinalizerName \<in> set (Finalizers (gpMeta gp))"
  shows "\<exists>synced now. synced = fst (syncGuardrail r gp (snd (rGet (gpAPI K) req w)))
    \<and> stPolicies (store w') = (stPolicies (store w))(req \<mapsto> gp\<lparr>gpStatus := guardrail_status gp synced now\<rparr>)
    \<and> (case synced of
         Inl err \<Rightarrow> res = zero_result\<lparr>RequeueAfter := requeueTransient\<rparr>
           \<and> ops = [MInc ReconcileErrorsTotal [''guardrailpolicy'', ''bedrock_sync'']]
       | Inr (gid, v) \<Rightarrow> res = zero_result\<lparr>RequeueAfter := requeueSteadyState\<rparr> \<and> ops = []
           \<and> gid \<noteq> [] \<and> remote w' = (remote w)(gid \<mapsto> wanted_guardrail gp)
           \<and> (if GuardrailId (gpStatus gp) = [] then remote w gid = None
              else gid = GuardrailId (gpStatus gp) \<and> remote w gid \<noteq> None))"
proof -
  obtain g w1 where get: "rGet (gpAPI K) req w = (g, w1)" by fastforce
  note facts = policy_get [OF gp(1) get]
  have "\<exists>gp'. g = Inr gp'"
    using run r get facts by (cases g) (auto simp: GuardrailPolicy_Reconcile_def split: if_splits)
  then have g: "g = Inr gp" and key: "keyOf (gpMeta gp) = req" using facts by auto
  let ?gp = "gp\<lparr>gpStatus := (gpStatus gp)\<lparr>gpObservedGeneration := Generation (gpMeta gp)\<rparr>\<rparr>"
  obtain synced w2 where s: "syncGuardrail r ?gp w1 = (synced, w2)" by fastforce
  obtain now w3 where t: "metaNow K w2 = (now, w3)" by fastforce
  have w3: "store w3 = store w" "remote w3 = remote w2"
    using sync_frame [OF r(2), of ?gp w1] s now_frame [of w2] remote_frame(4) [of w2] t facts by simp_all
  let ?new = "gp\<lparr>gpStatus := guardrail_status gp synced now\<rparr>"
  have p: "rPatchStatus (gpAPI K) gp ?new w3 = (None, w')"
    and out: "res = zero_result\<lparr>RequeueAfter := (case synced of Inl err \<Rightarrow> requeueTransient | Inr v \<Rightarrow> requeueSteadyState)\<rparr>"
      "ops = (case synced of Inl err \<Rightarrow> [MInc ReconcileErrorsTotal [''guardrailpolicy'', ''bedrock_sync'']] | Inr v \<Rightarrow> [])"
    using run r get g s t gp(2,3)
    by (auto simp: GuardrailPolicy_Reconcile_def Let_def contains_iff split: prod.splits option.splits)
  have stored: "stPolicies (store w') = (stPolicies (store w))(req \<mapsto> ?new)"
    using gp.patch_ok [OF p, of gp] w3 gp(1) key by simp
  have "remote w' = remote w2" using remote_frame(3) [of gp ?new w3] p w3 by simp
  then have "case synced of Inl err \<Rightarrow> True | Inr (gid, v) \<Rightarrow> gid \<noteq> [] \<and> remote w' = (remote w)(gid \<mapsto> wanted_guardrail gp)
           \<and> (if GuardrailId (gpStatus gp) = [] then remote w gid = None
              else gid = GuardrailId (gpStatus gp) \<and> remote w gid \<noteq> None)"
    using sync_ok [of r ?gp w1 _ _ w2] s r(2) facts by (auto split: sum.splits)
  moreover have "synced = fst (syncGuardrail r gp w1)" using s by (simp add: sync_generation)
  ultimately show ?thesis using stored out get
    by (intro exI [of _ synced] exI [of _ now]) (auto split: sum.splits)
qed

lemma guardrail_deleted:
  assumes run: "GuardrailPolicy_Reconcile r req w = ((res, None), ops, w')"
    and r: "gpClient r = K" "gpBedrock r = S"
    and gp: "stPolicies (store w) req = Some gp" "\<not> IsZero (DeletionTimestamp (gpMeta gp))"
      "FinalizerName \<in> set (Finalizers (gpMeta gp))"
  shows "stPolicies (store w') = (stPolicies (store w))(req :=
      (if set (Finalizers (gpMeta gp)) \<subseteq> {FinalizerName} then None
       else Some (gp\<lparr>gpMeta := removeFinalizer K (gpMeta gp) FinalizerName\<rparr>)))
    \<and> res = zero_result \<and> ops = []
    \<and> (let gid = GuardrailId (gpStatus gp) in
       if gid = [] then remote w' = remote w
       else fst (gDelete S (Some gid) (snd (rGet (gpAPI K) req w))) = None \<longrightarrow> remote w' = (remote w)(gid := None))"
proof -
  obtain g w1 where get: "rGet (gpAPI K) req w = (g, w1)" by fastforce
  note facts = policy_get [OF gp(1) get]
  have "\<exists>gp'. g = Inr gp'"
    using run r get facts by (cases g) (auto simp: GuardrailPolicy_Reconcile_def split: if_splits)
  then have g: "g = Inr gp" and key: "keyOf (gpMeta gp) = req" using facts by auto
  let ?m = "removeFinalizer K (gpMeta gp) FinalizerName" and ?gid = "GuardrailId (gpStatus gp)"
  define w2 where "w2 = (if ?gid \<noteq> [] then snd (gDelete S (Some ?gid) w1) else w1)"
  have w2: "store w2 = store w" using facts delete_frame by (simp add: w2_def)
  have u: "rUpdate (gpAPI K) (gp\<lparr>gpMeta := ?m\<rparr>) w2 = (None, w')" and o: "res = zero_result" "ops = []"
    using run r get g gp(2,3)
    by (auto simp: GuardrailPolicy_Reconcile_def handleGuardrailDeletion_def Let_def contains_iff w2_def
        split: prod.splits option.splits)
  have "stPolicies (store w') = (stPolicies (store w))(req := updated_object ?m (gp\<lparr>gpMeta := ?m\<rparr>))"
    using gp.update_ok [OF u, of gp] gp(1) key w2 by simp
  moreover have "remote w' = remote w2" using remote_frame(2) [of "gp\<lparr>gpMeta := ?m\<rparr>" w2] u by simp
  moreover have "?gid \<noteq> [] \<Longrightarrow> fst (gDelete S (Some ?gid) w1) = None \<Longrightarrow> remote w2 = (remote w)(?gid := None)"
    using delete_ok [of ?gid w1 w2] facts by (simp add: w2_def) (metis prod.collapse)
  moreover have "?gid = [] \<Longrightarrow> remote w2 = remote w" using facts by (simp add: w2_def)
  ultimately show ?thesis using o gp(2) get by (simp add: updated_object_def remove_last Let_def)
qed

end

subsection \<open>An in-memory Bedrock\<close>

record guardrail_world = cluster +
  guardrails :: "(string \<times> GuardrailInput) list"

definition remote_guardrail :: "guardrail_world \<Rightarrow> string \<Rightarrow> GuardrailInput option" where
  "remote_guardrail w n = map_of (guardrails w) n"

text \<open>A new identifier is longer than all that are taken.\<close>

definition fresh_id :: "(string \<times> GuardrailInput) list \<Rightarrow> string" where
  "fresh_id gs = ''gr-'' @ replicate (sum_list (map (length \<circ> fst) gs)) CHR ''x''"

definition mem_bedrock :: "guardrail_world creator" where
  "mem_bedrock =
     \<lparr>gCreate = (\<lambda>i w.
        (case next_fault w of
           (Some e, w') \<Rightarrow> (Inl e, w')
         | (None, w') \<Rightarrow>
             (Inr (Some (fresh_id (guardrails w')), Some ''DRAFT''),
              w'\<lparr>guardrails := (fresh_id (guardrails w'), i) # guardrails w'\<rparr>))),
      gUpdate = (\<lambda>u w.
        (case next_fault w of
           (Some e, w') \<Rightarrow> (Inl e, w')
         | (None, w') \<Rightarrow>
             (case GuardrailIdentifier u of
                None \<Rightarrow> (Inl (ErrMsg ''missing identifier''), w')
              | Some n \<Rightarrow>
                  (if map_of (guardrails w') n = None then (Inl (ErrMsg ''ResourceNotFoundException''), w')
                   else (Inr (Some ''DRAFT''),
                         w'\<lparr>guardrails := (n, GuardrailInput.truncate u) # filter (\<lambda>g. fst g \<noteq> n) (guardrails w')\<rparr>))))),
      gDelete = (\<lambda>n w.
        (case next_fault w of
           (Some e, w') \<Rightarrow> (Some e, w')
         | (None, w') \<Rightarrow> (None, w'\<lparr>guardrails := filter (\<lambda>g. Some (fst g) \<noteq> n) (guardrails w')\<rparr>)))\<rparr>"

lemma fresh_id_new: "map_of gs (fresh_id gs) = None"
proof -
  have "fst g \<noteq> fresh_id gs" if "g \<in> set gs" for g
  proof -
    have "length (fst g) \<le> sum_list (map (length \<circ> fst) gs)"
      using that member_le_sum_list [of "length (fst g)" "map (length \<circ> fst) gs"] by force
    then have "length (fst g) < length (fresh_id gs)" by (simp add: fresh_id_def)
    then show ?thesis by auto
  qed
  then show ?thesis by (force simp: map_of_eq_None_iff)
qed

lemma map_of_filter_key: "map_of (filter (\<lambda>g. fst g \<noteq> n) gs) = (map_of gs)(n := None)"
  by (induction gs) (auto simp: fun_eq_iff)

lemma next_fault_guardrails: "next_fault w = (f, w') \<Longrightarrow> guardrails w' = guardrails w"
  by (auto simp: next_fault_def split: list.splits)

lemma remote_same: "guardrails w' = guardrails w \<Longrightarrow> remote_guardrail w' = remote_guardrail w"
  by (simp add: remote_guardrail_def fun_eq_iff)

interpretation memory_bedrock: guardrail_env "cluster_kube :: guardrail_world kube" objects mem_bedrock remote_guardrail
proof (intro guardrail_env.intro guardrail_env_axioms.intro guardrail_service.intro)
  show "kube_api (cluster_kube :: guardrail_world kube) objects" by unfold_locales
  fix w w' :: guardrail_world
  fix i u gid v n e
  show "gCreate mem_bedrock i w = (Inr (gid, v), w') \<Longrightarrow>
      \<exists>n. gid = Some n \<and> n \<noteq> [] \<and> remote_guardrail w n = None \<and> remote_guardrail w' = (remote_guardrail w)(n \<mapsto> i)"
    by (auto simp: mem_bedrock_def remote_guardrail_def fun_eq_iff fresh_id_new
        split: prod.splits option.splits dest!: next_fault_guardrails) (simp add: fresh_id_def)
  show "gUpdate mem_bedrock u w = (Inr v, w') \<Longrightarrow>
      \<exists>n. GuardrailIdentifier u = Some n \<and> remote_guardrail w n \<noteq> None
        \<and> remote_guardrail w' = (remote_guardrail w)(n \<mapsto> GuardrailInput.truncate u)"
    by (auto simp: mem_bedrock_def remote_guardrail_def fun_eq_iff map_of_filter_key
        split: prod.splits option.splits if_splits dest!: next_fault_guardrails)
  show "gDelete mem_bedrock (Some n) w = (None, w') \<Longrightarrow> remote_guardrail w' = (remote_guardrail w)(n := None)"
    by (auto simp: mem_bedrock_def remote_guardrail_def fun_eq_iff map_of_filter_key
        split: prod.splits option.splits dest!: next_fault_guardrails)
next
  fix w :: guardrail_world and i u n k base obj
  show "objects (snd (gCreate mem_bedrock i w)) = objects w"
    by (auto simp: mem_bedrock_def split: prod.splits option.splits dest: next_fault_objects)
  show "objects (snd (gUpdate mem_bedrock u w)) = objects w"
    by (auto simp: mem_bedrock_def split: prod.splits option.splits dest: next_fault_objects)
  show "objects (snd (gDelete mem_bedrock n w)) = objects w"
    by (auto simp: mem_bedrock_def split: prod.splits option.splits dest: next_fault_objects)
  show "remote_guardrail (snd (rGet (gpAPI cluster_kube) k w)) = remote_guardrail w"
    by (rule remote_same) (auto simp: mem_get_def split: prod.splits option.splits dest: next_fault_guardrails)
  show "remote_guardrail (snd (rUpdate (gpAPI cluster_kube) obj w)) = remote_guardrail w"
    by (rule remote_same)
      (auto simp: mem_update_def Let_def split: prod.splits option.splits dest: next_fault_guardrails)
  show "remote_guardrail (snd (rPatchStatus (gpAPI cluster_kube) base obj w)) = remote_guardrail w"
    by (rule remote_same) (auto simp: mem_patch_def split: prod.splits option.splits dest: next_fault_guardrails)
  show "remote_guardrail (snd (metaNow cluster_kube w)) = remote_guardrail w"
    by (rule remote_same) simp
qed

subsection \<open>Convergence over a faulty API server and a faulty Bedrock\<close>

definition guardrail_reconciler :: "guardrail_world GuardrailPolicyReconciler" where
  "guardrail_reconciler = \<lparr>gpClient = cluster_kube, gpBedrock = mem_bedrock\<rparr>"

lemma guardrail_reconciler_sel [simp]:
  "gpClient guardrail_reconciler = cluster_kube" "gpBedrock guardrail_reconciler = mem_bedrock"
  by (simp_all add: guardrail_reconciler_def)

definition guardrail_turn :: "NamespacedName \<Rightarrow> guardrail_world \<Rightarrow> guardrail_world" where
  "guardrail_turn req w = snd (snd (GuardrailPolicy_Reconcile guardrail_reconciler req w))"

text \<open>A live policy whose recorded identifier, if any, exists in Bedrock.\<close>

definition live_policy :: "NamespacedName \<Rightarrow> GuardrailPolicySpec \<Rightarrow> guardrail_world \<Rightarrow> bool" where
  "live_policy req spec w \<longleftrightarrow>
     (case stPolicies (objects w) req of
        None \<Rightarrow> False
      | Some gp \<Rightarrow> keyOf (gpMeta gp) = req \<and> gpSpec gp = spec \<and> IsZero (DeletionTimestamp (gpMeta gp))
          \<and> (GuardrailId (gpStatus gp) = [] \<or> remote_guardrail w (GuardrailId (gpStatus gp)) \<noteq> None))"

text \<open>The recorded guardrail is the one the policy asks for.\<close>

definition mirrored :: "NamespacedName \<Rightarrow> guardrail_world \<Rightarrow> bool" where
  "mirrored req w \<longleftrightarrow>
     (case stPolicies (objects w) req of
        None \<Rightarrow> False
      | Some gp \<Rightarrow> GuardrailId (gpStatus gp) \<noteq> []
          \<and> remote_guardrail w (GuardrailId (gpStatus gp)) = Some (wanted_guardrail gp))"

definition guardrail_rank :: "NamespacedName \<Rightarrow> guardrail_world \<Rightarrow> nat" where
  "guardrail_rank req w = 1 + length (faults w) +
     (case stPolicies (objects w) req of
        None \<Rightarrow> 0 | Some gp \<Rightarrow> if FinalizerName \<in> set (Finalizers (gpMeta gp)) then 0 else 1)"

lemma wanted_meta: "Name (gpMeta gp') = Name (gpMeta gp) \<Longrightarrow> gpSpec gp' = gpSpec gp \<Longrightarrow> wanted_guardrail gp' = wanted_guardrail gp"
  by (simp add: wanted_guardrail_def)

lemma policy_faults [simp]:
  "remote_guardrail (w\<lparr>faults := fs\<rparr>) = remote_guardrail w" "remote_guardrail (w\<lparr>clock := t\<rparr>) = remote_guardrail w"
  by (simp_all add: remote_guardrail_def fun_eq_iff)

text \<open>One sync: it succeeds, or it fails, using up an entry of the script and changing nothing.\<close>

lemma mem_sync_live:
  assumes "GuardrailId (gpStatus gp) = [] \<or> remote_guardrail w (GuardrailId (gpStatus gp)) \<noteq> None"
  obtains (synced) gid v w' where "syncGuardrail guardrail_reconciler gp w = (Inr (gid, v), w')"
      "objects w' = objects w" "length (faults w') \<le> length (faults w)"
  | (failed) e w' where "syncGuardrail guardrail_reconciler gp w = (Inl e, w')"
      "objects w' = objects w" "remote_guardrail w' = remote_guardrail w" "length (faults w') < length (faults w)"
proof (cases w rule: next_fault_cases)
  case quiet
  then have "\<exists>gid v w'. syncGuardrail guardrail_reconciler gp w = (Inr (gid, v), w') \<and> objects w' = objects w
      \<and> length (faults w') \<le> length (faults w)"
    using assms updateInput_wanted [of gp]
    by (auto simp: syncGuardrail_def createGuardrail_def updateGuardrail_def mem_bedrock_def remote_guardrail_def)
  then show ?thesis using synced by blast
next
  case (taken f fs)
  show ?thesis
  proof (cases f)
    case None
    then have "\<exists>gid v w'. syncGuardrail guardrail_reconciler gp w = (Inr (gid, v), w') \<and> objects w' = objects w
        \<and> length (faults w') \<le> length (faults w)"
      using assms updateInput_wanted [of gp] taken
      by (auto simp: syncGuardrail_def createGuardrail_def updateGuardrail_def mem_bedrock_def remote_guardrail_def)
    then show ?thesis using synced by blast
  next
    case (Some e)
    then have "\<exists>e w'. syncGuardrail guardrail_reconciler gp w = (Inl e, w') \<and> objects w' = objects w
        \<and> remote_guardrail w' = remote_guardrail w \<and> length (faults w') < length (faults w)"
      using taken by (simp add: syncGuardrail_def createGuardrail_def updateGuardrail_def mem_bedrock_def)
    then show ?thesis using failed by blast
  qed
qed

lemma guardrail_patch_live:
  assumes "stPolicies (objects w) req = Some gp" "keyOf (gpMeta gp) = req"
    and "w' = snd (rPatchStatus (gpAPI cluster_kube) gp (gp\<lparr>gpStatus := st\<rparr>) w)"
  obtains (written) "stPolicies (objects w') req = Some (gp\<lparr>gpStatus := st\<rparr>)"
      "remote_guardrail w' = remote_guardrail w" "length (faults w') \<le> length (faults w)"
  | (failed) "objects w' = objects w" "remote_guardrail w' = remote_guardrail w"
      "length (faults w') < length (faults w)"
proof -
  have stored: "stPolicies (objects w) (keyOf (gpMeta (gp\<lparr>gpStatus := st\<rparr>))) = Some gp" using assms by simp
  have same: "remote_guardrail w' = remote_guardrail w"
    unfolding assms(3) by (rule memory_bedrock.remote_frame(3))
  from stored show ?thesis
    by (cases rule: gp_patch_live [where base = gp]) (use assms same written failed in auto)
qed

lemma guardrail_turn_live:
  assumes live: "live_policy req spec w"
  shows "live_policy req spec (guardrail_turn req w)
    \<and> (mirrored req w \<longrightarrow> mirrored req (guardrail_turn req w))
    \<and> (mirrored req (guardrail_turn req w) \<or> guardrail_rank req (guardrail_turn req w) < guardrail_rank req w)"
proof -
  let ?K = "cluster_kube :: guardrail_world kube" and ?w' = "guardrail_turn req w"
  note defs = guardrail_turn_def GuardrailPolicy_Reconcile_def Let_def
  note goals = live_policy_def mirrored_def guardrail_rank_def
  obtain gp where gp: "stPolicies (objects w) req = Some gp" "keyOf (gpMeta gp) = req" "gpSpec gp = spec"
    "IsZero (DeletionTimestamp (gpMeta gp))"
    and id: "GuardrailId (gpStatus gp) = [] \<or> remote_guardrail w (GuardrailId (gpStatus gp)) \<noteq> None"
    using live by (auto simp: live_policy_def split: option.splits)
  have same: "live_policy req spec v \<and> (mirrored req w \<longrightarrow> mirrored req v) \<and> (mirrored req v \<or> guardrail_rank req v < guardrail_rank req w)"
    if "objects v = objects w" "remote_guardrail v = remote_guardrail w" "length (faults v) < length (faults w)" for v
    using that live gp by (simp add: goals)
  from gp(1,2) show ?thesis
  proof (cases rule: gp_get_live)
    case (failed e w1)
    then have "?w' = w1" by (simp add: defs)
    moreover have "remote_guardrail w1 = remote_guardrail w"
      using failed memory_bedrock.remote_frame(1) [of req w] by simp
    ultimately show ?thesis using same failed by simp
  next
    case (found w1)
    note get = found
    have w1: "remote_guardrail w1 = remote_guardrail w"
      using found memory_bedrock.remote_frame(1) [of req w] by simp
    show ?thesis
    proof (cases "FinalizerName \<in> set (Finalizers (gpMeta gp))")
      case False
      let ?gp = "gp\<lparr>gpMeta := addFinalizer ?K (gpMeta gp) FinalizerName\<rparr>"
      have m: "addFinalizer ?K (gpMeta gp) FinalizerName = (gpMeta gp)\<lparr>Finalizers := Finalizers (gpMeta gp) @ [FinalizerName]\<rparr>"
        using False by (simp add: mem.add_eq)
      have r: "remote_guardrail (snd (rUpdate (gpAPI ?K) ?gp w1)) = remote_guardrail w"
        using memory_bedrock.remote_frame(2) [of ?gp w1] w1 by simp
      have "stPolicies (objects w1) (keyOf (gpMeta ?gp)) = Some gp" "gpSpec ?gp = gpSpec gp"
        "IsZero (DeletionTimestamp (gpMeta ?gp))"
        using get(2) gp by (simp_all add: m)
      then show ?thesis
      proof (cases rule: gp_update_live)
        case (written w2)
        then have "?w' = w2" using get gp False by (simp add: defs)
        with get written gp False r id show ?thesis
          by (auto simp: m goals wanted_guardrail_def)
      next
        case (failed e w2)
        then have "?w' = w2" using get gp False by (simp add: defs)
        with get failed same r show ?thesis by simp
      qed
    next
      case True
      let ?gp = "gp\<lparr>gpStatus := (gpStatus gp)\<lparr>gpObservedGeneration := Generation (gpMeta gp)\<rparr>\<rparr>"
      have "GuardrailId (gpStatus ?gp) = [] \<or> remote_guardrail w1 (GuardrailId (gpStatus ?gp)) \<noteq> None"
        using id w1 by simp
      then show ?thesis
      proof (cases rule: mem_sync_live)
        case (failed e w2)
        let ?st = "guardrail_status gp (Inl e) (clock w2)" and ?w3 = "w2\<lparr>clock := clock w2 + 1\<rparr>"
        have run: "?w' = snd (rPatchStatus (gpAPI ?K) gp (gp\<lparr>gpStatus := ?st\<rparr>) ?w3)"
          using get failed gp True by (simp add: defs split: prod.split option.split)
        have st: "GuardrailId ?st = GuardrailId (gpStatus gp)" by (simp add: guardrail_status_def Let_def)
        have "stPolicies (objects ?w3) req = Some gp" using failed get gp by simp
        from this gp(2) run show ?thesis
        proof (cases rule: guardrail_patch_live)
          case written
          then show ?thesis using get failed gp w1 id True by (auto simp: goals st)
        next
          case failed': failed
          then show ?thesis using get failed w1 by (intro same) simp_all
        qed
      next
        case (synced gid v w2)
        let ?st = "guardrail_status gp (Inr (gid, v)) (clock w2)" and ?w3 = "w2\<lparr>clock := clock w2 + 1\<rparr>"
        have run: "?w' = snd (rPatchStatus (gpAPI ?K) gp (gp\<lparr>gpStatus := ?st\<rparr>) ?w3)"
          using get synced gp True by (simp add: defs split: prod.split option.split)
        have st: "GuardrailId ?st = gid" by (simp add: guardrail_status_def Let_def)
        have rem: "gid \<noteq> [] \<and> remote_guardrail w2 = (remote_guardrail w)(gid \<mapsto> wanted_guardrail gp)
          \<and> (GuardrailId (gpStatus gp) = [] \<or> gid = GuardrailId (gpStatus gp))"
          using memory_bedrock.sync_ok [OF synced(1)] w1 by (auto split: if_splits)
        have "stPolicies (objects ?w3) req = Some gp" using synced get gp by simp
        from this gp(2) run show ?thesis
        proof (cases rule: guardrail_patch_live)
          case written
          then show ?thesis using get synced gp rem by (simp add: goals st)
        next
          case failed
          then show ?thesis using get synced gp rem True by (auto simp: goals)
        qed
      qed
    qed
  qed
qed

interpretation guardrail_loop: converging "guardrail_turn req" "live_policy req spec" "mirrored req" "guardrail_rank req"
  for req spec
proof unfold_locales
  fix w assume live: "live_policy req spec w"
  note turn = guardrail_turn_live [OF live]
  show "live_policy req spec (guardrail_turn req w)" by (rule turn [THEN conjunct1])
  show "mirrored req (guardrail_turn req w) \<or> guardrail_rank req (guardrail_turn req w) < guardrail_rank req w"
    by (rule turn [THEN conjunct2, THEN conjunct2])
  show "mirrored req w \<Longrightarrow> mirrored req (guardrail_turn req w)"
    by (rule turn [THEN conjunct2, THEN conjunct1, THEN mp])
qed (simp add: guardrail_rank_def)

subsection \<open>A concrete policy\<close>

definition no_secrets :: "string list \<Rightarrow> time option \<Rightarrow> string \<Rightarrow> GuardrailPolicy" where
  "no_secrets fs del gid =
     \<lparr>gpMeta = \<lparr>Name = ''no-secrets'', Namespace = [], Generation = 1, DeletionTimestamp = del, Finalizers = fs\<rparr>,
      gpSpec = \<lparr>gpDescription = ''Blocks secrets'', BlockedInputMessage = [], BlockedOutputsMessage = ''Blocked.'',
        ContentPolicy = None,
        SensitiveInformationPolicy = Some \<lparr>PIIEntities = [\<lparr>piiType = ''PASSWORD'', piiAction = PIIActionBlock\<rparr>]\<rparr>,
        TopicPolicy = None, WordPolicy = None\<rparr>,
      gpStatus = \<lparr>GuardrailId = gid, GuardrailVersion = [], gpConditions = [], gpObservedGeneration = 0\<rparr>\<rparr>"

definition policy_req :: NamespacedName where
  "policy_req = \<lparr>nnNamespace = [], nnName = ''no-secrets''\<rparr>"

definition policy_world :: "GuardrailPolicy \<Rightarrow> go_error option list \<Rightarrow> (string \<times> GuardrailInput) list \<Rightarrow> guardrail_world" where
  "policy_world gp fs gs =
     \<lparr>objects = \<lparr>stEndpoints = Map.empty, stTemplates = Map.empty, stPolicies = [policy_req \<mapsto> gp],
        stServices = Map.empty\<rparr>, clock = 20, faults = fs, guardrails = gs\<rparr>"

lemmas policy_defs = no_secrets_def policy_req_def policy_world_def keyOf_def IsZero_def FinalizerName_def

lemmas policy_step_defs = GuardrailPolicy_Reconcile_def mem_get_def mem_patch_def mem_update_def next_fault_def
  syncGuardrail_def createGuardrail_def updateGuardrail_def createInput_wanted mem_bedrock_def
  handleGuardrailDeletion_def guardrail_status_def ToString_def fresh_id_def Let_def

lemma policy_env: "guardrail_env (gpClient guardrail_reconciler) objects (gpBedrock guardrail_reconciler) remote_guardrail"
  by (simp add: memory_bedrock.guardrail_env_axioms)

lemma policy_sync_run:
  "fst (GuardrailPolicy_Reconcile guardrail_reconciler policy_req
      (policy_world (no_secrets [FinalizerName] None []) [] []))
     = (zero_result\<lparr>RequeueAfter := requeueSteadyState\<rparr>, None)"
  by (simp add: policy_step_defs policy_defs)

lemma policy_deletion_run:
  "fst (GuardrailPolicy_Reconcile guardrail_reconciler policy_req
      (policy_world (no_secrets [FinalizerName] (Some 5) ''gr-1'') [] gs)) = (zero_result, None)"
  by (simp add: policy_step_defs policy_defs updated_object_def mem.remove_eq)

subsection \<open>Properties\<close>

text \<open>C12: the two hand-written inputs agree: UpdateGuardrail sends, under the recorded identifier,
  exactly the configuration that CreateGuardrail would send; every list of the spec arrives complete
  and in order, a policy section is sent exactly when the spec has it, and a blocked-message override
  exactly when it is not empty (the default of DefaultBlockedInput is never sent).\<close>

theorem guardrail_inputs_agree:
  "GuardrailInput.truncate (updateInput gp) = createInput gp
   \<and> GuardrailIdentifier (updateInput gp) = Some (GuardrailId (gpStatus gp))
   \<and> inName (createInput gp) = Some (Name (gpMeta gp))
   \<and> inBlockedInputMessaging (createInput gp) =
       (if BlockedInputMessage (gpSpec gp) = [] then None else DefaultBlockedInput (BlockedInputMessage (gpSpec gp)))
   \<and> inBlockedOutputsMessaging (createInput gp) =
       (if BlockedOutputsMessage (gpSpec gp) = [] then None else Some (BlockedOutputsMessage (gpSpec gp)))
   \<and> map_option (map (\<lambda>f. (fcType f, fcInputStrength f, fcOutputStrength f))) (inContentPolicy (createInput gp)) =
       map_option (\<lambda>p. map (\<lambda>f. (cfType f, InputStrength (cfConfig f), OutputStrength (cfConfig f))) (Filters p))
         (ContentPolicy (gpSpec gp))
   \<and> map_option (map (\<lambda>t. (ToString (tcName t), ToString (tcDefinition t), tcExamples t))) (inTopicPolicy (createInput gp)) =
       map_option (\<lambda>p. map (\<lambda>t. (dtName t, dtDefinition t, dtExamples t)) (Topics p)) (TopicPolicy (gpSpec gp))
   \<and> map_option (\<lambda>p. (map ToString (WordsConfig p), ManagedWordListsConfig p)) (inWordPolicy (createInput gp)) =
       map_option (\<lambda>p. (Words p, ManagedWordLists p)) (WordPolicy (gpSpec gp))
   \<and> map_option (map (\<lambda>e. (peType e, peAction e = ''BLOCK''))) (inSensitivePolicy (createInput gp)) =
       map_option (\<lambda>p. map (\<lambda>e. (piiType e, piiAction e = PIIActionBlock)) (PIIEntities p))
         (SensitiveInformationPolicy (gpSpec gp))"
proof -
  have block: "action_text a = ''BLOCK'' \<longleftrightarrow> a = PIIActionBlock" for a by (cases a) simp_all
  show ?thesis
    unfolding createInput_wanted
    by (simp add: updateInput_wanted wanted_guardrail_def DefaultBlockedInput_def option.map_comp o_def
        buildContentPolicy_def buildTopicPolicy_def buildWordPolicy_def buildPIIPolicy_def ToString_def block)
qed

text \<open>C13: after a reconciliation of a live policy that returns no error, either the guardrail stored
  in Bedrock under the recorded, non-empty identifier is exactly the one the policy asks for (a new
  identifier when none was recorded, else the same one), every other guardrail is as before, the
  recorded version is the one that Bedrock answered, and the condition says Synced with both, or the identifier and version are as before, the condition says SyncFailed,
  the error is counted and the retry comes after ten seconds.\<close>

theorem GuardrailPolicy_Reconcile_syncs:
  assumes "guardrail_env (gpClient r) store (gpBedrock r) remote"
    and "stPolicies (store w) req = Some gp" "IsZero (DeletionTimestamp (gpMeta gp))"
      "FinalizerName \<in> set (Finalizers (gpMeta gp))"
    and "GuardrailPolicy_Reconcile r req w = ((res, None), ops, w')"
  shows "\<exists>st c. stPolicies (store w') = (stPolicies (store w))(req \<mapsto> gp\<lparr>gpStatus := st\<rparr>)
    \<and> gpObservedGeneration st = Generation (gpMeta gp)
    \<and> condition_of ConditionGuardrailSynced (gpConditions st) = Some c
    \<and> (if cStatus c = ConditionTrue
       then GuardrailId st \<noteq> [] \<and> remote w' = (remote w)(GuardrailId st \<mapsto> wanted_guardrail gp)
         \<and> (if GuardrailId (gpStatus gp) = [] then remote w (GuardrailId st) = None
            else GuardrailId st = GuardrailId (gpStatus gp))
         \<and> (let w1 = snd (rGet (gpAPI (gpClient r)) req w) in
            if GuardrailId (gpStatus gp) = []
            then \<exists>i v. fst (gCreate (gpBedrock r) (createInput gp) w1) = Inr (i, v)
              \<and> GuardrailId st = ToString i \<and> GuardrailVersion st = ToString v
            else \<exists>v. fst (gUpdate (gpBedrock r) (updateInput gp) w1) = Inr v \<and> GuardrailVersion st = ToString v)
         \<and> cReason c = ''Synced'' \<and> RequeueAfter res = 300 * 10 ^ 9 \<and> ops = []
         \<and> cMessage c = ''guardrail '' @ GuardrailId st @ '' version '' @ GuardrailVersion st @ '' synced to Bedrock''
       else GuardrailId st = GuardrailId (gpStatus gp) \<and> GuardrailVersion st = GuardrailVersion (gpStatus gp)
         \<and> cReason c = ''SyncFailed'' \<and> RequeueAfter res = 10 * 10 ^ 9
         \<and> ops = [MInc ReconcileErrorsTotal [''guardrailpolicy'', ''bedrock_sync'']])"
proof -
  let ?w1 = "snd (rGet (gpAPI (gpClient r)) req w)"
  obtain synced now where answer: "synced = fst (syncGuardrail r gp ?w1)" and post:
    "stPolicies (store w') = (stPolicies (store w))(req \<mapsto> gp\<lparr>gpStatus := guardrail_status gp synced now\<rparr>)"
    "case synced of
         Inl err \<Rightarrow> res = zero_result\<lparr>RequeueAfter := requeueTransient\<rparr>
           \<and> ops = [MInc ReconcileErrorsTotal [''guardrailpolicy'', ''bedrock_sync'']]
       | Inr (gid, v) \<Rightarrow> res = zero_result\<lparr>RequeueAfter := requeueSteadyState\<rparr> \<and> ops = []
           \<and> gid \<noteq> [] \<and> remote w' = (remote w)(gid \<mapsto> wanted_guardrail gp)
           \<and> (if GuardrailId (gpStatus gp) = [] then remote w gid = None
              else gid = GuardrailId (gpStatus gp) \<and> remote w gid \<noteq> None)"
    using guardrail_env.guardrail_synced [OF assms(1,5) refl refl assms(2-4)] by blast
  let ?st = "guardrail_status gp synced now" and ?n = "synced_condition synced now"
  let ?c = "merge_condition (condition_of ConditionGuardrailSynced (gpConditions (gpStatus gp))) ?n"
  have ty: "cType ?n = ConditionGuardrailSynced" by (simp add: synced_condition_def split: sum.split prod.split)
  have cs: "gpConditions ?st = setCondition (gpConditions (gpStatus gp)) ?n"
    by (simp add: guardrail_status_def Let_def split: sum.split prod.split)
  have c: "condition_of ConditionGuardrailSynced (gpConditions ?st) = Some ?c"
    using conds.put_same [of ?n "gpConditions (gpStatus gp)"] unfolding cs ty .
  have version: "if GuardrailId (gpStatus gp) = []
      then \<exists>i ver. fst (gCreate (gpBedrock r) (createInput gp) ?w1) = Inr (i, ver) \<and> gid = ToString i \<and> v = ToString ver
      else \<exists>ver. fst (gUpdate (gpBedrock r) (updateInput gp) ?w1) = Inr ver \<and> v = ToString ver"
    if "synced = Inr (gid, v)" for gid v
    using answer that by (intro sync_version) simp
  have gen: "gpObservedGeneration ?st = Generation (gpMeta gp)"
    by (simp add: guardrail_status_def Let_def split: sum.split prod.split)
  show ?thesis
  proof (cases synced)
    case (Inl e)
    then have "GuardrailId ?st = GuardrailId (gpStatus gp)" "GuardrailVersion ?st = GuardrailVersion (gpStatus gp)"
      "cStatus ?c = ConditionFalse" "cReason ?c = ''SyncFailed''" "RequeueAfter res = 10 * 10 ^ 9"
      "ops = [MInc ReconcileErrorsTotal [''guardrailpolicy'', ''bedrock_sync'']]"
      using post(2) by (simp_all add: guardrail_status_def synced_condition_def requeue_defs Let_def)
    then show ?thesis using post(1) gen c by (intro exI [of _ ?st] exI [of _ ?c]) simp
  next
    case (Inr a)
    then obtain gid v where s: "synced = Inr (gid, v)" by (cases a) simp
    then have "GuardrailId ?st = gid" "GuardrailVersion ?st = v"
      "cStatus ?c = ConditionTrue" "cReason ?c = ''Synced''" "RequeueAfter res = 300 * 10 ^ 9" "ops = []"
      "cMessage ?c = ''guardrail '' @ gid @ '' version '' @ v @ '' synced to Bedrock''"
      using post(2) by (simp_all add: guardrail_status_def synced_condition_def requeue_defs Let_def)
    then show ?thesis using post gen c version [OF s] s
      by (intro exI [of _ ?st] exI [of _ ?c]) (simp add: Let_def split: if_splits)
  qed
qed

theorem GuardrailPolicy_Reconcile_syncs_witness:
  "\<exists>st. stPolicies (objects (snd (snd (GuardrailPolicy_Reconcile guardrail_reconciler policy_req
        (policy_world (no_secrets [FinalizerName] None []) [] []))))) policy_req
      = Some ((no_secrets [FinalizerName] None [])\<lparr>gpStatus := st\<rparr>) \<and> gpObservedGeneration st = 1"
proof -
  let ?gp = "no_secrets [FinalizerName] None []"
  have pre: "stPolicies (objects (policy_world ?gp [] [])) policy_req = Some ?gp"
    "IsZero (DeletionTimestamp (gpMeta ?gp))" "FinalizerName \<in> set (Finalizers (gpMeta ?gp))"
    by (simp_all add: policy_defs)
  obtain ops w' where run: "GuardrailPolicy_Reconcile guardrail_reconciler policy_req (policy_world ?gp [] [])
      = ((zero_result\<lparr>RequeueAfter := requeueSteadyState\<rparr>, None), ops, w')"
    using policy_sync_run by (metis prod.collapse)
  from GuardrailPolicy_Reconcile_syncs [OF policy_env pre run] run show ?thesis
    by (auto simp: no_secrets_def)
qed






end
