(* ===== verification/Regexp.thy ===== *)
theory Regexp
  imports Prelude
begin

section \<open>Regular expressions (package regexp)\<close>

text \<open>
  The part of Go's regexp package that the webhook and the schema patterns use: byte classes,
  literals, concatenation, alternation, repetition, anchored at both ends. \<open>MatchString\<close> is a
  derivative matcher, so it computes; \<open>lang\<close> is the meaning, and \<open>MatchString_iff\<close> says that they
  agree. A dot matches any byte but a newline: the bytes of one UTF-8 character never include one,
  so on whole strings this is what the package does rune by rune.
\<close>

datatype rx =
    Zero
  | One
  | Cls "char \<Rightarrow> bool"
  | Seq rx rx
  | Alt rx rx
  | Star rx

subsection \<open>Meaning\<close>

inductive lang :: "rx \<Rightarrow> string \<Rightarrow> bool" where
  lang_One: "lang One []"
| lang_Cls: "p c \<Longrightarrow> lang (Cls p) [c]"
| lang_Seq: "lang r s \<Longrightarrow> lang r' s' \<Longrightarrow> lang (Seq r r') (s @ s')"
| lang_Alt1: "lang r s \<Longrightarrow> lang (Alt r r') s"
| lang_Alt2: "lang r' s \<Longrightarrow> lang (Alt r r') s"
| lang_Star_Nil: "lang (Star r) []"
| lang_Star_Cons: "lang r s \<Longrightarrow> lang (Star r) s' \<Longrightarrow> lang (Star r) (s @ s')"

inductive_cases lang_SeqE: "lang (Seq r r') s"
inductive_cases lang_StarE: "lang (Star r) s"

inductive_simps lang_simps [simp]:
  "lang Zero s"
  "lang One s"
  "lang (Cls p) s"
  "lang (Alt r r') s"

lemma lang_Seq_iff: "lang (Seq r r') s \<longleftrightarrow> (\<exists>a b. s = a @ b \<and> lang r a \<and> lang r' b)"
  by (blast elim: lang_SeqE intro: lang_Seq)

lemma lang_Seq_Cls [simp]: "lang (Seq (Cls p) r) s \<longleftrightarrow> (\<exists>c t. s = c # t \<and> p c \<and> lang r t)"
proof
  show "lang (Seq (Cls p) r) s \<Longrightarrow> \<exists>c t. s = c # t \<and> p c \<and> lang r t"
    by (auto simp: lang_Seq_iff)
  show "\<exists>c t. s = c # t \<and> p c \<and> lang r t \<Longrightarrow> lang (Seq (Cls p) r) s"
    using lang_Seq [OF lang_Cls] by fastforce
qed

subsection \<open>Matching\<close>

primrec nullable :: "rx \<Rightarrow> bool" where
  "nullable Zero = False"
| "nullable One = True"
| "nullable (Cls p) = False"
| "nullable (Seq r r') = (nullable r \<and> nullable r')"
| "nullable (Alt r r') = (nullable r \<or> nullable r')"
| "nullable (Star r) = True"

primrec deriv :: "char \<Rightarrow> rx \<Rightarrow> rx" where
  "deriv c Zero = Zero"
| "deriv c One = Zero"
| "deriv c (Cls p) = (if p c then One else Zero)"
| "deriv c (Seq r r') =
     (if nullable r then Alt (Seq (deriv c r) r') (deriv c r') else Seq (deriv c r) r')"
| "deriv c (Alt r r') = Alt (deriv c r) (deriv c r')"
| "deriv c (Star r) = Seq (deriv c r) (Star r)"

definition MatchString :: "rx \<Rightarrow> string \<Rightarrow> bool" where
  "MatchString r s = nullable (fold deriv s r)"

lemma nullable_iff: "nullable r \<longleftrightarrow> lang r []"
  by (induction r) (auto simp: lang_Seq_iff intro: lang_Star_Nil)

lemma lang_Star_split:
  "lang (Star r) (c # s) \<longleftrightarrow> (\<exists>a b. s = a @ b \<and> lang r (c # a) \<and> lang (Star r) b)"
proof
  have "lang q t \<Longrightarrow> q = Star r \<Longrightarrow> t = c # s \<Longrightarrow> \<exists>a b. s = a @ b \<and> lang r (c # a) \<and> lang (Star r) b" for q t
  proof (induction arbitrary: s rule: lang.induct)
    case (lang_Star_Cons r' u v)
    then show ?case by (cases u) auto
  qed auto
  then show "lang (Star r) (c # s) \<Longrightarrow> \<exists>a b. s = a @ b \<and> lang r (c # a) \<and> lang (Star r) b" by blast
  show "\<exists>a b. s = a @ b \<and> lang r (c # a) \<and> lang (Star r) b \<Longrightarrow> lang (Star r) (c # s)"
    using lang_Star_Cons [of r "c # _"] by fastforce
qed

lemma deriv_iff: "lang (deriv c r) s \<longleftrightarrow> lang r (c # s)"
proof (induction r arbitrary: s)
  case (Seq r r')
  then show ?case
    by (auto simp: lang_Seq_iff nullable_iff Cons_eq_append_conv)
next
  case (Star r)
  then show ?case by (simp add: lang_Seq_iff lang_Star_split)
qed auto

theorem MatchString_iff: "MatchString r s \<longleftrightarrow> lang r s"
proof -
  have "lang (fold deriv s r) t \<longleftrightarrow> lang r (s @ t)" for t
    by (induction s arbitrary: r) (simp_all add: deriv_iff)
  then show ?thesis by (simp add: MatchString_def nullable_iff)
qed

subsection \<open>Derived forms\<close>

definition lit :: "string \<Rightarrow> rx" where
  "lit s = foldr (\<lambda>c. Seq (Cls (\<lambda>d. d = c))) s One"

definition rep :: "nat \<Rightarrow> rx \<Rightarrow> rx" where
  "rep n r = ((Seq r) ^^ n) One"

definition plus :: "rx \<Rightarrow> rx" where
  "plus r = Seq r (Star r)"

definition opt :: "rx \<Rightarrow> rx" where
  "opt r = Alt r One"

definition digit :: "char \<Rightarrow> bool" where
  "digit c = byte_in CHR ''0'' CHR ''9'' c"

definition lower :: "char \<Rightarrow> bool" where
  "lower c = byte_in CHR ''a'' CHR ''z'' c"

definition not_newline :: "char \<Rightarrow> bool" where
  "not_newline c \<longleftrightarrow> c \<noteq> CHR 0x0A"

lemma lang_lit [simp]: "lang (lit t) s \<longleftrightarrow> s = t"
  unfolding lit_def by (induction t arbitrary: s) auto

lemma lang_Seq_lit: "lang (Seq (lit t) r) s \<longleftrightarrow> (\<exists>b. s = t @ b \<and> lang r b)"
  by (simp add: lang_Seq_iff)

lemma lang_star_Cls [simp]: "lang (Star (Cls p)) s \<longleftrightarrow> list_all p s"
  by (induction s) (auto simp: lang_Star_split intro: lang_Star_Nil)

lemma lang_plus_Cls [simp]: "lang (plus (Cls p)) s \<longleftrightarrow> s \<noteq> [] \<and> list_all p s"
  by (cases s) (auto simp: plus_def)

lemma lang_rep_Cls [simp]: "lang (rep n (Cls p)) s \<longleftrightarrow> length s = n \<and> list_all p s"
  unfolding rep_def
proof (induction n arbitrary: s)
  case (Suc n)
  then show ?case by (cases s) auto
qed auto

lemma lang_opt [simp]: "lang (opt r) s \<longleftrightarrow> s = [] \<or> lang r s"
  by (auto simp: opt_def)

end
