(* ===== verification/Webhook.thy ===== *)
theory Webhook
  imports Api_Types Regexp Pricing
begin

section \<open>Admission (internal/webhook/modelendpoint\_webhook.go and the schema markers)\<close>

text \<open>
  The validating and the defaulting webhook for ModelEndpoints, and next to them the schema that the
  kubebuilder markers of api/v1alpha1 declare, which the API server checks first. The decoder of
  controller-runtime is the environment: a request is the result of DecodeRaw on its object.
\<close>

subsection \<open>The validator\<close>

definition validRegions :: "string list" where
  "validRegions =
     [''us-east-1'', ''us-east-2'', ''us-west-2'', ''eu-west-1'', ''eu-west-2'', ''eu-west-3'',
      ''eu-central-1'', ''eu-north-1'', ''ap-southeast-1'', ''ap-southeast-2'', ''ap-northeast-1'',
      ''ap-northeast-2'', ''ap-south-1'', ''ca-central-1'', ''sa-east-1'', ''us-gov-west-1'']"

definition knownModelPrefixes :: "string list" where
  "knownModelPrefixes =
     [''anthropic.'', ''amazon.'', ''meta.'', ''mistral.'', ''cohere.'', ''ai21.'', ''stability.'', ''writer.'']"

text \<open>\<open>^arn:aws[a-z-]*:iam::\d{12}:role/.+$\<close>\<close>

definition irsaArnPattern :: rx where
  "irsaArnPattern =
     Seq (lit ''arn:aws'') (Seq (Star (Cls (\<lambda>c. lower c \<or> c = CHR ''-''))) (Seq (lit '':iam::'')
       (Seq (rep 12 (Cls digit)) (Seq (lit '':role/'') (plus (Cls not_newline))))))"

definition validateRegion :: "string \<Rightarrow> go_error option" where
  "validateRegion region =
     (if region \<notin> set validRegions
      then Some (ErrMsg (''spec.region '' @ go_quote region @ '' is not a known Bedrock-enabled AWS region''))
      else None)"

definition has_prefix :: "string \<Rightarrow> string \<Rightarrow> bool" where
  "has_prefix modelId p \<longleftrightarrow> length modelId > length p \<and> take (length p) modelId = p"

fun check_prefixes :: "string list \<Rightarrow> string \<Rightarrow> bool" where
  "check_prefixes [] modelId = False"
| "check_prefixes (p # ps) modelId = (if has_prefix modelId p then True else check_prefixes ps modelId)"

definition validateModelId :: "string \<Rightarrow> go_error option" where
  "validateModelId modelId =
     (if check_prefixes knownModelPrefixes modelId then None
      else Some (ErrMsg (''spec.modelId '' @ go_quote modelId
        @ '' does not start with a known Bedrock vendor prefix (anthropic., amazon., meta., etc.)'')))"

definition validateBudget :: "BudgetSpec \<Rightarrow> go_error option" where
  "validateBudget budget =
     (if Daily budget = [] \<and> Monthly budget = []
      then Some (ErrMsg ''spec.costBudget is present but both daily and monthly are empty; set at least one'')
      else None)"

definition validateRateLimit :: "RateLimitSpec \<Rightarrow> go_error option" where
  "validateRateLimit rl =
     (if RequestsPerMinute rl < 1 \<or> RequestsPerMinute rl > 3600
      then Some (ErrMsg (''spec.rateLimit.requestsPerMinute must be between 1 and 3600, got ''
        @ show_int (RequestsPerMinute rl)))
      else None)"

definition validateModelEndpoint :: "ModelEndpoint \<Rightarrow> go_error option" where
  "validateModelEndpoint ep =
     (case validateRegion (Region (epSpec ep)) of Some err \<Rightarrow> Some err | None \<Rightarrow>
      (case validateModelId (ModelId (epSpec ep)) of Some err \<Rightarrow> Some err | None \<Rightarrow>
       (if \<not> MatchString irsaArnPattern (IRSARoleArn (epSpec ep))
        then Some (ErrMsg (''spec.irsaRoleArn '' @ go_quote (IRSARoleArn (epSpec ep))
          @ '' does not look like a valid IAM role ARN; expected arn:aws:iam::<account>:role/<name>''))
        else
         (case (case CostBudget (epSpec ep) of None \<Rightarrow> None | Some b \<Rightarrow> validateBudget b) of
            Some err \<Rightarrow> Some err
          | None \<Rightarrow> (case RateLimit (epSpec ep) of None \<Rightarrow> None | Some rl \<Rightarrow> validateRateLimit rl)))))"

text \<open>
  admission.Response: an error with its HTTP code, a denial or an allowance with a message, or the
  patch from the raw object to the one given.
\<close>

datatype Response =
    Errored int go_error
  | Denied string
  | Allowed string
  | PatchTo ModelEndpoint

definition Validator_Handle :: "go_error + ModelEndpoint \<Rightarrow> Response" where
  "Validator_Handle req =
     (case req of
        Inl err \<Rightarrow> Errored 400 (Wrapf ''decoding ModelEndpoint'' err)
      | Inr ep \<Rightarrow>
          (case validateModelEndpoint ep of
             Some err \<Rightarrow> Denied (error_text err)
           | None \<Rightarrow> Allowed ''''))"

subsection \<open>The defaulter\<close>

definition apply_defaults :: "ModelEndpoint \<Rightarrow> ModelEndpoint" where
  "apply_defaults ep =
     (let spec = epSpec ep;
          spec = (if epMaxTokens spec = None then spec\<lparr>epMaxTokens := Some 4096\<rparr> else spec);
          spec = (if RateLimit spec = None then spec\<lparr>RateLimit := Some \<lparr>RequestsPerMinute = 60\<rparr>\<rparr> else spec)
      in ep\<lparr>epSpec := spec\<rparr>)"

text \<open>json.Marshal fails on no ModelEndpoint, so the 500 branch of the source is unreachable.\<close>

definition Defaulter_Handle :: "go_error + ModelEndpoint \<Rightarrow> Response" where
  "Defaulter_Handle req =
     (case req of Inl err \<Rightarrow> Errored 400 err | Inr ep \<Rightarrow> PatchTo (apply_defaults ep))"

subsection \<open>The schema of the markers\<close>

text \<open>\<open>^[a-z]{2}-[a-z]+-\d+$\<close> and \<open>^arn:aws:iam::\d{12}:role/.+$\<close>\<close>

definition crdRegionPattern :: rx where
  "crdRegionPattern =
     Seq (rep 2 (Cls lower)) (Seq (lit ''-'') (Seq (plus (Cls lower)) (Seq (lit ''-'') (plus (Cls digit)))))"

definition crdArnPattern :: rx where
  "crdArnPattern =
     Seq (lit ''arn:aws:iam::'') (Seq (rep 12 (Cls digit)) (Seq (lit '':role/'') (plus (Cls not_newline))))"

text \<open>\<open>^\d+(\.\d{1,2})?$\<close>\<close>

definition crdMoneyPattern :: rx where
  "crdMoneyPattern =
     Seq (plus (Cls digit)) (opt (Seq (lit ''.'') (Seq (Cls digit) (opt (Cls digit)))))"

text \<open>Lengths in the schema count characters: the bytes that do not continue a UTF-8 sequence.\<close>

definition char_count :: "string \<Rightarrow> nat" where
  "char_count s = length (filter (\<lambda>c. \<not> (128 \<le> (of_char c :: nat) \<and> (of_char c :: nat) < 192)) s)"

definition crd_budget_ok :: "BudgetSpec \<Rightarrow> bool" where
  "crd_budget_ok b \<longleftrightarrow> (Daily b = [] \<or> MatchString crdMoneyPattern (Daily b))
     \<and> (Monthly b = [] \<or> MatchString crdMoneyPattern (Monthly b))"

definition crd_rate_ok :: "RateLimitSpec \<Rightarrow> bool" where
  "crd_rate_ok rl \<longleftrightarrow> 1 \<le> RequestsPerMinute rl \<and> RequestsPerMinute rl \<le> 3600"

definition crd_spec_ok :: "ModelEndpointSpec \<Rightarrow> bool" where
  "crd_spec_ok spec \<longleftrightarrow> 1 \<le> char_count (ModelId spec) \<and> char_count (ModelId spec) \<le> 256
     \<and> MatchString crdRegionPattern (Region spec) \<and> MatchString crdArnPattern (IRSARoleArn spec)
     \<and> (case epMaxTokens spec of None \<Rightarrow> True | Some n \<Rightarrow> 1 \<le> n \<and> n \<le> 131072)
     \<and> (case CostBudget spec of None \<Rightarrow> True | Some b \<Rightarrow> crd_budget_ok b)
     \<and> (case RateLimit spec of None \<Rightarrow> True | Some rl \<Rightarrow> crd_rate_ok rl)"

subsection \<open>Characterisations\<close>

definition is_role_arn :: "string \<Rightarrow> string \<Rightarrow> string \<Rightarrow> string \<Rightarrow> bool" where
  "is_role_arn s part account name \<longleftrightarrow>
     s = ''arn:aws'' @ part @ '':iam::'' @ account @ '':role/'' @ name
     \<and> list_all (\<lambda>c. lower c \<or> c = CHR ''-'') part
     \<and> length account = 12 \<and> list_all digit account \<and> name \<noteq> [] \<and> list_all not_newline name"

lemma role_shape:
  "lang (Seq (rep k (Cls q)) (Seq (lit t) (plus (Cls r)))) s \<longleftrightarrow>
     (\<exists>a n. s = a @ t @ n \<and> length a = k \<and> list_all q a \<and> n \<noteq> [] \<and> list_all r n)"
  by (subst lang_Seq_iff) (auto simp: lang_Seq_lit)

lemma arn_shape:
  "lang (Seq (lit t1) (Seq (Star (Cls p)) (Seq (lit t2) (Seq (rep k (Cls q)) (Seq (lit t3) (plus (Cls r))))))) s
     \<longleftrightarrow> (\<exists>u a n. s = t1 @ u @ t2 @ a @ t3 @ n \<and> list_all p u
            \<and> length a = k \<and> list_all q a \<and> n \<noteq> [] \<and> list_all r n)"
proof -
  have star: "lang (Seq (Star (Cls p)) b) s \<longleftrightarrow> (\<exists>u v. s = u @ v \<and> list_all p u \<and> lang b v)" for b s
    by (simp add: lang_Seq_iff)
  show ?thesis unfolding lang_Seq_lit star role_shape by blast
qed

lemma irsaArnPattern_iff:
  "MatchString irsaArnPattern s \<longleftrightarrow> (\<exists>p a n. is_role_arn s p a n)"
  unfolding MatchString_iff irsaArnPattern_def is_role_arn_def
  by (rule arn_shape)

lemma crdArnPattern_iff:
  "MatchString crdArnPattern s \<longleftrightarrow> (\<exists>a n. is_role_arn s [] a n)"
proof -
  have "MatchString crdArnPattern s \<longleftrightarrow> (\<exists>a n. s = ''arn:aws:iam::'' @ a @ '':role/'' @ n
      \<and> length a = 12 \<and> list_all digit a \<and> n \<noteq> [] \<and> list_all not_newline n)"
    unfolding MatchString_iff crdArnPattern_def lang_Seq_lit role_shape by blast
  then show ?thesis by (simp add: is_role_arn_def)
qed

lemma has_prefix_iff: "has_prefix m p \<longleftrightarrow> (\<exists>rest. m = p @ rest \<and> rest \<noteq> [])"
  unfolding has_prefix_def
proof
  assume "length p < length m \<and> take (length p) m = p"
  then have "m = p @ drop (length p) m" "drop (length p) m \<noteq> []" by (metis append_take_drop_id, simp)
  then show "\<exists>rest. m = p @ rest \<and> rest \<noteq> []" by blast
qed auto

lemma check_prefixes_iff: "check_prefixes ps m \<longleftrightarrow> (\<exists>p \<in> set ps. has_prefix m p)"
  by (induction ps) auto

lemma validateModelId_iff:
  "validateModelId m = None \<longleftrightarrow> (\<exists>p \<in> set knownModelPrefixes. \<exists>rest. m = p @ rest \<and> rest \<noteq> [])"
  by (simp add: validateModelId_def check_prefixes_iff has_prefix_iff)

lemma validateRegion_iff: "validateRegion r = None \<longleftrightarrow> r \<in> set validRegions"
  by (simp add: validateRegion_def)

lemma validateModelEndpoint_iff:
  "validateModelEndpoint ep = None \<longleftrightarrow>
     validateRegion (Region (epSpec ep)) = None \<and> validateModelId (ModelId (epSpec ep)) = None
     \<and> MatchString irsaArnPattern (IRSARoleArn (epSpec ep))
     \<and> (\<forall>b. CostBudget (epSpec ep) = Some b \<longrightarrow> validateBudget b = None)
     \<and> (\<forall>rl. RateLimit (epSpec ep) = Some rl \<longrightarrow> validateRateLimit rl = None)"
  by (auto simp: validateModelEndpoint_def split: option.splits)

lemma apply_defaults_fields [simp]:
  "epMaxTokens (epSpec (apply_defaults ep)) =
     (case epMaxTokens (epSpec ep) of None \<Rightarrow> Some 4096 | Some n \<Rightarrow> Some n)"
  "RateLimit (epSpec (apply_defaults ep)) =
     (case RateLimit (epSpec ep) of None \<Rightarrow> Some \<lparr>RequestsPerMinute = 60\<rparr> | Some rl \<Rightarrow> Some rl)"
  "ModelId (epSpec (apply_defaults ep)) = ModelId (epSpec ep)"
  "Region (epSpec (apply_defaults ep)) = Region (epSpec ep)"
  "IRSARoleArn (epSpec (apply_defaults ep)) = IRSARoleArn (epSpec ep)"
  "CostBudget (epSpec (apply_defaults ep)) = CostBudget (epSpec ep)"
  "GuardrailPolicyRef (epSpec (apply_defaults ep)) = GuardrailPolicyRef (epSpec ep)"
  "epMeta (apply_defaults ep) = epMeta ep" "epStatus (apply_defaults ep) = epStatus ep"
  by (simp_all add: apply_defaults_def Let_def split: option.split)

lemma apply_defaults_idem: "apply_defaults (apply_defaults ep) = apply_defaults ep"
  by (simp add: apply_defaults_def Let_def)

lemma apply_defaults_valid: "validateModelEndpoint (apply_defaults ep) = validateModelEndpoint ep"
  by (simp add: validateModelEndpoint_def validateRateLimit_def split: option.split)

lemma region_schema:
  "filter (\<lambda>r. \<not> MatchString crdRegionPattern r) validRegions = [''us-gov-west-1'']"
  by code_simp

subsection \<open>Properties\<close>

text \<open>C14: the validating webhook allows a ModelEndpoint exactly when its region is listed, its model
  identifier continues one of the vendor prefixes, its role is an ARN of the documented shape with a
  twelve-digit account (in any aws partition), a budget names an amount, and a rate limit lies between
  1 and 3600; anything else is denied, and an object that does not decode is a 400.\<close>

theorem Validator_allows_iff:
  "(Validator_Handle (Inr ep) = Allowed '''' \<longleftrightarrow>
     Region (epSpec ep) \<in> set validRegions
     \<and> (\<exists>p \<in> set knownModelPrefixes. \<exists>rest. ModelId (epSpec ep) = p @ rest \<and> rest \<noteq> [])
     \<and> (\<exists>p a n. is_role_arn (IRSARoleArn (epSpec ep)) p a n)
     \<and> (case CostBudget (epSpec ep) of None \<Rightarrow> True | Some b \<Rightarrow> \<not> (Daily b = [] \<and> Monthly b = []))
     \<and> (case RateLimit (epSpec ep) of None \<Rightarrow> True
        | Some rl \<Rightarrow> 1 \<le> RequestsPerMinute rl \<and> RequestsPerMinute rl \<le> 3600))
   \<and> (Validator_Handle (Inr ep) \<in> insert (Allowed '''') (range Denied))
   \<and> (\<exists>e. Validator_Handle (Inl err) = Errored 400 e)"
proof -
  have allowed: "Validator_Handle (Inr ep) = Allowed '''' \<longleftrightarrow> validateModelEndpoint ep = None"
    by (simp add: Validator_Handle_def split: option.split)
  have budget: "(\<forall>b. x = Some b \<longrightarrow> validateBudget b = None) \<longleftrightarrow>
      (case x of None \<Rightarrow> True | Some b \<Rightarrow> \<not> (Daily b = [] \<and> Monthly b = []))" for x
    by (cases x) (simp_all add: validateBudget_def)
  have rate: "(\<forall>rl. x = Some rl \<longrightarrow> validateRateLimit rl = None) \<longleftrightarrow>
      (case x of None \<Rightarrow> True | Some rl \<Rightarrow> 1 \<le> RequestsPerMinute rl \<and> RequestsPerMinute rl \<le> 3600)" for x
    by (cases x) (auto simp: validateRateLimit_def)
  have "Validator_Handle (Inr ep) \<in> insert (Allowed '''') (range Denied)"
    "\<exists>e. Validator_Handle (Inl err) = Errored 400 e"
    by (auto simp: Validator_Handle_def split: option.split)
  then show ?thesis
    unfolding allowed validateModelEndpoint_iff validateModelId_iff validateRegion_iff irsaArnPattern_iff
      budget rate
    by blast
qed

text \<open>Defaulting is idempotent, fills in 4096 tokens and 60 requests per minute exactly where
  nothing was set, changes nothing else, and does not change the validator's verdict.\<close>

theorem Defaulter_spec:
  "\<exists>ep'. Defaulter_Handle (Inr ep) = PatchTo ep' \<and> Defaulter_Handle (Inr ep') = PatchTo ep'
     \<and> epMaxTokens (epSpec ep') = Some (case epMaxTokens (epSpec ep) of None \<Rightarrow> 4096 | Some n \<Rightarrow> n)
     \<and> RateLimit (epSpec ep') =
         Some (case RateLimit (epSpec ep) of None \<Rightarrow> \<lparr>RequestsPerMinute = 60\<rparr> | Some rl \<Rightarrow> rl)
     \<and> ep'\<lparr>epSpec := (epSpec ep')\<lparr>epMaxTokens := epMaxTokens (epSpec ep), RateLimit := RateLimit (epSpec ep)\<rparr>\<rparr> = ep
     \<and> Validator_Handle (Inr ep') = Validator_Handle (Inr ep)"
proof (intro exI [of _ "apply_defaults ep"] conjI)
  show "(apply_defaults ep)\<lparr>epSpec := (epSpec (apply_defaults ep))
      \<lparr>epMaxTokens := epMaxTokens (epSpec ep), RateLimit := RateLimit (epSpec ep)\<rparr>\<rparr> = ep"
    by (cases ep) (simp add: apply_defaults_def Let_def)
qed (simp_all add: Defaulter_Handle_def Validator_Handle_def apply_defaults_idem apply_defaults_valid
    split: option.split)

text \<open>Every model that has a price passes the model check of the webhook, so that no priced model
  is refused.\<close>

theorem priced_models_admitted:
  "list_all (\<lambda>(m, _). validateModelId m = None) PricingTable"
  by (simp add: PricingTable_def validateModelId_def knownModelPrefixes_def has_prefix_def)

text \<open>The schema is stricter than the webhook: of the regions the webhook lists, the schema's
  pattern refuses exactly us-gov-west-1, and of the role ARNs the webhook takes, it refuses exactly
  those of another partition than plain aws, so GovCloud endpoints that the webhook means to allow
  can never be created.\<close>

theorem schema_excludes_govcloud:
  "filter (\<lambda>r. \<not> MatchString crdRegionPattern r) validRegions = [''us-gov-west-1'']
   \<and> (MatchString crdArnPattern s \<longleftrightarrow> MatchString irsaArnPattern s \<and> prefix ''arn:aws:iam::'' s)"
proof
  show "filter (\<lambda>r. \<not> MatchString crdRegionPattern r) validRegions = [''us-gov-west-1'']"
    by (rule region_schema)
  have nil: "p = []" if "is_role_arn s p a n" "prefix ''arn:aws:iam::'' s" for p a n
  proof (cases p)
    case (Cons c p')
    with that show ?thesis by (auto simp: is_role_arn_def prefix_def lower_def byte_in_def)
  qed simp
  moreover have "prefix ''arn:aws:iam::'' s" if "is_role_arn s [] a n" for a n
    using that by (auto simp: is_role_arn_def prefix_def)
  ultimately show "MatchString crdArnPattern s \<longleftrightarrow> MatchString irsaArnPattern s \<and> prefix ''arn:aws:iam::'' s"
    unfolding crdArnPattern_iff irsaArnPattern_iff by blast
qed

end
