(* ===== verification/Rate_Limiter.thy ===== *)
theory Rate_Limiter
  imports Complex_Main Prelude
begin

section \<open>Token buckets (golang.org/x/time/rate)\<close>

text \<open>
  The proxy uses two operations of the package: NewLimiter and Allow. A limiter is a value that
  Allow replaces; times are nanoseconds. The locale \<open>rate_limiter\<close> states the documented behaviour
  of a token bucket in terms of the credit a limiter has at a time: a new one has at most its burst,
  the credit grows at most by the rate, an event is allowed exactly when there is a token, and takes
  it. From it the bound on the number of allowed events follows. \<open>token_bucket\<close> is a bucket over the
  rationals that satisfies it.
\<close>

record 'l limiter_lib =
  NewLimiter :: "rat \<Rightarrow> int \<Rightarrow> 'l" \<comment> \<open>events per second, burst\<close>
  Allow :: "int \<Rightarrow> 'l \<Rightarrow> bool \<times> 'l"

definition second :: rat where
  "second = 1000000000"

locale rate_limiter =
  fixes L :: "'l limiter_lib" and credit :: "'l \<Rightarrow> int \<Rightarrow> rat" and limit_of :: "'l \<Rightarrow> rat"
  assumes new_credit: "0 \<le> r \<Longrightarrow> 1 \<le> b \<Longrightarrow> credit (NewLimiter L r b) t \<le> of_int b"
    and new_limit: "limit_of (NewLimiter L r b) = r"
    and credit_grows: "0 \<le> limit_of l \<Longrightarrow> t \<le> t' \<Longrightarrow> credit l t' \<le> credit l t + limit_of l * of_int (t' - t) / second"
    and allow_iff: "Allow L t l = (ok, l') \<Longrightarrow> ok \<longleftrightarrow> 1 \<le> credit l t"
    and allow_takes: "Allow L t l = (ok, l') \<Longrightarrow> credit l' t = credit l t - (if ok then 1 else 0)"
    and allow_limit: "Allow L t l = (ok, l') \<Longrightarrow> limit_of l' = limit_of l"
begin

text \<open>A sequence of events at given times: the answers and the limiter afterwards.\<close>

fun allows :: "int list \<Rightarrow> 'l \<Rightarrow> bool list \<times> 'l" where
  "allows [] l = ([], l)"
| "allows (t # ts) l =
     (let (ok, l1) = Allow L t l; (oks, l2) = allows ts l1 in (ok # oks, l2))"

lemma allows_credit:
  assumes "allows ts l = (oks, l')" "sorted (t0 # ts)" "\<forall>t \<in> set ts. t \<le> t1" "t0 \<le> t1" "0 \<le> limit_of l"
  shows "of_nat (length (filter id oks)) + credit l' t1 \<le> credit l t0 + limit_of l * of_int (t1 - t0) / second
    \<and> limit_of l' = limit_of l"
  using assms
proof (induction ts arbitrary: l t0 oks)
  case Nil
  then show ?case using credit_grows [of l t0 t1] by simp
next
  case (Cons t ts)
  obtain ok l1 where a: "Allow L t l = (ok, l1)" by fastforce
  obtain oks' where r: "allows ts l1 = (oks', l')" "oks = ok # oks'"
    using Cons.prems(1) a by (auto split: prod.splits)
  have t: "t0 \<le> t" "t \<le> t1" "sorted (t # ts)" using Cons.prems(2,3) by simp_all
  have lim: "limit_of l1 = limit_of l" by (rule allow_limit [OF a])
  have IH: "of_nat (length (filter id oks')) + credit l' t1 \<le> credit l1 t + limit_of l1 * of_int (t1 - t) / second
      \<and> limit_of l' = limit_of l1"
    by (rule Cons.IH [OF r(1) t(3)]) (use Cons.prems(3,5) t(2) lim in simp_all)
  have "credit l t \<le> credit l t0 + limit_of l * of_int (t - t0) / second"
    using credit_grows [OF Cons.prems(5) t(1)] .
  moreover have "credit l1 t = credit l t - (if ok then 1 else 0)" by (rule allow_takes [OF a])
  moreover have "limit_of l * of_int (t1 - t0) / second
      = limit_of l * of_int (t - t0) / second + limit_of l * of_int (t1 - t) / second"
    by (simp add: field_simps second_def)
  ultimately show ?case using IH lim r(2) by (auto simp: id_def split: if_splits)
qed

lemma allow_credit_nonneg: "0 \<le> credit l t \<Longrightarrow> Allow L t l = (ok, l') \<Longrightarrow> 0 \<le> credit l' t"
  using allow_iff [of t l ok l'] allow_takes [of t l ok l'] by auto

end

subsection \<open>A token bucket\<close>

record bucket =
  bkLimit :: rat
  bkBurst :: int
  bkTokens :: rat
  bkLast :: int

definition bucket_credit :: "bucket \<Rightarrow> int \<Rightarrow> rat" where
  "bucket_credit b t =
     min (of_int (bkBurst b)) (bkTokens b + bkLimit b * of_int (max 0 (t - bkLast b)) / second)"

definition token_bucket :: "bucket limiter_lib" where
  "token_bucket =
     \<lparr>NewLimiter = (\<lambda>r b. \<lparr>bkLimit = r, bkBurst = b, bkTokens = of_int b, bkLast = 0\<rparr>),
      Allow = (\<lambda>t b.
        if 1 \<le> bucket_credit b t then (True, b\<lparr>bkTokens := bucket_credit b t - 1, bkLast := t\<rparr>)
        else (False, b))\<rparr>"

lemma bucket_credit_grows:
  assumes "0 \<le> bkLimit b" "t \<le> t'"
  shows "bucket_credit b t' \<le> bucket_credit b t + bkLimit b * of_int (t' - t) / second"
proof -
  have "of_int (max 0 (t' - bkLast b)) \<le> (of_int (max 0 (t - bkLast b)) + of_int (t' - t) :: rat)"
    using assms(2) by (simp add: max_def flip: of_int_add of_int_diff)
  then have "bkLimit b * of_int (max 0 (t' - bkLast b)) / second
      \<le> bkLimit b * (of_int (max 0 (t - bkLast b)) + of_int (t' - t)) / second"
    using assms(1) by (intro divide_right_mono mult_left_mono) (simp_all add: second_def)
  moreover have "0 \<le> bkLimit b * of_int (t' - t) / second"
    using assms by (simp add: second_def)
  ultimately show ?thesis by (simp add: bucket_credit_def algebra_simps add_divide_distrib diff_divide_distrib)
qed

interpretation bucket: rate_limiter token_bucket bucket_credit bkLimit
proof unfold_locales
  fix b l' :: bucket and t ok
  assume a: "Allow token_bucket t b = (ok, l')"
  show "ok \<longleftrightarrow> 1 \<le> bucket_credit b t" "bkLimit l' = bkLimit b"
    using a by (auto simp: token_bucket_def split: if_splits)
  have "bucket_credit b t \<le> of_int (bkBurst b)" by (simp add: bucket_credit_def)
  then show "bucket_credit l' t = bucket_credit b t - (if ok then 1 else 0)"
    using a by (auto simp: token_bucket_def bucket_credit_def split: if_splits)
next
  fix b :: bucket and t t' :: int
  assume "0 \<le> bkLimit b" "t \<le> t'"
  then show "bucket_credit b t' \<le> bucket_credit b t + bkLimit b * of_int (t' - t) / second"
    by (rule bucket_credit_grows)
qed (simp_all add: token_bucket_def bucket_credit_def)

end
