(* ===== verification/Proxy_Handler.thy ===== *)
theory Proxy_Handler
  imports Kube Pricing Metrics Bedrock_Invoke Text_Template Rate_Limiter "HOL-Library.Signed_Division"
begin

section \<open>The proxy's request handlers (internal/proxy/handler.go)\<close>

text \<open>
  \<open>HandleInvoke\<close> and \<open>HandleRender\<close> with their helpers, as functions from a request, the handler's
  state and a world to an outcome: the response (or the panic of the handler), the metric calls in
  order, the next state and the next world. The libraries the handler calls are fields of the record
  \<open>proxy\<close>: the Kubernetes client, the Bedrock SDK, the template engine, the rate limiters and the
  clock. The handler's mutex makes each getLimiter atomic, and a limiter is a value that Allow
  replaces, stored back under its key (in the code the map holds a pointer to it).
\<close>

subsection \<open>Requests and responses\<close>

record InvokeRequest =
  irMessages :: "Message list"
  irSystemPrompt :: string
  irMaxTokens :: int
  irTemperature :: rat

record RenderRequest =
  rrVariables :: "(string \<rightharpoonup> string) option" \<comment> \<open>\<open>None\<close> is the nil map\<close>

definition zero_invoke :: InvokeRequest where
  "zero_invoke = \<lparr>irMessages = [], irSystemPrompt = [], irMaxTokens = 0, irTemperature = 0\<rparr>"

definition dec_invoke_message :: "Message decoder" where
  "dec_invoke_message =
     dec_struct ''bedrock.Message''
       [(''role'', into Role Role_update dec_string), (''content'', into Content Content_update dec_string)]"

definition dec_invoke :: "InvokeRequest decoder" where
  "dec_invoke =
     dec_struct ''proxy.InvokeRequest''
       [(''messages'', into irMessages irMessages_update
           (dec_slice \<lparr>Role = [], Content = []\<rparr> dec_invoke_message ''[]bedrock.Message'')),
        (''systemPrompt'', into irSystemPrompt irSystemPrompt_update dec_string),
        (''maxTokens'', into irMaxTokens irMaxTokens_update dec_int32),
        (''temperature'', into irTemperature irTemperature_update dec_float64)]"

definition dec_render :: "RenderRequest decoder" where
  "dec_render =
     dec_struct ''proxy.RenderRequest''
       [(''variables'', into rrVariables rrVariables_update dec_string_map)]"

record InvokeResponse =
  rsContent :: string
  rsInputTokens :: int
  rsOutputTokens :: int
  rsStopReason :: string
  rsCostUSD :: string

text \<open>A request: method, path, and the first JSON value of the body, or the decoder's complaint.\<close>

record HttpRequest =
  rqMethod :: string
  rqPath :: string
  rqBody :: "string + json"

datatype body = TextBody string | JsonBody InvokeResponse

record HttpResponse =
  hCode :: int
  hHeaders :: "(string \<times> string) list"
  hBody :: body

datatype reply = Responded HttpResponse | Panicked string

definition http_error :: "(string \<times> string) list \<Rightarrow> string \<Rightarrow> int \<Rightarrow> reply" where
  "http_error hs msg code = Responded \<lparr>hCode = code, hHeaders = hs, hBody = TextBody (msg @ [CHR 0x0A])\<rparr>"

definition http_json :: "InvokeResponse \<Rightarrow> reply" where
  "http_json r = Responded \<lparr>hCode = 200, hHeaders = [(''Content-Type'', ''application/json'')], hBody = JsonBody r\<rparr>"

declare http_error_def [go_simps] http_json_def [go_simps]

subsection \<open>State and libraries\<close>

record ('l, 'w) proxy =
  pxKube :: "'w kube"
  pxAws :: "'w aws"
  pxEngine :: engine
  pxLimiter :: "'l limiter_lib"
  pxNow :: "'w \<Rightarrow> time \<times> 'w"

record 'l Handler =
  hBedrock :: BedrockClient
  rateLimiters :: "string \<rightharpoonup> 'l"

definition NewHandler :: "BedrockClient \<Rightarrow> 'l Handler" where
  "NewHandler br = \<lparr>hBedrock = br, rateLimiters = Map.empty\<rparr>"

type_synonym ('l, 'w) handled = "reply \<times> metric_op list \<times> 'l Handler \<times> 'w"

subsection \<open>Helpers\<close>

definition parsePathSegments :: "string \<Rightarrow> string \<Rightarrow> (string \<times> string) option" where
  "parsePathSegments path pre =
     (let trimmed = TrimPrefix path pre; parts = SplitN2 trimmed (CHR ''/'')
      in if length parts \<noteq> 2 \<or> parts ! 0 = [] \<or> parts ! 1 = [] then None
         else Some (parts ! 0, parts ! 1))"

definition limiter_key :: "string \<Rightarrow> string \<Rightarrow> string" where
  "limiter_key namespace name = namespace @ ''/'' @ name"

definition limiter_burst :: "int \<Rightarrow> int" where
  "limiter_burst rpm = (let burst = rpm sdiv 10 in if burst < 1 then 1 else burst)"

definition limiter_rate :: "int \<Rightarrow> rat" where
  "limiter_rate rpm = fdiv (f64 (of_int rpm)) 60"

definition getLimiter :: "'l limiter_lib \<Rightarrow> 'l Handler \<Rightarrow> string \<Rightarrow> string \<Rightarrow> int \<Rightarrow> 'l \<times> 'l Handler" where
  "getLimiter L h namespace name rpm =
     (let key = limiter_key namespace name
      in case rateLimiters h key of
           Some limiter \<Rightarrow> (limiter, h)
         | None \<Rightarrow>
             let limiter = NewLimiter L (limiter_rate rpm) (limiter_burst rpm)
             in (limiter, h\<lparr>rateLimiters := (rateLimiters h)(key \<mapsto> limiter)\<rparr>))"

text \<open>The limiter of the endpoint, asked for one event now; it stays in the map.\<close>

definition take_token :: "('l, 'w) proxy \<Rightarrow> 'l Handler \<Rightarrow> string \<Rightarrow> string \<Rightarrow> int \<Rightarrow> 'w
    \<Rightarrow> bool \<times> 'l Handler \<times> 'w" where
  "take_token px h namespace name rpm w =
     (let (limiter, h1) = getLimiter (pxLimiter px) h namespace name rpm;
          (now, w1) = pxNow px w;
          (ok, limiter') = Allow (pxLimiter px) now limiter
      in (ok, h1\<lparr>rateLimiters := (rateLimiters h1)(limiter_key namespace name \<mapsto> limiter')\<rparr>, w1))"

definition capped :: "int \<Rightarrow> int option \<Rightarrow> int" where
  "capped maxTokens cap =
     (case cap of
        None \<Rightarrow> maxTokens
      | Some n \<Rightarrow> if maxTokens = 0 \<or> maxTokens > n then n else maxTokens)"

definition fetchEndpoint :: "('l, 'w) proxy \<Rightarrow> string \<Rightarrow> string \<Rightarrow> 'w \<Rightarrow> (go_error + ModelEndpoint) \<times> 'w" where
  "fetchEndpoint px namespace name w =
     rGet (epAPI (pxKube px)) \<lparr>nnNamespace = namespace, nnName = name\<rparr> w"

text \<open>Duration.Seconds: whole seconds plus nanoseconds, in float64.\<close>

definition Seconds :: "int \<Rightarrow> rat" where
  "Seconds d = fadd (f64 (of_int (d sdiv 1000000000))) (fdiv (f64 (of_int (d smod 1000000000))) 1000000000)"

text \<open>
  Metric calls one after the other, before the reply is written: the first one that the client library
  refuses (a counter that would decrease) panics, and net/http drops the connection.
\<close>

definition metered :: "metric_op list \<Rightarrow> reply \<Rightarrow> reply \<times> metric_op list" where
  "metered ops r =
     (if list_all metric_op_ok ops then (r, ops)
      else (Panicked ''counter cannot decrease in value'', takeWhile metric_op_ok ops))"

text \<open>The cost string of a response and the metric call for it.\<close>

definition cost_report :: "string list \<Rightarrow> string \<Rightarrow> InvokeOutput \<Rightarrow> metric_op list \<times> string" where
  "cost_report labels modelId result =
     (case CalculateCost modelId (ioInputTokens result) (ioOutputTokens result) of
        Inl err \<Rightarrow> ([], ''unknown'')
      | Inr cost \<Rightarrow> ([MAdd InvocationCostDollars labels cost], FormatFloat_f cost 6))"

definition invoke_response :: "InvokeOutput \<Rightarrow> string \<Rightarrow> InvokeResponse" where
  "invoke_response result costStr =
     \<lparr>rsContent = ioContent result, rsInputTokens = ioInputTokens result, rsOutputTokens = ioOutputTokens result,
      rsStopReason = ioStopReason result, rsCostUSD = costStr\<rparr>"

definition renderTemplate :: "engine \<Rightarrow> string \<Rightarrow> (string \<rightharpoonup> string) \<Rightarrow> go_error + string" where
  "renderTemplate T tmplText vars =
     (case tParse T ''prompt'' tmplText of
        Some err \<Rightarrow> Inl (Wrapf ''parsing template'' err)
      | None \<Rightarrow>
          (case tExecute T tmplText vars of
             Inl err \<Rightarrow> Inl (Wrapf ''executing template'' err)
           | Inr s \<Rightarrow> Inr s))"

subsection \<open>HandleInvoke\<close>

text \<open>The part after the gates: the call of Bedrock, the metrics and the response.\<close>

definition forward_invoke :: "('l, 'w) proxy \<Rightarrow> string \<Rightarrow> string \<Rightarrow> ModelEndpoint \<Rightarrow> InvokeRequest \<Rightarrow> 'l Handler \<Rightarrow> 'w
    \<Rightarrow> ('l, 'w) handled" where
  "forward_invoke px namespace name ep req h w =
     (let maxTokens = capped (irMaxTokens req) (epMaxTokens (epSpec ep));
          (start, w1) = pxNow px w;
          input = \<lparr>iiModelId = ModelId (epSpec ep), iiSystemPrompt = irSystemPrompt req,
                   iiMessages = irMessages req, iiMaxTokens = maxTokens, iiTemperature = irTemperature req\<rparr>;
          (res, c, w2) = Invoke (pxAws px) (endpoint_key ep) input (hBedrock h) w1;
          (stop, w3) = pxNow px w2;
          duration = Seconds (stop - start);
          labels = [namespace, name, ModelId (epSpec ep)];
          h' = h\<lparr>hBedrock := c\<rparr>
      in case res of
           Inl err \<Rightarrow>
             (http_error [] (''bedrock error: '' @ error_text err) 502,
              [MInc InvocationTotal ([namespace, name, ModelId (epSpec ep)] @ [''error'']),
               MInc ReconcileErrorsTotal [''proxy'', ''invocation_error'']], h', w3)
         | Inr result \<Rightarrow>
             (let (costOps, costStr) = cost_report labels (ModelId (epSpec ep)) result;
                  (reply, ops) = metered
                    ([MInc InvocationTotal (labels @ [''success'']),
                      MAdd InputTokensTotal labels (f64 (of_int (ioInputTokens result))),
                      MAdd OutputTokensTotal labels (f64 (of_int (ioOutputTokens result))),
                      MObserve InvocationDurationSeconds labels duration] @ costOps)
                    (http_json (invoke_response result costStr))
              in (reply, ops, h', w3)))"

definition HandleInvoke :: "('l, 'w) proxy \<Rightarrow> HttpRequest \<Rightarrow> 'l Handler \<Rightarrow> 'w \<Rightarrow> ('l, 'w) handled" where
  "HandleInvoke px r h w =
     (if rqMethod r \<noteq> ''POST'' then (http_error [] ''method not allowed'' 405, [], h, w)
      else case parsePathSegments (rqPath r) ''/invoke/'' of
        None \<Rightarrow> (http_error [] ''path must be /invoke/{namespace}/{name}'' 400, [], h, w)
      | Some (namespace, name) \<Rightarrow>
          case unmarshal dec_invoke zero_invoke (rqBody r) of
            Inl err \<Rightarrow> (http_error [] (''invalid request body: '' @ json_error_text err) 400, [], h, w)
          | Inr req \<Rightarrow>
              case fetchEndpoint px namespace name w of
                (Inl err, w1) \<Rightarrow> (http_error [] ''endpoint not found'' 404, [], h, w1)
              | (Inr ep, w1) \<Rightarrow>
                  if \<not> Available (epStatus ep) then (http_error [] ''endpoint not available'' 503, [], h, w1)
                  else case RateLimit (epSpec ep) of
                    None \<Rightarrow> forward_invoke px namespace name ep req h w1
                  | Some rl \<Rightarrow>
                      let (ok, h2, w2) = take_token px h namespace name (RequestsPerMinute rl) w1
                      in if \<not> ok then
                           (http_error [(''Retry-After'', ''10'')] ''rate limit exceeded'' 429,
                            [MInc RateLimitedTotal [namespace, name]], h2, w2)
                         else forward_invoke px namespace name ep req h2 w2)"

subsection \<open>HandleRender\<close>

text \<open>
  The loop over the declared variables: a missing required one ends the request, and a missing
  optional one gets its default, which is a write to the decoded map and panics when that is nil.
\<close>

datatype filled = MissingVariable string | NilMapWrite | Filled "(string \<rightharpoonup> string) option"

definition lookup_var :: "(string \<rightharpoonup> string) option \<Rightarrow> string \<Rightarrow> string option" where
  "lookup_var vars k = (case vars of None \<Rightarrow> None | Some m \<Rightarrow> m k)"

fun fill_variables :: "TemplateVariable list \<Rightarrow> (string \<rightharpoonup> string) option \<Rightarrow> filled" where
  "fill_variables [] vars = Filled vars"
| "fill_variables (v # vs) vars =
     (if tvRequired v \<and> lookup_var vars (tvName v) = None then MissingVariable (tvName v)
      else if lookup_var vars (tvName v) = None \<and> tvDefault v \<noteq> [] then
        (case vars of
           None \<Rightarrow> NilMapWrite
         | Some m \<Rightarrow> fill_variables vs (Some (m(tvName v \<mapsto> tvDefault v))))
      else fill_variables vs vars)"

definition forward_render :: "('l, 'w) proxy \<Rightarrow> string \<Rightarrow> string \<Rightarrow> PromptTemplate \<Rightarrow> string \<Rightarrow> ModelEndpoint
    \<Rightarrow> 'l Handler \<Rightarrow> 'w \<Rightarrow> ('l, 'w) handled" where
  "forward_render px namespace epName pt rendered ep h w =
     (let maxTokens = (case ptMaxTokens (ptSpec pt) of None \<Rightarrow> 0 | Some n \<Rightarrow> n);
          maxTokens = capped maxTokens (epMaxTokens (epSpec ep));
          input = \<lparr>iiModelId = ModelId (epSpec ep), iiSystemPrompt = ptSystemPrompt (ptSpec pt),
                   iiMessages = [\<lparr>Role = ''user'', Content = rendered\<rparr>], iiMaxTokens = maxTokens,
                   iiTemperature = 0\<rparr>;
          (res, c, w1) = Invoke (pxAws px) (endpoint_key ep) input (hBedrock h) w;
          h' = h\<lparr>hBedrock := c\<rparr>
      in case res of
           Inl err \<Rightarrow> (http_error [] (''bedrock error: '' @ error_text err) 502, [], h', w1)
         | Inr result \<Rightarrow>
             (let labels = [namespace, epName, ModelId (epSpec ep)];
                  (costOps, costStr) = cost_report labels (ModelId (epSpec ep)) result;
                  (reply, ops) = metered
                    ([MInc InvocationTotal (labels @ [''success'']),
                      MAdd InputTokensTotal labels (f64 (of_int (ioInputTokens result))),
                      MAdd OutputTokensTotal labels (f64 (of_int (ioOutputTokens result)))] @ costOps)
                    (http_json (invoke_response result costStr))
              in (reply, ops, h', w1)))"

definition zero_render :: RenderRequest where
  "zero_render = \<lparr>rrVariables = None\<rparr>"

definition HandleRender :: "('l, 'w) proxy \<Rightarrow> HttpRequest \<Rightarrow> 'l Handler \<Rightarrow> 'w \<Rightarrow> ('l, 'w) handled" where
  "HandleRender px r h w =
     (if rqMethod r \<noteq> ''POST'' then (http_error [] ''method not allowed'' 405, [], h, w)
      else case parsePathSegments (rqPath r) ''/render/'' of
        None \<Rightarrow> (http_error [] ''path must be /render/{namespace}/{name}'' 400, [], h, w)
      | Some (namespace, name) \<Rightarrow>
          case unmarshal dec_render zero_render (rqBody r) of
            Inl err \<Rightarrow> (http_error [] (''invalid request body: '' @ json_error_text err) 400, [], h, w)
          | Inr req \<Rightarrow>
              case rGet (ptAPI (pxKube px)) \<lparr>nnNamespace = namespace, nnName = name\<rparr> w of
                (Inl err, w1) \<Rightarrow> (http_error [] ''template not found'' 404, [], h, w1)
              | (Inr pt, w1) \<Rightarrow>
                  case fill_variables (Variables (ptSpec pt)) (rrVariables req) of
                    MissingVariable v \<Rightarrow> (http_error [] (''missing required variable: '' @ v) 400, [], h, w1)
                  | NilMapWrite \<Rightarrow> (Panicked ''assignment to entry in nil map'', [], h, w1)
                  | Filled vars \<Rightarrow>
                      case renderTemplate (pxEngine px) (Template (ptSpec pt)) (\<lambda>k. lookup_var vars k) of
                        Inl err \<Rightarrow> (http_error [] (''template rendering failed: '' @ error_text err) 400, [], h, w1)
                      | Inr rendered \<Rightarrow>
                          let epName = refName (ptModelEndpointRef (ptSpec pt))
                          in case fetchEndpoint px namespace epName w1 of
                               (Inl err, w2) \<Rightarrow> (http_error [] ''referenced endpoint not found'' 404, [], h, w2)
                             | (Inr ep, w2) \<Rightarrow>
                                 if \<not> Available (epStatus ep) then (http_error [] ''endpoint not available'' 503, [], h, w2)
                                 else forward_render px namespace epName pt rendered ep h w2)"

subsection \<open>Paths and limiter keys\<close>

lemma parsePathSegments_iff:
  "parsePathSegments (p @ rest) p = Some (ns, name) \<longleftrightarrow>
     rest = ns @ ''/'' @ name \<and> ns \<noteq> [] \<and> name \<noteq> [] \<and> CHR ''/'' \<notin> set ns"
proof -
  have eq: "parsePathSegments (p @ rest) p = Some (ns, name) \<longleftrightarrow>
      SplitN2 rest (CHR ''/'') = [ns, name] \<and> ns \<noteq> [] \<and> name \<noteq> []"
    by (auto simp: parsePathSegments_def Let_def numeral_2_eq_2 length_Suc_conv)
  show ?thesis unfolding eq
    using SplitN2_two [of rest "CHR ''/''" ns name] SplitN2_sep [of "CHR ''/''" ns name] by auto
qed

lemma parsePathSegments_namespace: "parsePathSegments path p = Some (ns, name) \<Longrightarrow> CHR ''/'' \<notin> set ns"
  using SplitN2_two [of "TrimPrefix path p" "CHR ''/''" ns name]
  by (auto simp: parsePathSegments_def Let_def numeral_2_eq_2 length_Suc_conv split: if_splits)

lemma limiter_key_inject:
  "CHR ''/'' \<notin> set ns \<Longrightarrow> CHR ''/'' \<notin> set ns' \<Longrightarrow>
   limiter_key ns name = limiter_key ns' name' \<longleftrightarrow> ns = ns' \<and> name = name'"
  using append_sep_inject [of "CHR ''/''" ns ns' name name'] by (simp add: limiter_key_def)

subsection \<open>Limits\<close>

lemma limiter_burst_bounds: "1 \<le> limiter_burst rpm \<and> limiter_burst rpm \<le> max 1 (rpm div 10)"
proof (cases "0 \<le> rpm")
  case True
  then have "rpm sdiv 10 = rpm div 10" by (cases "rpm = 0") (simp_all add: signed_divide_int_def)
  then show ?thesis by (simp add: limiter_burst_def Let_def)
next
  case False
  then have "rpm sdiv 10 \<le> 0" by (simp add: signed_divide_int_def sgn_if)
  then show ?thesis by (simp add: limiter_burst_def Let_def)
qed

lemma limiter_rate_nonneg: "0 \<le> rpm \<Longrightarrow> 0 \<le> limiter_rate rpm"
  by (simp add: limiter_rate_def fdiv_def f64_nonneg)

lemma capped_spec:
  "capped m (Some n) = (if m = 0 then n else min m n)"
  by (simp add: capped_def min_def)

text \<open>The input that an admitted request hands to Bedrock.\<close>

definition invoke_input :: "InvokeRequest \<Rightarrow> ModelEndpoint \<Rightarrow> InvokeInput" where
  "invoke_input req ep =
     \<lparr>iiModelId = ModelId (epSpec ep), iiSystemPrompt = irSystemPrompt req, iiMessages = irMessages req,
      iiMaxTokens = capped (irMaxTokens req) (epMaxTokens (epSpec ep)), iiTemperature = irTemperature req\<rparr>"

text \<open>Bedrock can answer the input with a negative token count.\<close>

definition negative_answer :: "('l, 'w) proxy \<Rightarrow> EndpointKey \<Rightarrow> InvokeInput \<Rightarrow> bool" where
  "negative_answer px key input \<longleftrightarrow> (\<exists>c w out. fst (Invoke (pxAws px) key input c w) = Inr out
     \<and> (ioInputTokens out < 0 \<or> ioOutputTokens out < 0))"

subsection \<open>The four ends of HandleInvoke\<close>

text \<open>A request that asks for an endpoint: method, path and body are in order.\<close>

definition invoke_wants :: "HttpRequest \<Rightarrow> string \<Rightarrow> string \<Rightarrow> InvokeRequest \<Rightarrow> bool" where
  "invoke_wants r ns name req \<longleftrightarrow> rqMethod r = ''POST'' \<and> parsePathSegments (rqPath r) ''/invoke/'' = Some (ns, name)
     \<and> unmarshal dec_invoke zero_invoke (rqBody r) = Inr req"

lemma invoke_wants_unique:
  "invoke_wants r ns name req \<Longrightarrow> invoke_wants r ns' name' req' \<Longrightarrow> ns' = ns \<and> name' = name \<and> req' = req"
  by (auto simp: invoke_wants_def)

lemma HandleInvoke_cases:
  obtains (early) code msg w' where "HandleInvoke px r h w = (http_error [] msg code, [], h, w')"
      "code \<in> {400, 404, 405, 503}"
      "w' = w \<or> (\<exists>ns name g. fetchEndpoint px ns name w = (g, w'))"
      "\<nexists>ns name req ep w1. invoke_wants r ns name req \<and> fetchEndpoint px ns name w = (Inr ep, w1)
         \<and> Available (epStatus ep)"
  | (limited) ns name req ep w1 rl h2 w2 where "invoke_wants r ns name req" "fetchEndpoint px ns name w = (Inr ep, w1)"
      "Available (epStatus ep)" "RateLimit (epSpec ep) = Some rl"
      "take_token px h ns name (RequestsPerMinute rl) w1 = (False, h2, w2)"
      "HandleInvoke px r h w = (http_error [(''Retry-After'', ''10'')] ''rate limit exceeded'' 429,
         [MInc RateLimitedTotal [ns, name]], h2, w2)"
  | (unmetered) ns name req ep w1 where "invoke_wants r ns name req" "fetchEndpoint px ns name w = (Inr ep, w1)"
      "Available (epStatus ep)" "RateLimit (epSpec ep) = None"
      "HandleInvoke px r h w = forward_invoke px ns name ep req h w1"
  | (metered) ns name req ep w1 rl h2 w2 where "invoke_wants r ns name req" "fetchEndpoint px ns name w = (Inr ep, w1)"
      "Available (epStatus ep)" "RateLimit (epSpec ep) = Some rl"
      "take_token px h ns name (RequestsPerMinute rl) w1 = (True, h2, w2)"
      "HandleInvoke px r h w = forward_invoke px ns name ep req h2 w2"
proof (cases "\<exists>ns name req. invoke_wants r ns name req")
  case False
  have "\<exists>code msg. HandleInvoke px r h w = (http_error [] msg code, [], h, w) \<and> code \<in> {400, 405}"
    using False
    by (auto simp: HandleInvoke_def invoke_wants_def split: option.split sum.split)
  then show ?thesis using early False by blast
next
  case True
  then obtain ns name req where want: "invoke_wants r ns name req" by blast
  obtain g w1 where get: "fetchEndpoint px ns name w = (g, w1)" by fastforce
  note run = HandleInvoke_def [of px r h w]
  show ?thesis
  proof (cases "\<exists>ep. g = Inr ep \<and> Available (epStatus ep)")
    case False
    then have "\<exists>code msg. HandleInvoke px r h w = (http_error [] msg code, [], h, w1) \<and> code \<in> {404, 503}"
      using want get by (cases g) (auto simp: run invoke_wants_def)
    moreover have "\<nexists>ns name req ep w1. invoke_wants r ns name req \<and> fetchEndpoint px ns name w = (Inr ep, w1)
         \<and> Available (epStatus ep)"
      using False get invoke_wants_unique [OF want] by force
    ultimately show ?thesis using early get by blast
  next
    case True
    then obtain ep where ep: "fetchEndpoint px ns name w = (Inr ep, w1)" "Available (epStatus ep)" using get by blast
    show ?thesis
    proof (cases "RateLimit (epSpec ep)")
      case None
      then show ?thesis using want ep by (intro unmetered [OF want ep None]) (auto simp: run invoke_wants_def)
    next
      case (Some rl)
      obtain ok h2 w2 where t: "take_token px h ns name (RequestsPerMinute rl) w1 = (ok, h2, w2)"
        by (metis prod.collapse)
      show ?thesis
      proof (cases ok)
        case True
        then show ?thesis using want ep Some t
          by (intro metered [OF want ep Some]) (auto simp: run invoke_wants_def)
      next
        case False
        then show ?thesis using want ep Some t
          by (intro limited [OF want ep Some]) (auto simp: run invoke_wants_def)
      qed
    qed
  qed
qed

lemma cost_report_quiet: "ops_on InvocationTotal (fst (cost_report ls m r)) = []"
  by (simp add: cost_report_def split: sum.split)

lemma metered_quiet: "ops_on m ops = [] \<Longrightarrow> ops_on m (snd (metered ops r)) = []"
  by (auto simp: metered_def ops_on_def filter_empty_conv dest: set_takeWhileD)

lemma metered_first:
  "metric_op_ok x \<Longrightarrow> ops_on m ops = [] \<Longrightarrow>
   \<exists>rest. snd (metered (x # ops) r) = x # rest \<and> ops_on m rest = []"
  using metered_quiet [of m ops] by (auto simp: metered_def ops_on_def filter_empty_conv dest: set_takeWhileD)

lemma metered_Responded: "metered ops r = (Responded resp, ops') \<longleftrightarrow> list_all metric_op_ok ops \<and> ops' = ops \<and> r = Responded resp"
  by (auto simp: metered_def)

text \<open>The metric calls for an answer of Bedrock can only be refused for a negative token count.\<close>

lemma answer_ops_ok:
  assumes "0 \<le> ioInputTokens out" "0 \<le> ioOutputTokens out" "length labels = 3"
  shows "list_all metric_op_ok
    ([MInc InvocationTotal (labels @ [st]), MAdd InputTokensTotal labels (f64 (of_int (ioInputTokens out))),
      MAdd OutputTokensTotal labels (f64 (of_int (ioOutputTokens out)))] @ fst (cost_report labels model out))"
  using assms CalculateCost_nonneg by (auto simp: cost_report_def f64_nonneg split: sum.split)

subsection \<open>What the proxy expects of its libraries\<close>

text \<open>
  An observer of the calls to Bedrock (credentials, model and body of each) and a clock that does
  not run backwards. Reads of the cluster and of the clock make no call to Bedrock.
\<close>

locale proxy_env =
  fixes px :: "('l, 'w) proxy" and log :: "'w \<Rightarrow> (AwsConfig \<times> string \<times> json) list" and time_of :: "'w \<Rightarrow> int"
  assumes invoke_logs: "log (snd (awsInvokeModel (pxAws px) cl m b w)) = log w @ [(clConfig cl, m, b)]"
    and read_logs: "log (snd (rGet (epAPI (pxKube px)) k w)) = log w" "log (snd (rGet (ptAPI (pxKube px)) k w)) = log w"
      "log (snd (pxNow px w)) = log w"
    and now_time: "time_of w \<le> fst (pxNow px w)" "fst (pxNow px w) \<le> time_of (snd (pxNow px w))"
    and invoke_time: "time_of w \<le> time_of (snd (awsInvokeModel (pxAws px) cl m b w))"
    and read_time: "time_of w \<le> time_of (snd (rGet (epAPI (pxKube px)) k w))"
begin

lemma fetch_logs: "fetchEndpoint px ns name w = (g, w1) \<Longrightarrow> log w1 = log w \<and> time_of w \<le> time_of w1"
  using read_logs(1) [of "\<lparr>nnNamespace = ns, nnName = name\<rparr>" w] read_time [of w "\<lparr>nnNamespace = ns, nnName = name\<rparr>"]
  by (simp add: fetchEndpoint_def)

lemma now_step: "pxNow px w = (t, w1) \<Longrightarrow> log w1 = log w \<and> time_of w \<le> t \<and> t \<le> time_of w1"
  using read_logs(3) [of w] now_time [of w] by simp

lemma invoke_step:
  assumes "client_wf c" "Invoke (pxAws px) key input c w = (res, c', w')"
  shows "log w' = log w @ [(role_config (baseConfig c) key, iiModelId input, json_request (build_request input))]
    \<and> time_of w \<le> time_of w'"
proof -
  obtain rt c1 where "runtimeClient c key = (Inr rt, c1)" and cfg: "clConfig rt = role_config (baseConfig c) key"
    and "client_wf c1" and inv: "Invoke (pxAws px) key input c w =
        (case awsInvokeModel (pxAws px) rt (iiModelId input) (json_request (build_request input)) w of
           (Inl err, w') \<Rightarrow> (Inl (Wrapf (''invoking model '' @ iiModelId input) err), c1, w')
         | (Inr b, w') \<Rightarrow>
             (case unmarshal dec_response zero_response b of
                Inl err \<Rightarrow> (Inl (Wrapf ''unmarshaling bedrock response'' (ErrMsg (json_error_text err))), c1, w')
              | Inr out \<Rightarrow> (Inr (response_output out), c1, w')))"
    by (rule Invoke_via [OF assms(1), where key = key and sdk = "pxAws px" and input = input and w = w])
  have "w' = snd (awsInvokeModel (pxAws px) rt (iiModelId input) (json_request (build_request input)) w)"
    using inv assms(2) by (auto split: prod.splits sum.splits)
  with cfg show ?thesis
    using invoke_logs [of rt "iiModelId input" "json_request (build_request input)" w]
      invoke_time [of w rt "iiModelId input" "json_request (build_request input)"] by simp
qed

lemma token_step:
  assumes "take_token px h ns name rpm w = (ok, h1, w1)"
  shows "log w1 = log w \<and> time_of w \<le> time_of w1 \<and> hBedrock h1 = hBedrock h
    \<and> (\<exists>t l l'. time_of w \<le> t \<and> t \<le> time_of w1 \<and> Allow (pxLimiter px) t l = (ok, l')
        \<and> l = (case rateLimiters h (limiter_key ns name) of Some l \<Rightarrow> l
               | None \<Rightarrow> NewLimiter (pxLimiter px) (limiter_rate rpm) (limiter_burst rpm))
        \<and> rateLimiters h1 = (rateLimiters h)(limiter_key ns name \<mapsto> l'))"
proof -
  obtain l hl where g: "getLimiter (pxLimiter px) h ns name rpm = (l, hl)" by fastforce
  obtain t w' where n: "pxNow px w = (t, w')" by fastforce
  obtain ok' l' where a: "Allow (pxLimiter px) t l = (ok', l')" by fastforce
  have "ok' = ok" "w' = w1" and h1: "h1 = hl\<lparr>rateLimiters := (rateLimiters hl)(limiter_key ns name \<mapsto> l')\<rparr>"
    using assms g n a by (auto simp: take_token_def)
  moreover have "hBedrock hl = hBedrock h"
    "(rateLimiters hl)(limiter_key ns name \<mapsto> l') = (rateLimiters h)(limiter_key ns name \<mapsto> l')"
    "l = (case rateLimiters h (limiter_key ns name) of Some l \<Rightarrow> l
          | None \<Rightarrow> NewLimiter (pxLimiter px) (limiter_rate rpm) (limiter_burst rpm))"
    using g by (auto simp: getLimiter_def Let_def split: option.splits)
  ultimately show ?thesis using now_step [OF n] a by auto
qed

lemma forward_step:
  assumes "client_wf (hBedrock h)" "forward_invoke px ns name ep req h w = (reply, ops, h', w')"
  shows "\<exists>status rest. log w' = log w @ [(role_config (baseConfig (hBedrock h)) (endpoint_key ep), ModelId (epSpec ep),
          json_request (build_request (invoke_input req ep)))]
    \<and> time_of w \<le> time_of w' \<and> rateLimiters h' = rateLimiters h \<and> client_wf (hBedrock h')
    \<and> (case reply of Responded resp \<Rightarrow> hCode resp = (if status = ''success'' then 200 else 502)
       | Panicked msg \<Rightarrow> status = ''success'' \<and> negative_answer px (endpoint_key ep) (invoke_input req ep))
    \<and> ops = MInc InvocationTotal [ns, name, ModelId (epSpec ep), status] # rest
    \<and> ops_on InvocationTotal rest = []"
proof -
  let ?input = "invoke_input req ep"
  obtain t1 w1 where n1: "pxNow px w = (t1, w1)" by fastforce
  obtain res c w2 where i: "Invoke (pxAws px) (endpoint_key ep) ?input (hBedrock h) w1 = (res, c, w2)"
    by (metis prod.collapse)
  obtain t2 w3 where n2: "pxNow px w2 = (t2, w3)" by fastforce
  note run = assms(2) [unfolded forward_invoke_def Let_def, folded invoke_input_def]
  note steps = now_step [OF n1] invoke_step [OF assms(1) i] now_step [OF n2]
  have wf: "client_wf c" using Invoke_wf [OF assms(1) i] by blast
  have out: "w' = w3" "h' = h\<lparr>hBedrock := c\<rparr>"
    using run n1 i n2 by (cases res; auto simp: case_prod_unfold)+
  have "\<exists>status rest. (case reply of Responded resp \<Rightarrow> hCode resp = (if status = ''success'' then 200 else 502)
       | Panicked msg \<Rightarrow> status = ''success'' \<and> negative_answer px (endpoint_key ep) (invoke_input req ep))
    \<and> ops = MInc InvocationTotal [ns, name, ModelId (epSpec ep), status] # rest \<and> ops_on InvocationTotal rest = []"
  proof (cases res)
    case (Inl err)
    then have "reply = http_error [] (''bedrock error: '' @ error_text err) 502"
      "ops = MInc InvocationTotal [ns, name, ModelId (epSpec ep), ''error'']
         # [MInc ReconcileErrorsTotal [''proxy'', ''invocation_error'']]"
      using run n1 i n2 by simp_all
    then show ?thesis
      by (intro exI [of _ "''error''"] exI [of _ "[MInc ReconcileErrorsTotal [''proxy'', ''invocation_error'']]"])
        (simp add: go_simps)
  next
    case (Inr result)
    let ?labels = "[ns, name, ModelId (epSpec ep)]"
    let ?cost = "cost_report ?labels (ModelId (epSpec ep)) result"
    let ?json = "http_json (invoke_response result (snd ?cost))"
    let ?inc = "MInc InvocationTotal (?labels @ [''success''])"
    let ?ops = "[MAdd InputTokensTotal ?labels (f64 (of_int (ioInputTokens result))),
                   MAdd OutputTokensTotal ?labels (f64 (of_int (ioOutputTokens result))),
                   MObserve InvocationDurationSeconds ?labels (Seconds (t2 - t1))] @ fst ?cost"
    have m: "metered (?inc # ?ops) ?json = (reply, ops)"
      using run n1 i n2 Inr by (auto simp: case_prod_unfold prod_eq_iff)
    obtain rest where ops: "ops = ?inc # rest" "ops_on InvocationTotal rest = []"
      using metered_first [of ?inc InvocationTotal ?ops ?json] m by (auto simp: cost_report_quiet)
    have "case reply of Responded resp \<Rightarrow> hCode resp = 200 | Panicked msg \<Rightarrow> negative_answer px (endpoint_key ep) (invoke_input req ep)"
    proof (cases reply)
      case (Responded resp)
      then show ?thesis using m by (auto simp: metered_Responded go_simps)
    next
      case (Panicked msg)
      then have "\<not> list_all metric_op_ok (?inc # ?ops)" using m by (auto simp: metered_def go_simps)
      then have "\<not> (0 \<le> ioInputTokens result \<and> 0 \<le> ioOutputTokens result)"
        using answer_ops_ok [of result ?labels "''success''" "ModelId (epSpec ep)"] by auto
      then show ?thesis using i Inr Panicked unfolding negative_answer_def
        by (simp, intro exI [of _ "hBedrock h"] exI [of _ w1]) auto
    qed
    then show ?thesis using ops by (intro exI [of _ "''success''"] exI [of _ rest]) (simp split: reply.splits)
  qed
  moreover have "log w' = log w @ [(role_config (baseConfig (hBedrock h)) (endpoint_key ep), ModelId (epSpec ep),
          json_request (build_request ?input))] \<and> time_of w \<le> time_of w'"
    using steps out by (simp add: invoke_input_def)
  ultimately show ?thesis using wf out by auto
qed

end

subsection \<open>Sequences of requests and the rate bound\<close>

text \<open>Requests handled one after the other, with the metric calls of all of them.\<close>

fun invoke_run :: "('l, 'w) proxy \<Rightarrow> HttpRequest list \<Rightarrow> 'l Handler \<Rightarrow> 'w \<Rightarrow> metric_op list \<times> 'l Handler \<times> 'w" where
  "invoke_run px [] h w = ([], h, w)"
| "invoke_run px (r # rs) h w =
     (let (reply, ops, h1, w1) = HandleInvoke px r h w; (ops', h2, w2) = invoke_run px rs h1 w1
      in (ops @ ops', h2, w2))"

definition counts_for :: "string \<Rightarrow> string \<Rightarrow> metric_op \<Rightarrow> bool" where
  "counts_for ns name x = (case x of MInc m ls \<Rightarrow> m = InvocationTotal \<and> take 2 ls = [ns, name] | _ \<Rightarrow> False)"

text \<open>How many invocations of the endpoint the metrics count.\<close>

definition invocations :: "string \<Rightarrow> string \<Rightarrow> metric_op list \<Rightarrow> nat" where
  "invocations ns name ops = length (filter (counts_for ns name) ops)"

lemma invocations_simps [simp]:
  "invocations ns name [] = 0"
  "invocations ns name (x # xs) = (if counts_for ns name x then 1 else 0) + invocations ns name xs"
  "invocations ns name (xs @ ys) = invocations ns name xs + invocations ns name ys"
  by (simp_all add: invocations_def)

lemma invocations_other: "ops_on InvocationTotal ops = [] \<Longrightarrow> invocations ns name ops = 0"
proof (induction ops)
  case (Cons x xs)
  then have "op_metric x \<noteq> InvocationTotal" "invocations ns name xs = 0" by (auto split: if_splits)
  then show ?case by (cases x) (simp_all add: counts_for_def)
qed simp

definition rate_cap :: "int \<Rightarrow> int \<Rightarrow> int \<Rightarrow> rat" where
  "rate_cap rpm t0 t = of_int (limiter_burst rpm) + limiter_rate rpm * of_int (t - t0) / second"

lemma rate_cap_mono: "0 \<le> rpm \<Longrightarrow> t \<le> t' \<Longrightarrow> rate_cap rpm t0 t \<le> rate_cap rpm t0 t'"
  unfolding rate_cap_def
  by (intro add_left_mono divide_right_mono mult_left_mono limiter_rate_nonneg) (simp_all add: second_def)

lemma rate_cap_grow: "rate_cap rpm t0 t' = rate_cap rpm t0 t + limiter_rate rpm * of_int (t' - t) / second"
  by (simp add: rate_cap_def algebra_simps diff_divide_distrib add_divide_distrib)

lemma rate_cap_pos: "0 \<le> rpm \<Longrightarrow> t0 \<le> t \<Longrightarrow> 1 \<le> rate_cap rpm t0 t"
proof -
  assume "0 \<le> rpm" "t0 \<le> t"
  then have "0 \<le> limiter_rate rpm * of_int (t - t0) / second"
    using limiter_rate_nonneg by (simp add: second_def)
  moreover have "(1 :: rat) \<le> of_int (limiter_burst rpm)" using limiter_burst_bounds [of rpm] by simp
  ultimately show ?thesis by (simp add: rate_cap_def)
qed

locale metered_proxy = proxy_env px log time_of + rate_limiter "pxLimiter px" credit limit_of
  for px :: "('l, 'w) proxy" and log :: "'w \<Rightarrow> (AwsConfig \<times> string \<times> json) list" and time_of :: "'w \<Rightarrow> int"
    and credit :: "'l \<Rightarrow> int \<Rightarrow> rat" and limit_of :: "'l \<Rightarrow> rat"
begin

text \<open>Up to time t, n events have passed the limiter of a key.\<close>

definition within_rate :: "string \<Rightarrow> int \<Rightarrow> int \<Rightarrow> nat \<Rightarrow> 'l Handler \<Rightarrow> int \<Rightarrow> bool" where
  "within_rate key rpm t0 n h t \<longleftrightarrow> t0 \<le> t \<and> of_nat n \<le> rate_cap rpm t0 t \<and>
     (case rateLimiters h key of
        None \<Rightarrow> n = 0
      | Some l \<Rightarrow> limit_of l = limiter_rate rpm \<and> of_nat n + credit l t \<le> rate_cap rpm t0 t)"

lemma within_later:
  assumes "within_rate key rpm t0 n h t" "t \<le> t'" "0 \<le> rpm" "rateLimiters h' key = rateLimiters h key"
  shows "within_rate key rpm t0 n h' t'"
proof (cases "rateLimiters h key")
  case None
  then show ?thesis using assms rate_cap_mono [OF assms(3,2), of t0] by (auto simp: within_rate_def)
next
  case (Some l)
  then have l: "limit_of l = limiter_rate rpm" using assms(1) by (simp add: within_rate_def)
  then have "credit l t' \<le> credit l t + limiter_rate rpm * of_int (t' - t) / second"
    using credit_grows [of l t t'] assms(2) limiter_rate_nonneg [OF assms(3)] by simp
  then show ?thesis
    using Some l assms rate_cap_mono [OF assms(3,2), of t0] rate_cap_grow [of rpm t0 t' t]
    by (auto simp: within_rate_def)
qed

lemma within_token:
  assumes inv: "within_rate (limiter_key ns name) rpm t0 n h (time_of w)" and rpm: "1 \<le> rpm"
    and tok: "take_token px h ns name rpm w = (ok, h1, w1)"
  shows "within_rate (limiter_key ns name) rpm t0 (n + (if ok then 1 else 0)) h1 (time_of w1)"
proof -
  let ?key = "limiter_key ns name"
  obtain t l l' where t: "time_of w \<le> t" "t \<le> time_of w1" and a: "Allow (pxLimiter px) t l = (ok, l')"
    and l: "l = (case rateLimiters h ?key of Some l \<Rightarrow> l
               | None \<Rightarrow> NewLimiter (pxLimiter px) (limiter_rate rpm) (limiter_burst rpm))"
    and h1: "rateLimiters h1 = (rateLimiters h)(?key \<mapsto> l')"
    using token_step [OF tok] by blast
  have rpm0: "0 \<le> rpm" using rpm by simp
  have now: "within_rate ?key rpm t0 n h t" by (rule within_later [OF inv t(1) rpm0 refl])
  then have t0: "t0 \<le> t" by (simp add: within_rate_def)
  have lim: "limit_of l = limiter_rate rpm" and credit: "of_nat n + credit l t \<le> rate_cap rpm t0 t"
  proof -
    have "limit_of l = limiter_rate rpm \<and> of_nat n + credit l t \<le> rate_cap rpm t0 t"
    proof (cases "rateLimiters h ?key")
      case None
      then have "n = 0" using now by (simp add: within_rate_def)
      moreover have "credit l t \<le> of_int (limiter_burst rpm)"
        using None l new_credit [OF limiter_rate_nonneg [OF rpm0], of "limiter_burst rpm" t]
          limiter_burst_bounds [of rpm] by simp
      moreover have "of_int (limiter_burst rpm) \<le> rate_cap rpm t0 t"
        using rate_cap_mono [OF rpm0 t0, of t0] by (simp add: rate_cap_def)
      ultimately show ?thesis using None l by (simp add: new_limit)
    next
      case (Some k)
      then show ?thesis using now l by (simp add: within_rate_def)
    qed
    then show "limit_of l = limiter_rate rpm" "of_nat n + credit l t \<le> rate_cap rpm t0 t" by simp_all
  qed
  have "of_nat (n + (if ok then 1 else 0)) + credit l' t \<le> rate_cap rpm t0 t"
    using credit allow_takes [OF a] by simp
  moreover have "of_nat (n + (if ok then 1 else 0)) \<le> rate_cap rpm t0 t"
    using credit allow_iff [OF a] now by (auto simp: within_rate_def)
  moreover have "limit_of l' = limiter_rate rpm" using allow_limit [OF a] lim by simp
  ultimately have "within_rate ?key rpm t0 (n + (if ok then 1 else 0)) h1 t"
    using t0 h1 by (simp add: within_rate_def)
  then show ?thesis by (rule within_later [OF _ t(2) rpm0 refl])
qed

end

text \<open>Every read of one endpoint finds the same rate limit.\<close>

definition always_limited :: "('l, 'w) proxy \<Rightarrow> ('w \<Rightarrow> bool) \<Rightarrow> string \<Rightarrow> string \<Rightarrow> int \<Rightarrow> bool" where
  "always_limited px P ns name rpm \<longleftrightarrow>
     (\<forall>w ep w'. P w \<longrightarrow> fetchEndpoint px ns name w = (Inr ep, w') \<longrightarrow>
        RateLimit (epSpec ep) = Some \<lparr>RequestsPerMinute = rpm\<rparr>)"

text \<open>A property of the world that the handler's library calls keep, so that HandleInvoke keeps it.\<close>

definition keeps :: "('l, 'w) proxy \<Rightarrow> ('w \<Rightarrow> bool) \<Rightarrow> bool" where
  "keeps px P \<longleftrightarrow> (\<forall>w. P w \<longrightarrow> (\<forall>k. P (snd (rGet (epAPI (pxKube px)) k w))) \<and> P (snd (pxNow px w))
     \<and> (\<forall>cl m b. P (snd (awsInvokeModel (pxAws px) cl m b w))))"

lemma Invoke_world: "Invoke sdk key input c w = (res, c', w') \<Longrightarrow>
    w' = w \<or> (\<exists>cl m b. w' = snd (awsInvokeModel sdk cl m b w))"
  by (auto simp: Invoke_def Let_def split: prod.splits sum.splits) (metis snd_conv)+

lemma keeps_forward:
  assumes "keeps px P" "P w" "forward_invoke px ns name ep req h w = (reply, ops, h', w')"
  shows "P w'"
proof -
  obtain t1 w1 where n1: "pxNow px w = (t1, w1)" by fastforce
  obtain res c w2 where i: "Invoke (pxAws px) (endpoint_key ep) (invoke_input req ep) (hBedrock h) w1 = (res, c, w2)"
    by (metis prod.collapse)
  obtain t2 w3 where n2: "pxNow px w2 = (t2, w3)" by fastforce
  have w1: "P w1" using assms(1,2) n1 by (metis keeps_def snd_conv)
  have w2: "P w2" using Invoke_world [OF i] w1 assms(1) by (auto simp: keeps_def)
  have w3: "P w3" using assms(1) w2 n2 by (metis keeps_def snd_conv)
  note run = assms(3) [unfolded forward_invoke_def Let_def, folded invoke_input_def]
  have "w' = w3" using run n1 i n2 by (cases res) (auto simp: case_prod_unfold)
  with w3 show ?thesis by simp
qed

lemma keeps_fetch: "keeps px P \<Longrightarrow> P w \<Longrightarrow> fetchEndpoint px ns name w = (g, w') \<Longrightarrow> P w'"
  unfolding fetchEndpoint_def by (metis keeps_def snd_conv)

lemma keeps_token: "keeps px P \<Longrightarrow> P w \<Longrightarrow> take_token px h ns name rpm w = (ok, h', w') \<Longrightarrow> P w'"
proof -
  assume k: "keeps px P" "P w" and t: "take_token px h ns name rpm w = (ok, h', w')"
  have "w' = snd (pxNow px w)" using t by (auto simp: take_token_def Let_def split: prod.splits)
  with k show "P w'" by (simp add: keeps_def)
qed

lemma keeps_invoke:
  assumes k: "keeps px P" "P w" and run: "HandleInvoke px r h w = (reply, ops, h', w')"
  shows "P w'"
proof (cases rule: HandleInvoke_cases [where px = px and r = r and h = h and w = w])
  case (early code msg w1)
  then show ?thesis using run k(2) keeps_fetch [OF k] by auto
next
  case (limited ns name req ep w1 rl h2 w2)
  then show ?thesis using run keeps_token [OF k(1) keeps_fetch [OF k limited(2)] limited(5)] by simp
next
  case (unmetered ns name req ep w1)
  have "forward_invoke px ns name ep req h w1 = (reply, ops, h', w')" using unmetered(5) run by simp
  then show ?thesis by (rule keeps_forward [OF k(1) keeps_fetch [OF k unmetered(2)]])
next
  case (metered ns name req ep w1 rl h2 w2)
  have "forward_invoke px ns name ep req h2 w2 = (reply, ops, h', w')" using metered(6) run by simp
  then show ?thesis
    by (rule keeps_forward [OF k(1) keeps_token [OF k(1) keeps_fetch [OF k metered(2)] metered(5)]])
qed

lemma always_limitedD:
  "always_limited px P ns name rpm \<Longrightarrow> P w \<Longrightarrow> fetchEndpoint px ns name w = (Inr ep, w') \<Longrightarrow>
   RateLimit (epSpec ep) = Some \<lparr>RequestsPerMinute = rpm\<rparr>"
  unfolding always_limited_def by blast

context metered_proxy begin

lemma within_forward:
  assumes inv: "within_rate key rpm t0 n h (time_of w)" and rpm: "1 \<le> rpm" and wf: "client_wf (hBedrock h)"
    and fwd: "forward_invoke px ns' name' ep req h w = (reply, ops, h', w')"
  shows "within_rate key rpm t0 n h' (time_of w') \<and> client_wf (hBedrock h')
    \<and> invocations ns name ops = (if ns' = ns \<and> name' = name then 1 else 0)"
proof -
  obtain status rest where f: "time_of w \<le> time_of w'" "rateLimiters h' = rateLimiters h" "client_wf (hBedrock h')"
    "ops = MInc InvocationTotal [ns', name', ModelId (epSpec ep), status] # rest" "ops_on InvocationTotal rest = []"
    using forward_step [OF wf fwd] by auto
  have "within_rate key rpm t0 n h' (time_of w')"
    by (rule within_later [OF inv f(1)]) (use rpm f(2) in simp_all)
  moreover have "invocations ns name ops = (if ns' = ns \<and> name' = name then 1 else 0)"
    using invocations_other [OF f(5), of ns name] unfolding f(4) by (simp add: counts_for_def)
  ultimately show ?thesis using f(3) by blast
qed

lemma within_step:
  assumes inv: "within_rate (limiter_key ns name) rpm t0 n h (time_of w)" and rpm: "1 \<le> rpm"
    and ns: "CHR ''/'' \<notin> set ns" and always: "always_limited px P ns name rpm" "P w" and wf: "client_wf (hBedrock h)"
    and run: "HandleInvoke px r h w = (reply, ops, h', w')"
  shows "within_rate (limiter_key ns name) rpm t0 (n + invocations ns name ops) h' (time_of w')
    \<and> client_wf (hBedrock h')"
proof -
  have rpm0: "0 \<le> rpm" using rpm by simp
  have slash: "CHR ''/'' \<notin> set ns'" if "invoke_wants r ns' name' req" for ns' name' req
    using that parsePathSegments_namespace by (auto simp: invoke_wants_def)
  show ?thesis
  proof (cases rule: HandleInvoke_cases [where px = px and r = r and h = h and w = w])
    case (early code msg w1)
    then have "time_of w \<le> time_of w1" using fetch_logs by auto
    moreover have "ops = []" "h' = h" "w' = w1" using early(1) run by simp_all
    ultimately show ?thesis using within_later [OF inv _ rpm0 refl] wf by simp
  next
    case (limited ns' name' req ep w1 rl h2 w2)
    have w1: "within_rate (limiter_key ns name) rpm t0 n h (time_of w1)"
      using within_later [OF inv _ rpm0 refl] fetch_logs [OF limited(2)] by simp
    have out: "ops = [MInc RateLimitedTotal [ns', name']]" "h' = h2" "w' = w2" using limited(6) run by simp_all
    have tok: "time_of w1 \<le> time_of w2" "hBedrock h2 = hBedrock h" using token_step [OF limited(5)] by simp_all
    show ?thesis
    proof (cases "ns' = ns \<and> name' = name")
      case True
      then have "RequestsPerMinute rl = rpm"
        using limited(2,4) always_limitedD [OF always] by auto
      then show ?thesis using within_token [OF w1 rpm, of False h2 w2] limited(5) True out tok wf
        by (simp add: counts_for_def)
    next
      case False
      then have "limiter_key ns' name' \<noteq> limiter_key ns name"
        using limiter_key_inject [OF slash [OF limited(1)] ns] by blast
      then have "rateLimiters h2 (limiter_key ns name) = rateLimiters h (limiter_key ns name)"
        using token_step [OF limited(5)] by auto
      then show ?thesis using within_later [OF w1 tok(1) rpm0, of h2] out tok wf by (simp add: counts_for_def)
    qed
  next
    case (unmetered ns' name' req ep w1)
    then have other: "\<not> (ns' = ns \<and> name' = name)" using always_limitedD [OF always] by auto
    have w1: "within_rate (limiter_key ns name) rpm t0 n h (time_of w1)"
      using within_later [OF inv _ rpm0 refl] fetch_logs [OF unmetered(2)] by simp
    show ?thesis using within_forward [OF w1 rpm wf, of ns' name' ep req reply ops h' w' ns name] unmetered(5) run other
      by auto
  next
    case (metered ns' name' req ep w1 rl h2 w2)
    have w1: "within_rate (limiter_key ns name) rpm t0 n h (time_of w1)"
      using within_later [OF inv _ rpm0 refl] fetch_logs [OF metered(2)] by simp
    have tok: "time_of w1 \<le> time_of w2" "hBedrock h2 = hBedrock h" using token_step [OF metered(5)] by simp_all
    have w2: "within_rate (limiter_key ns name) rpm t0 (n + (if ns' = ns \<and> name' = name then 1 else 0)) h2 (time_of w2)"
    proof (cases "ns' = ns \<and> name' = name")
      case True
      then have "RequestsPerMinute rl = rpm"
        using metered(2,4) always_limitedD [OF always] by auto
      then show ?thesis using within_token [OF w1 rpm, of True h2 w2] metered(5) True by simp
    next
      case False
      then have "limiter_key ns' name' \<noteq> limiter_key ns name"
        using limiter_key_inject [OF slash [OF metered(1)] ns] by blast
      then have "rateLimiters h2 (limiter_key ns name) = rateLimiters h (limiter_key ns name)"
        using token_step [OF metered(5)] by auto
      then show ?thesis using within_later [OF w1 tok(1) rpm0, of h2] False by auto
    qed
    have wf2: "client_wf (hBedrock h2)" using tok(2) wf by simp
    have fwd: "forward_invoke px ns' name' ep req h2 w2 = (reply, ops, h', w')" using metered(6) run by simp
    show ?thesis using within_forward [OF w2 rpm wf2 fwd, of ns name] by simp
  qed
qed

lemma within_run:
  assumes "within_rate (limiter_key ns name) rpm t0 n h (time_of w)" "1 \<le> rpm"
    "CHR ''/'' \<notin> set ns" "always_limited px P ns name rpm" "keeps px P" "P w" "client_wf (hBedrock h)"
    "invoke_run px rs h w = (ops, h', w')"
  shows "within_rate (limiter_key ns name) rpm t0 (n + invocations ns name ops) h' (time_of w')"
  using assms(1,6,7,8)
proof (induction rs arbitrary: n h w ops)
  case (Cons r rs)
  obtain reply ops1 h1 w1 where s: "HandleInvoke px r h w = (reply, ops1, h1, w1)" by (metis prod.collapse)
  obtain ops2 where t: "invoke_run px rs h1 w1 = (ops2, h', w')" "ops = ops1 @ ops2"
    using Cons.prems(4) s by (auto split: prod.splits)
  note step = within_step [OF Cons.prems(1) assms(2-4) Cons.prems(2,3) s]
  have "P w1" by (rule keeps_invoke [OF assms(5) Cons.prems(2) s])
  have "within_rate (limiter_key ns name) rpm t0 (n + invocations ns name ops1 + invocations ns name ops2) h' (time_of w')"
    using Cons.IH [OF _ _ _ t(1), of "n + invocations ns name ops1"] step \<open>P w1\<close> by simp
  then show ?case by (simp add: t(2) add.assoc)
qed simp

end

subsection \<open>Admitted requests\<close>

text \<open>All gates of HandleInvoke in one predicate.\<close>

definition admits :: "('l, 'w) proxy \<Rightarrow> HttpRequest \<Rightarrow> 'l Handler \<Rightarrow> 'w
    \<Rightarrow> string \<Rightarrow> string \<Rightarrow> InvokeRequest \<Rightarrow> ModelEndpoint \<Rightarrow> bool" where
  "admits px r h w ns name req ep \<longleftrightarrow>
     rqMethod r = ''POST'' \<and> parsePathSegments (rqPath r) ''/invoke/'' = Some (ns, name)
     \<and> unmarshal dec_invoke zero_invoke (rqBody r) = Inr req
     \<and> fst (fetchEndpoint px ns name w) = Inr ep \<and> Available (epStatus ep)
     \<and> (case RateLimit (epSpec ep) of
          None \<Rightarrow> True
        | Some rl \<Rightarrow> fst (take_token px h ns name (RequestsPerMinute rl) (snd (fetchEndpoint px ns name w))))"

lemma admits_unique:
  "admits px r h w ns name req ep \<Longrightarrow> admits px r h w ns' name' req' ep' \<Longrightarrow>
   ns' = ns \<and> name' = name \<and> req' = req \<and> ep' = ep"
  by (auto simp: admits_def)

lemma admits_wants: "admits px r h w ns name req ep \<Longrightarrow> invoke_wants r ns name req"
  by (simp add: admits_def invoke_wants_def)

lemma forward_success:
  assumes "forward_invoke px ns name ep req h w = (Responded resp, ops, h', w')" "hCode resp = 200"
  shows "\<exists>out d. let labels = [ns, name, ModelId (epSpec ep)];
        (costOps, costStr) = cost_report labels (ModelId (epSpec ep)) out in
      hBody resp = JsonBody (invoke_response out costStr)
      \<and> ops = [MInc InvocationTotal (labels @ [''success'']),
               MAdd InputTokensTotal labels (f64 (of_int (ioInputTokens out))),
               MAdd OutputTokensTotal labels (f64 (of_int (ioOutputTokens out))),
               MObserve InvocationDurationSeconds labels d] @ costOps
      \<and> list_all metric_op_ok ops"
proof -
  obtain t1 w1 where n1: "pxNow px w = (t1, w1)" by fastforce
  obtain res c w2 where i: "Invoke (pxAws px) (endpoint_key ep) (invoke_input req ep) (hBedrock h) w1 = (res, c, w2)"
    by (metis prod.collapse)
  obtain t2 w3 where n2: "pxNow px w2 = (t2, w3)" by fastforce
  note run = assms(1) [unfolded forward_invoke_def Let_def, folded invoke_input_def]
  show ?thesis
  proof (cases res)
    case (Inl err)
    then have "hCode resp = 502" using run n1 i n2 by (auto simp: go_simps)
    then show ?thesis using assms(2) by simp
  next
    case (Inr out)
    let ?labels = "[ns, name, ModelId (epSpec ep)]"
    let ?cost = "cost_report ?labels (ModelId (epSpec ep)) out"
    let ?ops = "[MInc InvocationTotal (?labels @ [''success'']),
               MAdd InputTokensTotal ?labels (f64 (of_int (ioInputTokens out))),
               MAdd OutputTokensTotal ?labels (f64 (of_int (ioOutputTokens out))),
               MObserve InvocationDurationSeconds ?labels (Seconds (t2 - t1))] @ fst ?cost"
    have "metered ?ops (http_json (invoke_response out (snd ?cost))) = (Responded resp, ops)"
      using run n1 i n2 Inr by (auto simp: case_prod_unfold prod_eq_iff)
    then have "list_all metric_op_ok ?ops" "ops = ?ops"
      "http_json (invoke_response out (snd ?cost)) = Responded resp"
      unfolding metered_Responded by blast+
    then show ?thesis
      by (intro exI [of _ out] exI [of _ "Seconds (t2 - t1)"])
        (auto simp: go_simps Let_def case_prod_unfold)
  qed
qed

context proxy_env begin

lemma HandleInvoke_admitted:
  assumes "client_wf (hBedrock h)" "HandleInvoke px r h w = (reply, ops, h', w')"
    and "admits px r h w ns name req ep"
  shows "\<exists>h2 w2. hBedrock h2 = hBedrock h \<and> log w2 = log w
    \<and> forward_invoke px ns name ep req h2 w2 = (reply, ops, h', w')"
proof -
  note want = admits_wants [OF assms(3)]
  show ?thesis
  proof (cases rule: HandleInvoke_cases [where px = px and r = r and h = h and w = w])
    case early
    have "fetchEndpoint px ns name w = (Inr ep, snd (fetchEndpoint px ns name w))" "Available (epStatus ep)"
      using assms(3) by (auto simp: admits_def prod_eq_iff)
    then show ?thesis using early(4) want by blast
  next
    case (limited ns' name' req' ep' w1 rl h2 w2)
    then have "\<not> admits px r h w ns' name' req' ep'" by (simp add: admits_def)
    moreover have "ns' = ns \<and> name' = name \<and> req' = req" using invoke_wants_unique [OF want limited(1)] .
    moreover have "ep' = ep" using assms(3) limited(2) calculation(2) by (simp add: admits_def)
    ultimately show ?thesis using assms(3) by blast
  next
    case (unmetered ns' name' req' ep' w1)
    have "ns' = ns \<and> name' = name \<and> req' = req" using invoke_wants_unique [OF want unmetered(1)] .
    moreover have "ep' = ep" using assms(3) unmetered(2) calculation by (simp add: admits_def)
    ultimately show ?thesis using unmetered(5) assms(2) fetch_logs [OF unmetered(2)]
      by (intro exI [of _ h] exI [of _ w1]) simp
  next
    case (metered ns' name' req' ep' w1 rl h2 w2)
    have "ns' = ns \<and> name' = name \<and> req' = req" using invoke_wants_unique [OF want metered(1)] .
    moreover have "ep' = ep" using assms(3) metered(2) calculation by (simp add: admits_def)
    ultimately show ?thesis using metered(6) assms(2) fetch_logs [OF metered(2)] token_step [OF metered(5)]
      by (intro exI [of _ h2] exI [of _ w2]) simp
  qed
qed

lemma HandleInvoke_refused:
  assumes "HandleInvoke px r h w = (reply, ops, h', w')" "\<nexists>ns name req ep. admits px r h w ns name req ep"
  shows "\<exists>resp. reply = Responded resp \<and> hCode resp \<in> {400, 404, 405, 429, 503} \<and> log w' = log w
    \<and> hBedrock h' = hBedrock h \<and> ops_on InvocationTotal ops = []"
proof (cases rule: HandleInvoke_cases [where px = px and r = r and h = h and w = w])
  case (early code msg w1)
  then have "log w1 = log w" using fetch_logs by auto
  with early assms(1) show ?thesis by (auto simp: go_simps)
next
  case (limited ns name req ep w1 rl h2 w2)
  then show ?thesis using assms(1) fetch_logs [OF limited(2)] token_step [OF limited(5)]
    by (auto simp: go_simps)
next
  case (unmetered ns name req ep w1)
  then have "admits px r h w ns name req ep" by (simp add: admits_def invoke_wants_def)
  with assms(2) show ?thesis by blast
next
  case (metered ns name req ep w1 rl h2 w2)
  then have "admits px r h w ns name req ep" by (simp add: admits_def invoke_wants_def)
  with assms(2) show ?thesis by blast
qed

end

context metered_proxy begin

lemma run_within:
  assumes wf: "client_wf br" and ns: "CHR ''/'' \<notin> set ns" and rpm: "1 \<le> rpm"
    and always: "always_limited px P ns name rpm" "keeps px P" "P w"
    and run: "invoke_run px rs (NewHandler br) w = (ops, h', w')"
  shows "within_rate (limiter_key ns name) rpm (time_of w) (invocations ns name ops) h' (time_of w')"
proof -
  have "within_rate (limiter_key ns name) rpm (time_of w) 0 (NewHandler br) (time_of w)"
    using rate_cap_pos [of rpm "time_of w" "time_of w"] rpm by (simp add: within_rate_def NewHandler_def)
  moreover have "client_wf (hBedrock (NewHandler br))" using wf by (simp add: NewHandler_def)
  ultimately have "within_rate (limiter_key ns name) rpm (time_of w) (0 + invocations ns name ops) h' (time_of w')"
    using within_run rpm ns always run by blast
  then show ?thesis by simp
qed

lemmas run_bound = run_within [unfolded within_rate_def, THEN conjunct2, THEN conjunct1]
  and run_time = run_within [unfolded within_rate_def, THEN conjunct1]

end

lemma limiter_rate_le: "0 \<le> rpm \<Longrightarrow> rpm \<le> 3600 \<Longrightarrow> limiter_rate rpm \<le> 60"
proof -
  assume rpm: "0 \<le> rpm" "rpm \<le> 3600"
  then have "f64 (of_int rpm) = of_int rpm" by (intro f64_of_int) simp
  moreover have "(of_int rpm :: rat) / 60 \<le> of_int 60" using rpm(2) by (simp add: divide_le_eq)
  then have "f64 (of_int rpm / 60) \<le> f64 (of_int 60)" by (rule f64_mono)
  moreover have "f64 (of_int 60) = of_int 60" by (rule f64_of_int) simp
  ultimately show ?thesis by (simp add: limiter_rate_def fdiv_def)
qed

end
