(* ===== verification/Proxy_Properties.thy ===== *)
theory Proxy_Properties
  imports Proxy_Handler
begin

section \<open>Properties of the proxy\<close>

text \<open>
  The proxy on the in-memory API server, with a Bedrock that records every call, token buckets and
  the cluster's clock, which discharges what \<open>proxy_env\<close> and \<open>metered_proxy\<close> ask; then the claims
  about \<open>HandleInvoke\<close> and \<open>HandleRender\<close>, for every environment that keeps those contracts.
\<close>

subsection \<open>The proxy over the in-memory cluster\<close>

record proxy_world = cluster +
  sent :: "(AwsConfig \<times> string \<times> json) list"

definition recording_aws :: "(string \<Rightarrow> json \<Rightarrow> go_error + (string + json)) \<Rightarrow> proxy_world aws" where
  "recording_aws ans =
     \<lparr>awsInvokeModel = (\<lambda>cl m body w. (ans m body, w\<lparr>sent := sent w @ [(clConfig cl, m, body)]\<rparr>)),
      awsGetFoundationModel = (\<lambda>cl m w. (None, w))\<rparr>"

definition memory_proxy :: "engine \<Rightarrow> (string \<Rightarrow> json \<Rightarrow> go_error + (string + json)) \<Rightarrow> (bucket, proxy_world) proxy" where
  "memory_proxy T ans =
     \<lparr>pxKube = cluster_kube, pxAws = recording_aws ans, pxEngine = T, pxLimiter = token_bucket,
      pxNow = (\<lambda>w. (clock w, w\<lparr>clock := clock w + 1\<rparr>))\<rparr>"

lemma memory_proxy_sel [simp]:
  "pxKube (memory_proxy T ans) = cluster_kube" "pxAws (memory_proxy T ans) = recording_aws ans"
  "pxEngine (memory_proxy T ans) = T" "pxLimiter (memory_proxy T ans) = token_bucket"
  "pxNow (memory_proxy T ans) w = (clock w, w\<lparr>clock := clock w + 1\<rparr>)"
  by (simp_all add: memory_proxy_def)

lemma next_fault_sent: "next_fault w = (f, w') \<Longrightarrow> sent w' = sent w \<and> clock w' = clock w"
  by (auto simp: next_fault_def split: list.splits)

interpretation memory_proxy: metered_proxy "memory_proxy T ans" sent clock bucket_credit bkLimit
  for T ans
proof (rule metered_proxy.intro)
  show "rate_limiter (pxLimiter (memory_proxy T ans)) bucket_credit bkLimit"
    by (simp add: bucket.rate_limiter_axioms)
  show "proxy_env (memory_proxy T ans) sent clock"
    by unfold_locales
      (auto simp: recording_aws_def mem_get_def split: prod.split option.split dest: next_fault_sent)
qed

lemma memory_env: "proxy_env (memory_proxy T ans) sent clock"
  by unfold_locales

text \<open>One available endpoint, and a Bedrock that says hello.\<close>

definition haiku :: "RateLimitSpec option \<Rightarrow> ModelEndpoint" where
  "haiku rl =
     \<lparr>epMeta = \<lparr>Name = ''haiku'', Namespace = ''team-a'', Generation = 1, DeletionTimestamp = None, Finalizers = []\<rparr>,
      epSpec = \<lparr>ModelId = ''amazon.nova-lite-v1:0'', Region = ''eu-west-1'',
        IRSARoleArn = ''arn:aws:iam::123456789012:role/bedrock'', epMaxTokens = Some 512, CostBudget = None,
        RateLimit = rl, GuardrailPolicyRef = None\<rparr>,
      epStatus = \<lparr>Available = True, epConditions = [], CostThisMonth = [], CostToday = [],
        InvocationsToday = 0, TotalInputTokens = 0, TotalOutputTokens = 0, ServiceName = [],
        epObservedGeneration = 1\<rparr>\<rparr>"

definition haiku_template :: PromptTemplate where
  "haiku_template =
     \<lparr>ptMeta = \<lparr>Name = ''greet'', Namespace = ''team-a'', Generation = 1, DeletionTimestamp = None, Finalizers = []\<rparr>,
      ptSpec = \<lparr>Template = ''Hi {{.who}}'',
        Variables = [\<lparr>tvName = ''who'', tvType = TemplateVariableTypeString, tvRequired = False,
                      tvDefault = ''you'', tvDescription = []\<rparr>],
        ptModelEndpointRef = \<lparr>refName = ''haiku''\<rparr>, ptSystemPrompt = [], ptMaxTokens = None\<rparr>,
      ptStatus = \<lparr>ptConditions = [], RenderCount = 0, ptObservedGeneration = 0\<rparr>\<rparr>"

definition haiku_world :: "RateLimitSpec option \<Rightarrow> proxy_world" where
  "haiku_world rl =
     \<lparr>objects = \<lparr>stEndpoints = [\<lparr>nnNamespace = ''team-a'', nnName = ''haiku''\<rparr> \<mapsto> haiku rl],
        stTemplates = [\<lparr>nnNamespace = ''team-a'', nnName = ''greet''\<rparr> \<mapsto> haiku_template],
        stPolicies = Map.empty, stServices = Map.empty\<rparr>, clock = 1000, faults = [], sent = []\<rparr>"

definition haiku_proxy :: "(bucket, proxy_world) proxy" where
  "haiku_proxy = memory_proxy field_engine (\<lambda>m body. Inr (Inr sample_reply))"

definition post :: "string \<Rightarrow> json \<Rightarrow> HttpRequest" where
  "post path body = \<lparr>rqMethod = ''POST'', rqPath = path, rqBody = Inr body\<rparr>"

lemma parse_haiku: "parsePathSegments ''/invoke/team-a/haiku'' ''/invoke/'' = Some (''team-a'', ''haiku'')"
  using parsePathSegments_iff [of "''/invoke/''" "''team-a/haiku''" "''team-a''" "''haiku''"] by simp

lemma haiku_env: "proxy_env haiku_proxy sent clock"
  by (simp add: haiku_proxy_def memory_env)

lemma hBedrock_New [simp]: "hBedrock (NewHandler br) = br"
  by (simp add: NewHandler_def)

lemma haiku_wf: "client_wf (hBedrock (NewHandler sample_client))"
  by (simp add: NewHandler_def sample_client_wf)

lemma haiku_fetch: "fetchEndpoint haiku_proxy ''team-a'' ''haiku'' (haiku_world rl) = (Inr (haiku rl), haiku_world rl)"
  by (simp add: fetchEndpoint_def haiku_proxy_def haiku_world_def haiku_def mem_get_def next_fault_def keyOf_def)

lemma haiku_sel [simp]:
  "Available (epStatus (haiku rl))" "RateLimit (epSpec (haiku rl)) = rl"
  "ModelId (epSpec (haiku rl)) = ''amazon.nova-lite-v1:0''" "epMaxTokens (epSpec (haiku rl)) = Some 512"
  by (simp_all add: haiku_def)

lemma haiku_admits:
  "admits haiku_proxy (post ''/invoke/team-a/haiku'' (JObj [(''maxTokens'', JInt n)])) (NewHandler sample_client)
     (haiku_world None) ''team-a'' ''haiku'' (zero_invoke\<lparr>irMaxTokens := n\<rparr>) (haiku None)"
  if "n = 9999 \<or> n = -1"
  using that
  by (auto simp: admits_def post_def parse_haiku haiku_fetch haiku_def unmarshal_def dec_invoke_def find_field_def
      into_def zero_invoke_def)

subsection \<open>HandleInvoke\<close>

text \<open>C1: HandleInvoke calls Bedrock exactly for admitted requests: a POST with a well-formed path and
  body for an endpoint that exists, is available and, if rate limited, has a token left. Such a request
  makes one call, with the role and region of the endpoint, its model and the marshalled input, counts
  one invocation and is answered with 200 or 502; any other makes none, counts none, leaves the SDK
  clients alone and is answered with 400, 404, 405, 429 or 503. The handler panics only when Bedrock
  answers with a negative token count, which a counter refuses.\<close>

theorem HandleInvoke_calls_bedrock:
  assumes "proxy_env px calls time_of" "client_wf (hBedrock h)"
    and "HandleInvoke px r h w = (reply, ops, h', w')"
  shows "(\<nexists>ns name req ep. admits px r h w ns name req ep)
       \<and> (\<exists>resp. reply = Responded resp \<and> hCode resp \<in> {400, 404, 405, 429, 503})
       \<and> calls w' = calls w \<and> hBedrock h' = hBedrock h \<and> ops_on InvocationTotal ops = []
     \<or> (\<exists>ns name req ep status. admits px r h w ns name req ep
       \<and> calls w' = calls w @ [((baseConfig (hBedrock h))\<lparr>cfgRegion := Region (epSpec ep),
             cfgCreds := AssumeRole (cfgCreds (baseConfig (hBedrock h))) (IRSARoleArn (epSpec ep)) ''k8s-ai-operator''\<rparr>,
           ModelId (epSpec ep), json_request (build_request (invoke_input req ep)))]
       \<and> (case reply of Responded resp \<Rightarrow> hCode resp = (if status = ''success'' then 200 else 502)
          | Panicked msg \<Rightarrow> status = ''success'' \<and> negative_answer px (endpoint_key ep) (invoke_input req ep))
       \<and> ops_on InvocationTotal ops = [MInc InvocationTotal [ns, name, ModelId (epSpec ep), status]])"
proof (cases "\<exists>ns name req ep. admits px r h w ns name req ep")
  case False
  then show ?thesis using proxy_env.HandleInvoke_refused [OF assms(1,3)] by blast
next
  case True
  then obtain ns name req ep where adm: "admits px r h w ns name req ep" by blast
  obtain h2 w2 where h2: "hBedrock h2 = hBedrock h" "calls w2 = calls w"
    and fwd: "forward_invoke px ns name ep req h2 w2 = (reply, ops, h', w')"
    using proxy_env.HandleInvoke_admitted [OF assms adm] by blast
  obtain status rest where f:
    "calls w' = calls w2 @ [(role_config (baseConfig (hBedrock h2)) (endpoint_key ep), ModelId (epSpec ep),
          json_request (build_request (invoke_input req ep)))]"
    "case reply of Responded resp \<Rightarrow> hCode resp = (if status = ''success'' then 200 else 502)
          | Panicked msg \<Rightarrow> status = ''success'' \<and> negative_answer px (endpoint_key ep) (invoke_input req ep)"
    "ops = MInc InvocationTotal [ns, name, ModelId (epSpec ep), status] # rest" "ops_on InvocationTotal rest = []"
    using proxy_env.forward_step [OF assms(1) _ fwd] assms(2) h2(1) by auto
  have "calls w' = calls w @ [((baseConfig (hBedrock h))\<lparr>cfgRegion := Region (epSpec ep),
             cfgCreds := AssumeRole (cfgCreds (baseConfig (hBedrock h))) (IRSARoleArn (epSpec ep)) ''k8s-ai-operator''\<rparr>,
           ModelId (epSpec ep), json_request (build_request (invoke_input req ep)))]"
    using f(1) h2 by (simp add: role_config_def endpoint_key_def)
  moreover have "ops_on InvocationTotal ops = [MInc InvocationTotal [ns, name, ModelId (epSpec ep), status]]"
    using f(3,4) by simp
  ultimately show ?thesis using f(2) adm by blast
qed

theorem HandleInvoke_calls_bedrock_witness:
  "\<exists>reply ops h' w' call. HandleInvoke haiku_proxy (post ''/invoke/team-a/haiku'' (JObj [(''maxTokens'', JInt 9999)]))
      (NewHandler sample_client) (haiku_world None) = (reply, ops, h', w')
    \<and> sent w' = [call] \<and> fst (snd call) = ''amazon.nova-lite-v1:0''"
proof -
  let ?r = "post ''/invoke/team-a/haiku'' (JObj [(''maxTokens'', JInt 9999)])"
  obtain reply ops h' w' where run: "HandleInvoke haiku_proxy ?r (NewHandler sample_client) (haiku_world None) = (reply, ops, h', w')"
    by (metis prod.collapse)
  note adm = haiku_admits [of 9999, simplified]
  from HandleInvoke_calls_bedrock [OF haiku_env haiku_wf run] adm
  obtain ns name req ep call where "admits haiku_proxy ?r (NewHandler sample_client) (haiku_world None) ns name req ep"
    "sent w' = sent (haiku_world None) @ [call]" "fst (snd call) = ModelId (epSpec ep)"
    by fastforce
  moreover have "ep = haiku None" using admits_unique [OF adm calculation(1)] by simp
  ultimately have "sent w' = [call]" "fst (snd call) = ''amazon.nova-lite-v1:0''" by (simp_all add: haiku_world_def)
  then show ?thesis using run by blast
qed

text \<open>C10: an endpoint's token cap binds every request that does not name a negative number: zero or
  too much is replaced by the cap, anything from one up to it is kept. A negative number slips through:
  it is below the cap and, since only positive numbers are put into the body, Bedrock is called with no
  limit at all.\<close>

theorem HandleInvoke_token_cap:
  assumes "proxy_env px calls time_of" "client_wf (hBedrock h)"
    and "HandleInvoke px r h w = (reply, ops, h', w')"
    and "admits px r h w ns name req ep" "epMaxTokens (epSpec ep) = Some n" "1 \<le> n"
  shows "\<exists>key input. calls w' = calls w @ [(key, ModelId (epSpec ep), json_request (build_request input))]
    \<and> (case crInferenceConfig (build_request input) of None \<Rightarrow> None | Some ic \<Rightarrow> icMaxTokens ic) =
        (if irMaxTokens req < 0 then None
         else if irMaxTokens req = 0 then Some n else Some (min (irMaxTokens req) n))"
proof -
  obtain h2 w2 where h2: "hBedrock h2 = hBedrock h" "calls w2 = calls w"
    and fwd: "forward_invoke px ns name ep req h2 w2 = (reply, ops, h', w')"
    using proxy_env.HandleInvoke_admitted [OF assms(1-4)] by blast
  have "calls w' = calls w @ [(role_config (baseConfig (hBedrock h)) (endpoint_key ep), ModelId (epSpec ep),
          json_request (build_request (invoke_input req ep)))]"
    using proxy_env.forward_step [OF assms(1) _ fwd] assms(2) h2 by auto
  moreover have "iiMaxTokens (invoke_input req ep) = capped (irMaxTokens req) (Some n)"
    using assms(5) by (simp add: invoke_input_def)
  moreover from this have "(case crInferenceConfig (build_request (invoke_input req ep)) of None \<Rightarrow> None | Some ic \<Rightarrow> icMaxTokens ic) =
        (if irMaxTokens req < 0 then None
         else if irMaxTokens req = 0 then Some n else Some (min (irMaxTokens req) n))"
    using assms(6) by (auto simp: build_request_def capped_def min_def)
  ultimately show ?thesis by blast
qed

theorem HandleInvoke_token_cap_witness:
  "\<exists>reply ops h' w' key input. HandleInvoke haiku_proxy (post ''/invoke/team-a/haiku'' (JObj [(''maxTokens'', JInt (-1))]))
      (NewHandler sample_client) (haiku_world None) = (reply, ops, h', w')
    \<and> sent w' = [(key, ''amazon.nova-lite-v1:0'', json_request (build_request input))]
    \<and> (case crInferenceConfig (build_request input) of None \<Rightarrow> None | Some ic \<Rightarrow> icMaxTokens ic) = None"
proof -
  let ?r = "post ''/invoke/team-a/haiku'' (JObj [(''maxTokens'', JInt (-1))])"
  obtain reply ops h' w' where run: "HandleInvoke haiku_proxy ?r (NewHandler sample_client) (haiku_world None) = (reply, ops, h', w')"
    by (metis prod.collapse)
  have cap: "epMaxTokens (epSpec (haiku None)) = Some 512" "(1 :: int) \<le> 512" by (simp_all add: haiku_def)
  note adm = haiku_admits [of "-1", simplified]
  from HandleInvoke_token_cap [OF haiku_env haiku_wf run adm cap] run show ?thesis
    by (auto simp: haiku_world_def haiku_def zero_invoke_def)
qed


lemma haiku_invoke: "\<exists>c w' (out :: InvokeOutput). Invoke (pxAws haiku_proxy) key input sample_client w = (Inr out, c, w')
    \<and> 0 \<le> ioInputTokens out \<and> 0 \<le> ioOutputTokens out"
  by (simp add: Invoke_def runtimeTab_get sample_client_def haiku_proxy_def recording_aws_def Let_def unmarshal_def
      sample_reply_def dec_response_def dec_message_def dec_usage_def find_field_def zero_response_def into_def
      response_output_def)

lemma haiku_forward:
  "HandleInvoke haiku_proxy (post ''/invoke/team-a/haiku'' (JObj [])) (NewHandler sample_client) (haiku_world None)
     = forward_invoke haiku_proxy ''team-a'' ''haiku'' (haiku None) zero_invoke (NewHandler sample_client) (haiku_world None)"
  by (simp add: HandleInvoke_def post_def parse_haiku haiku_fetch unmarshal_def dec_invoke_def)

lemma haiku_ok: "\<exists>resp ops h' w'. HandleInvoke haiku_proxy (post ''/invoke/team-a/haiku'' (JObj [])) (NewHandler sample_client)
    (haiku_world None) = (Responded resp, ops, h', w') \<and> hCode resp = 200"
proof -
  obtain t1 w1 where n1: "pxNow haiku_proxy (haiku_world None) = (t1, w1)" by fastforce
  obtain c w2 and out :: InvokeOutput where
    i: "Invoke (pxAws haiku_proxy) (endpoint_key (haiku None)) (invoke_input zero_invoke (haiku None)) sample_client w1 = (Inr out, c, w2)"
    and ok: "0 \<le> ioInputTokens out" "0 \<le> ioOutputTokens out"
    using haiku_invoke by blast
  let ?ls = "[''team-a'', ''haiku'', ''amazon.nova-lite-v1:0'']"
  have ops: "list_all metric_op_ok ([MInc InvocationTotal (?ls @ [''success'']),
      MAdd InputTokensTotal ?ls (f64 (of_int (ioInputTokens out))), MAdd OutputTokensTotal ?ls (f64 (of_int (ioOutputTokens out)))]
      @ fst (cost_report ?ls ''amazon.nova-lite-v1:0'' out))"
    by (rule answer_ops_ok) (simp_all add: ok)
  show ?thesis unfolding haiku_forward forward_invoke_def Let_def
    unfolding invoke_input_def [symmetric] using n1 i ops by (simp add: case_prod_unfold go_simps metered_def)
qed


text \<open>The rate limit holds for every sequence of invoke requests, of all callers and endpoints in
  any order: from a fresh handler, the invocations counted for an endpoint that stays limited to rpm
  requests per minute are at most the burst (a tenth of rpm, at least 1) plus the rate (rpm / 60 in
  float64) times the seconds that have passed, for every limiter that is a token bucket. Requests for
  other endpoints do not touch its bucket.\<close>

theorem invoke_rate_bound:
  assumes "metered_proxy px calls time_of credit limit_of" "client_wf br"
    and "CHR ''/'' \<notin> set ns" "1 \<le> rpm"
    and "\<forall>v ep v'. P v \<longrightarrow> fetchEndpoint px ns name v = (Inr ep, v') \<longrightarrow>
      RateLimit (epSpec ep) = Some \<lparr>RequestsPerMinute = rpm\<rparr>"
    and "keeps px P" "P w"
    and "invoke_run px rs (NewHandler br) w = (ops, h', w')"
  shows "of_nat (invocations ns name ops) \<le>
      of_int (max 1 (rpm div 10)) + fdiv (f64 (of_int rpm)) 60 * of_int (time_of w' - time_of w) / 10 ^ 9"
proof -
  have always: "always_limited px P ns name rpm" using assms(5) by (simp add: always_limited_def)
  have "of_nat (invocations ns name ops) \<le> rate_cap rpm (time_of w) (time_of w')"
    by (rule metered_proxy.run_bound [OF assms(1-4) always assms(6-8)])
  also have "\<dots> \<le> of_int (max 1 (rpm div 10)) + limiter_rate rpm * of_int (time_of w' - time_of w) / second"
    using limiter_burst_bounds [of rpm] by (simp add: rate_cap_def)
  finally show ?thesis by (simp add: limiter_rate_def second_def)
qed

text \<open>The example cluster keeps its endpoint.\<close>

definition serves_haiku :: "RateLimitSpec option \<Rightarrow> proxy_world \<Rightarrow> bool" where
  "serves_haiku rl w \<longleftrightarrow> stEndpoints (objects w) \<lparr>nnNamespace = ''team-a'', nnName = ''haiku''\<rparr> = Some (haiku rl)"

lemma haiku_metered: "metered_proxy haiku_proxy sent clock bucket_credit bkLimit"
  unfolding haiku_proxy_def by unfold_locales

lemma haiku_keeps: "keeps haiku_proxy (serves_haiku rl)"
proof -
  have "objects (snd (mem_get stEndpoints epMeta k w)) = objects w" for k and w :: proxy_world
    by (rule mem_get_objects)
  then show ?thesis by (simp add: keeps_def serves_haiku_def haiku_proxy_def recording_aws_def)
qed

lemma haiku_reads:
  "serves_haiku rl v \<Longrightarrow> fetchEndpoint haiku_proxy ''team-a'' ''haiku'' v = (Inr ep, v') \<Longrightarrow> ep = haiku rl"
  by (auto simp: serves_haiku_def fetchEndpoint_def haiku_proxy_def mem_get_def dest!: next_fault_objects
      split: prod.splits option.splits if_splits)

lemma haiku_start: "serves_haiku rl (haiku_world rl)" "clock (haiku_world rl) = 1000"
  by (simp_all add: haiku_world_def serves_haiku_def)

theorem invoke_rate_bound_witness:
  "\<exists>ops h' w'. invoke_run haiku_proxy (replicate 3 (post ''/invoke/team-a/haiku'' (JObj []))) (NewHandler sample_client)
      (haiku_world (Some \<lparr>RequestsPerMinute = 60\<rparr>)) = (ops, h', w')
    \<and> (of_nat (invocations ''team-a'' ''haiku'' ops) :: rat) \<le>
        of_int (max 1 (60 div 10)) + fdiv (f64 (of_int 60)) 60 * of_int (clock w' - 1000) / 10 ^ 9"
proof -
  let ?rl = "\<lparr>RequestsPerMinute = 60\<rparr>"
  have lim: "\<forall>v ep v'. serves_haiku (Some ?rl) v \<longrightarrow> fetchEndpoint haiku_proxy ''team-a'' ''haiku'' v = (Inr ep, v') \<longrightarrow>
      RateLimit (epSpec ep) = Some ?rl"
    using haiku_reads by fastforce
  obtain ops h' w' where run: "invoke_run haiku_proxy (replicate 3 (post ''/invoke/team-a/haiku'' (JObj [])))
      (NewHandler sample_client) (haiku_world (Some ?rl)) = (ops, h', w')"
    by (metis prod.collapse)
  have "CHR ''/'' \<notin> set ''team-a''" "(1 :: int) \<le> 60" by simp_all
  from invoke_rate_bound [OF haiku_metered sample_client_wf this lim haiku_keeps haiku_start(1) run] run show ?thesis
    unfolding haiku_start(2) by blast
qed

end
