(* ===== verification/Proxy_Concurrency.thy ===== *)
theory Proxy_Concurrency
  imports Proxy_Handler
begin

section \<open>Concurrent invoke requests (internal/proxy/handler.go)\<close>

text \<open>
  net/http runs HandleInvoke in one goroutine per request, all on one Handler and one Bedrock client.
  Here a request goes through the handler section by section, where a section is a stretch of code that
  touches shared state at most once (but for the metrics, whose calls commute): a call of a library, or
  a critical section under a mutex. Between two sections any other request may run. The limiters are behind pointers, as in the code: getLimiter
  returns the pointer, and Allow, which the library makes atomic, changes the limiter behind it.
  The theory shows that a request that runs alone does exactly what \<open>HandleInvoke\<close> does, so that the
  sections are those of the handler.
\<close>

subsection \<open>Shared state\<close>

type_synonym pointer = nat

record ('l, 'w) shared =
  table :: "string \<Rightarrow> pointer option" \<comment> \<open>h.rateLimiters\<close>
  entries :: "pointer \<Rightarrow> 'l option" \<comment> \<open>the rateLimiterEntry objects\<close>
  allocated :: nat
  bedrock :: BedrockClient
  world :: 'w
  counted :: "metric_op list"

text \<open>getLimiter, under the handler's mutex.\<close>

definition get_limiter :: "'l limiter_lib \<Rightarrow> string \<Rightarrow> string \<Rightarrow> int \<Rightarrow> ('l, 'w) shared \<Rightarrow> pointer \<times> ('l, 'w) shared" where
  "get_limiter L namespace name rpm s =
     (let key = limiter_key namespace name
      in case table s key of
           Some p \<Rightarrow> (p, s)
         | None \<Rightarrow>
             let p = allocated s; limiter = NewLimiter L (limiter_rate rpm) (limiter_burst rpm)
             in (p, s\<lparr>table := (table s)(key \<mapsto> p), entries := (entries s)(p \<mapsto> limiter), allocated := Suc p\<rparr>))"

subsection \<open>The sections of a request\<close>

text \<open>Where a request is, with the local variables that are still needed.\<close>

record target =
  tgNamespace :: string
  tgName :: string
  tgRequest :: InvokeRequest
  tgEndpoint :: ModelEndpoint

datatype progress =
    Received
  | Gated target RateLimitSpec
  | Limiting target pointer
  | Passed target
  | Timed target time
  | Looking target time
  | Ready target time AwsClient
  | Finishing target time "go_error + InvokeOutput"
  | Answered reply

definition target_input :: "target \<Rightarrow> InvokeInput" where
  "target_input g =
     \<lparr>iiModelId = ModelId (epSpec (tgEndpoint g)), iiSystemPrompt = irSystemPrompt (tgRequest g),
      iiMessages = irMessages (tgRequest g),
      iiMaxTokens = capped (irMaxTokens (tgRequest g)) (epMaxTokens (epSpec (tgEndpoint g))),
      iiTemperature = irTemperature (tgRequest g)\<rparr>"

text \<open>The first section: the checks of the request and the read of the endpoint.\<close>

definition receive_section :: "('l, 'w) proxy \<Rightarrow> HttpRequest \<Rightarrow> ('l, 'w) shared \<Rightarrow> progress \<times> ('l, 'w) shared" where
  "receive_section px r s =
     (if rqMethod r \<noteq> ''POST'' then (Answered (http_error [] ''method not allowed'' 405), s)
      else case parsePathSegments (rqPath r) ''/invoke/'' of
        None \<Rightarrow> (Answered (http_error [] ''path must be /invoke/{namespace}/{name}'' 400), s)
      | Some (namespace, name) \<Rightarrow>
          case unmarshal dec_invoke zero_invoke (rqBody r) of
            Inl err \<Rightarrow> (Answered (http_error [] (''invalid request body: '' @ json_error_text err) 400), s)
          | Inr req \<Rightarrow>
              case fetchEndpoint px namespace name (world s) of
                (Inl err, w) \<Rightarrow> (Answered (http_error [] ''endpoint not found'' 404), s\<lparr>world := w\<rparr>)
              | (Inr ep, w) \<Rightarrow>
                  if \<not> Available (epStatus ep) then
                    (Answered (http_error [] ''endpoint not available'' 503), s\<lparr>world := w\<rparr>)
                  else
                    let g = \<lparr>tgNamespace = namespace, tgName = name, tgRequest = req, tgEndpoint = ep\<rparr>
                    in case RateLimit (epSpec ep) of
                         None \<Rightarrow> (Passed g, s\<lparr>world := w\<rparr>)
                       | Some rl \<Rightarrow> (Gated g rl, s\<lparr>world := w\<rparr>))"

definition allow_section :: "('l, 'w) proxy \<Rightarrow> target \<Rightarrow> pointer \<Rightarrow> ('l, 'w) shared \<Rightarrow> progress \<times> ('l, 'w) shared" where
  "allow_section px g p s =
     (case entries s p of
        None \<Rightarrow> (Answered (Panicked ''invalid memory address or nil pointer dereference''), s)
      | Some limiter \<Rightarrow>
          let (now, w) = pxNow px (world s);
              (ok, limiter') = Allow (pxLimiter px) now limiter;
              s1 = s\<lparr>world := w, entries := (entries s)(p \<mapsto> limiter')\<rparr>
          in if ok then (Passed g, s1)
             else (Answered (http_error [(''Retry-After'', ''10'')] ''rate limit exceeded'' 429),
                   s1\<lparr>counted := counted s1 @ [MInc RateLimitedTotal [tgNamespace g, tgName g]]\<rparr>))"

text \<open>The sections of Invoke: the lookup of the SDK client in its two critical sections, and the call.\<close>

definition lookup_section :: "target \<Rightarrow> time \<Rightarrow> ('l, 'w) shared \<Rightarrow> progress \<times> ('l, 'w) shared" where
  "lookup_section g start s =
     (case runtime_read (bedrock s) (endpoint_key (tgEndpoint g)) of
        Some rt \<Rightarrow> (Ready g start rt, s)
      | None \<Rightarrow> (Looking g start, s))"

definition build_section :: "target \<Rightarrow> time \<Rightarrow> ('l, 'w) shared \<Rightarrow> progress \<times> ('l, 'w) shared" where
  "build_section g start s =
     (let key = endpoint_key (tgEndpoint g)
      in case runtime_locked (bedrock s) key of
           (Inl err, c) \<Rightarrow>
             (Finishing g start (Inl (Wrapf (''getting runtime client for '' @ RoleArn key @ ''/'' @ ekRegion key) err)),
              s\<lparr>bedrock := c\<rparr>)
         | (Inr rt, c) \<Rightarrow> (Ready g start rt, s\<lparr>bedrock := c\<rparr>))"

definition call_section :: "('l, 'w) proxy \<Rightarrow> target \<Rightarrow> time \<Rightarrow> AwsClient \<Rightarrow> ('l, 'w) shared
    \<Rightarrow> progress \<times> ('l, 'w) shared" where
  "call_section px g start rt s =
     (let input = target_input g
      in case awsInvokeModel (pxAws px) rt (iiModelId input) (json_request (build_request input)) (world s) of
           (Inl err, w) \<Rightarrow> (Finishing g start (Inl (Wrapf (''invoking model '' @ iiModelId input) err)), s\<lparr>world := w\<rparr>)
         | (Inr respBody, w) \<Rightarrow>
             (case unmarshal dec_response zero_response respBody of
                Inl err \<Rightarrow>
                  (Finishing g start (Inl (Wrapf ''unmarshaling bedrock response'' (ErrMsg (json_error_text err)))),
                   s\<lparr>world := w\<rparr>)
              | Inr out \<Rightarrow> (Finishing g start (Inr (response_output out)), s\<lparr>world := w\<rparr>)))"

text \<open>The last section: the duration, the metrics and the response.\<close>

definition finish_section :: "('l, 'w) proxy \<Rightarrow> target \<Rightarrow> time \<Rightarrow> go_error + InvokeOutput \<Rightarrow> ('l, 'w) shared
    \<Rightarrow> progress \<times> ('l, 'w) shared" where
  "finish_section px g start res s =
     (let (stop, w) = pxNow px (world s);
          duration = Seconds (stop - start);
          modelId = ModelId (epSpec (tgEndpoint g));
          labels = [tgNamespace g, tgName g, modelId];
          s1 = s\<lparr>world := w\<rparr>
      in case res of
           Inl err \<Rightarrow>
             (Answered (http_error [] (''bedrock error: '' @ error_text err) 502),
              s1\<lparr>counted := counted s1 @
                [MInc InvocationTotal (labels @ [''error'']), MInc ReconcileErrorsTotal [''proxy'', ''invocation_error'']]\<rparr>)
         | Inr result \<Rightarrow>
             (let (costOps, costStr) = cost_report labels modelId result;
                  (reply, ops) = metered
                    ([MInc InvocationTotal (labels @ [''success'']),
                      MAdd InputTokensTotal labels (f64 (of_int (ioInputTokens result))),
                      MAdd OutputTokensTotal labels (f64 (of_int (ioOutputTokens result))),
                      MObserve InvocationDurationSeconds labels duration] @ costOps)
                    (http_json (invoke_response result costStr))
              in (Answered reply, s1\<lparr>counted := counted s1 @ ops\<rparr>)))"

fun section_of :: "('l, 'w) proxy \<Rightarrow> HttpRequest \<Rightarrow> progress \<Rightarrow> ('l, 'w) shared \<Rightarrow> progress \<times> ('l, 'w) shared" where
  "section_of px r Received s = receive_section px r s"
| "section_of px r (Gated g rl) s =
     (let (p, s1) = get_limiter (pxLimiter px) (tgNamespace g) (tgName g) (RequestsPerMinute rl) s in (Limiting g p, s1))"
| "section_of px r (Limiting g p) s = allow_section px g p s"
| "section_of px r (Passed g) s = (let (start, w) = pxNow px (world s) in (Timed g start, s\<lparr>world := w\<rparr>))"
| "section_of px r (Timed g start) s = lookup_section g start s"
| "section_of px r (Looking g start) s = build_section g start s"
| "section_of px r (Ready g start rt) s = call_section px g start rt s"
| "section_of px r (Finishing g start res) s = finish_section px g start res s"
| "section_of px r (Answered reply) s = (Answered reply, s)"

text \<open>A request that is not interrupted.\<close>

fun run_alone :: "('l, 'w) proxy \<Rightarrow> HttpRequest \<Rightarrow> nat \<Rightarrow> progress \<Rightarrow> ('l, 'w) shared \<Rightarrow> progress \<times> ('l, 'w) shared" where
  "run_alone px r 0 p s = (p, s)"
| "run_alone px r (Suc n) p s = (let (p1, s1) = section_of px r p s in run_alone px r n p1 s1)"

subsection \<open>A request alone is HandleInvoke\<close>

text \<open>The handler that the shared state stands for, when no two keys share a pointer.\<close>

definition handler_of :: "('l, 'w) shared \<Rightarrow> 'l Handler" where
  "handler_of s = \<lparr>hBedrock = bedrock s, rateLimiters = (\<lambda>k. Option.bind (table s k) (entries s))\<rparr>"

definition shared_ok :: "('l, 'w) shared \<Rightarrow> bool" where
  "shared_ok s \<longleftrightarrow> (\<forall>k p. table s k = Some p \<longrightarrow> p < allocated s \<and> entries s p \<noteq> None)
     \<and> (\<forall>k k' p. table s k = Some p \<longrightarrow> table s k' = Some p \<longrightarrow> k = k')"

lemma handler_of_sel [simp]: "hBedrock (handler_of s) = bedrock s"
  by (simp add: handler_of_def)

lemma handler_of_update [simp]:
  "handler_of (s\<lparr>world := w\<rparr>) = handler_of s" "handler_of (s\<lparr>counted := ops\<rparr>) = handler_of s"
  "handler_of (s\<lparr>bedrock := c\<rparr>) = (handler_of s)\<lparr>hBedrock := c\<rparr>"
  by (simp_all add: handler_of_def)

lemma shared_ok_update [simp]:
  "shared_ok (s\<lparr>world := w\<rparr>) = shared_ok s" "shared_ok (s\<lparr>counted := ops\<rparr>) = shared_ok s"
  "shared_ok (s\<lparr>bedrock := c\<rparr>) = shared_ok s"
  by (simp_all add: shared_ok_def)

lemma get_limiter_step:
  assumes "shared_ok s" "get_limiter L ns name rpm s = (p, s1)"
  shows "shared_ok s1" "table s1 (limiter_key ns name) = Some p"
    "\<exists>l. entries s1 p = Some l \<and> getLimiter L (handler_of s) ns name rpm = (l, handler_of s1)"
    "world s1 = world s" "counted s1 = counted s" "bedrock s1 = bedrock s"
    "table s k = Some q \<Longrightarrow> table s1 k = Some q"
proof -
  let ?key = "limiter_key ns name"
  have "shared_ok s1 \<and> table s1 ?key = Some p
    \<and> (\<exists>l. entries s1 p = Some l \<and> getLimiter L (handler_of s) ns name rpm = (l, handler_of s1))
    \<and> world s1 = world s \<and> counted s1 = counted s \<and> bedrock s1 = bedrock s
    \<and> (table s k = Some q \<longrightarrow> table s1 k = Some q)"
  proof (cases "table s ?key")
    case None
    let ?l = "NewLimiter L (limiter_rate rpm) (limiter_burst rpm)"
    have s1: "p = allocated s" "s1 = s\<lparr>table := (table s)(?key \<mapsto> p), entries := (entries s)(p \<mapsto> ?l), allocated := Suc p\<rparr>"
      using assms(2) None by (auto simp: get_limiter_def Let_def)
    have other: "table s k \<noteq> Some p" for k using assms(1) s1(1) by (auto simp: shared_ok_def)
    have "Option.bind (table s1 k) (entries s1) = ((\<lambda>k. Option.bind (table s k) (entries s))(?key \<mapsto> ?l)) k" for k
      using other [of k] s1(2) by (cases "table s k") auto
    then have "rateLimiters (handler_of s1) = (rateLimiters (handler_of s))(?key \<mapsto> ?l)"
      by (simp add: handler_of_def fun_eq_iff)
    then have "handler_of s1 = (handler_of s)\<lparr>rateLimiters := (rateLimiters (handler_of s))(?key \<mapsto> ?l)\<rparr>"
      using s1(2) by (simp add: handler_of_def)
    then have "getLimiter L (handler_of s) ns name rpm = (?l, handler_of s1)"
      using None by (simp add: getLimiter_def Let_def handler_of_def)
    moreover have "shared_ok s1" using assms(1) other s1 by (auto simp: shared_ok_def less_Suc_eq)
    ultimately show ?thesis using s1 None by auto
  next
    case (Some q')
    then have "s1 = s" "p = q'" using assms(2) by (simp_all add: get_limiter_def Let_def)
    moreover obtain l where "entries s q' = Some l" using assms(1) Some unfolding shared_ok_def by (metis not_None_eq)
    ultimately show ?thesis using assms(1) Some by (simp add: getLimiter_def Let_def handler_of_def)
  qed
  then show "shared_ok s1" "table s1 ?key = Some p"
    "\<exists>l. entries s1 p = Some l \<and> getLimiter L (handler_of s) ns name rpm = (l, handler_of s1)"
    "world s1 = world s" "counted s1 = counted s" "bedrock s1 = bedrock s"
    "table s k = Some q \<Longrightarrow> table s1 k = Some q" by simp_all
qed

text \<open>A write behind the pointer of a key is an update of the handler's map at this key.\<close>

lemma handler_of_entry:
  assumes "shared_ok s" "table s key = Some p"
  shows "handler_of (s\<lparr>entries := (entries s)(p \<mapsto> l)\<rparr>) = (handler_of s)\<lparr>rateLimiters := (rateLimiters (handler_of s))(key \<mapsto> l)\<rparr>"
    "shared_ok (s\<lparr>entries := (entries s)(p \<mapsto> l)\<rparr>)"
proof -
  have "Option.bind (table s k) ((entries s)(p \<mapsto> l)) = ((\<lambda>k. Option.bind (table s k) (entries s))(key \<mapsto> l)) k" for k
    using assms by (cases "table s k") (auto simp: shared_ok_def)
  then show "handler_of (s\<lparr>entries := (entries s)(p \<mapsto> l)\<rparr>)
      = (handler_of s)\<lparr>rateLimiters := (rateLimiters (handler_of s))(key \<mapsto> l)\<rparr>"
    by (simp add: handler_of_def fun_eq_iff)
  show "shared_ok (s\<lparr>entries := (entries s)(p \<mapsto> l)\<rparr>)" using assms by (auto simp: shared_ok_def)
qed

lemma run_alone_answered: "run_alone px r n (Answered a) s = (Answered a, s)"
  by (induction n) simp_all

lemma run_alone_add: "run_alone px r (m + n) p s = (let (p1, s1) = run_alone px r m p s in run_alone px r n p1 s1)"
  by (induction m arbitrary: p s) (simp_all add: case_prod_unfold Let_def)

text \<open>What a run of n sections of one request does to the handler, the world and the metrics, in terms
  of an outcome of the handler.\<close>

definition runs_as :: "('l, 'w) proxy \<Rightarrow> HttpRequest \<Rightarrow> nat \<Rightarrow> progress \<Rightarrow> ('l, 'w) shared \<Rightarrow> ('l, 'w) handled \<Rightarrow> bool" where
  "runs_as px r n p s out \<longleftrightarrow>
     (case out of (reply, ops, h', w') \<Rightarrow>
        \<exists>s'. run_alone px r n p s = (Answered reply, s') \<and> shared_ok s' \<and> handler_of s' = h' \<and> world s' = w'
          \<and> counted s' = counted s @ ops)"

lemma runs_as_step:
  assumes "section_of px r p s = (p1, s1)" "runs_as px r n p1 s1 (reply, ops, h', w')"
    "counted s1 = counted s @ ops1"
  shows "runs_as px r (Suc n) p s (reply, ops1 @ ops, h', w')"
  using assms by (auto simp: runs_as_def)

lemma runs_as_quiet:
  assumes "section_of px r p s = (p1, s1)" "counted s1 = counted s"
  shows "runs_as px r (Suc n) p s out = runs_as px r n p1 s1 out"
  using assms by (simp add: runs_as_def split: prod.split)

lemma runs_as_answered:
  assumes "section_of px r p s = (Answered reply, s1)" "shared_ok s1"
  shows "runs_as px r (Suc n) p s (reply, ops, h', w') \<longleftrightarrow>
    handler_of s1 = h' \<and> world s1 = w' \<and> counted s1 = counted s @ ops"
  using assms by (auto simp: runs_as_def run_alone_answered)

lemma target_input_invoke: "target_input g = invoke_input (tgRequest g) (tgEndpoint g)"
  by (simp add: target_input_def invoke_input_def)

text \<open>The part after the gates.\<close>

lemma run_finishing:
  assumes "shared_ok s"
  shows "runs_as px r (Suc n) (Finishing g start res) s
    (let (stop, w) = pxNow px (world s);
         (reply, ops) =
           (case res of
              Inl err \<Rightarrow> (http_error [] (''bedrock error: '' @ error_text err) 502,
                [MInc InvocationTotal ([tgNamespace g, tgName g, ModelId (epSpec (tgEndpoint g))] @ [''error'']),
                 MInc ReconcileErrorsTotal [''proxy'', ''invocation_error'']])
            | Inr result \<Rightarrow>
                (let labels = [tgNamespace g, tgName g, ModelId (epSpec (tgEndpoint g))];
                     (costOps, costStr) = cost_report labels (ModelId (epSpec (tgEndpoint g))) result
                 in metered
                    ([MInc InvocationTotal (labels @ [''success'']),
                      MAdd InputTokensTotal labels (f64 (of_int (ioInputTokens result))),
                      MAdd OutputTokensTotal labels (f64 (of_int (ioOutputTokens result))),
                      MObserve InvocationDurationSeconds labels (Seconds (stop - start))] @ costOps)
                    (http_json (invoke_response result costStr))))
     in (reply, ops, handler_of s, w))"
  using assms
  by (cases res) (auto simp: runs_as_def run_alone_answered finish_section_def Let_def case_prod_unfold)

lemma run_ready:
  fixes g :: target
  assumes "shared_ok s" "runtime_read c key = Some rt \<and> c' = c \<or> runtime_read c key = None \<and> runtime_locked c key = (Inr rt, c')"
    and "key = endpoint_key (tgEndpoint g)" "bedrock s = c'"
    and "Invoke (pxAws px) key (target_input g) c (world s) = (res, c1, w1)"
  shows "runs_as px r (Suc n) (Ready g start rt) s out = runs_as px r n (Finishing g start res) (s\<lparr>world := w1\<rparr>) out
    \<and> c1 = c'"
proof -
  have client: "runtimeClient c key = (Inr rt, c')" using assms(2) by (auto simp: runtimeClient_def)
  have "section_of px r (Ready g start rt) s = (Finishing g start res, s\<lparr>world := w1\<rparr>) \<and> c1 = c'"
    using assms(5) unfolding Invoke_def client
    by (auto simp: call_section_def Let_def split: prod.splits sum.splits)
  then show ?thesis using runs_as_quiet [of px r "Ready g start rt" s] by simp
qed

lemma run_passed:
  assumes ok: "shared_ok s"
  shows "runs_as px r 5 (Passed g) s
    (forward_invoke px (tgNamespace g) (tgName g) (tgEndpoint g) (tgRequest g) (handler_of s) (world s))"
proof -
  let ?key = "endpoint_key (tgEndpoint g)" and ?c = "bedrock s"
  obtain start w1 where now: "pxNow px (world s) = (start, w1)" by fastforce
  obtain res c1 w2 where inv: "Invoke (pxAws px) ?key (target_input g) ?c w1 = (res, c1, w2)" by (metis prod.collapse)
  let ?out = "forward_invoke px (tgNamespace g) (tgName g) (tgEndpoint g) (tgRequest g) (handler_of s) (world s)"
  let ?s1 = "s\<lparr>world := w1\<rparr>" and ?s2 = "s\<lparr>world := w2, bedrock := c1\<rparr>"
  have out: "?out = (let (stop, w) = pxNow px (world ?s2);
         (reply, ops) =
           (case res of
              Inl err \<Rightarrow> (http_error [] (''bedrock error: '' @ error_text err) 502,
                [MInc InvocationTotal ([tgNamespace g, tgName g, ModelId (epSpec (tgEndpoint g))] @ [''error'']),
                 MInc ReconcileErrorsTotal [''proxy'', ''invocation_error'']])
            | Inr result \<Rightarrow>
                (let labels = [tgNamespace g, tgName g, ModelId (epSpec (tgEndpoint g))];
                     (costOps, costStr) = cost_report labels (ModelId (epSpec (tgEndpoint g))) result
                 in metered
                    ([MInc InvocationTotal (labels @ [''success'']),
                      MAdd InputTokensTotal labels (f64 (of_int (ioInputTokens result))),
                      MAdd OutputTokensTotal labels (f64 (of_int (ioOutputTokens result))),
                      MObserve InvocationDurationSeconds labels (Seconds (stop - start))] @ costOps)
                    (http_json (invoke_response result costStr))))
     in (reply, ops, handler_of ?s2, w))"
    using inv now unfolding forward_invoke_def Let_def
    by (simp add: target_input_def [symmetric] case_prod_unfold split: sum.split)
  have swap: "s\<lparr>bedrock := c, world := w2\<rparr> = s\<lparr>world := w2, bedrock := c\<rparr>" for c by simp
  have fin: "runs_as px r (Suc n) (Finishing g start res) ?s2 ?out" for n
    unfolding out by (rule run_finishing) (use ok in simp)
  have "runs_as px r 5 (Passed g) s ?out = runs_as px r 4 (Timed g start) ?s1 ?out"
    using runs_as_quiet [of px r "Passed g" s "Timed g start" ?s1 4 ?out] now by (simp add: numeral_eq_Suc)
  also have "\<dots>"
  proof (cases "runtime_read ?c ?key")
    case (Some rt)
    then have "section_of px r (Timed g start) ?s1 = (Ready g start rt, ?s1)" by (simp add: lookup_section_def)
    then have "runs_as px r 4 (Timed g start) ?s1 ?out = runs_as px r 3 (Ready g start rt) ?s1 ?out"
      using runs_as_quiet [of px r "Timed g start" ?s1 "Ready g start rt" ?s1 3 ?out] by (simp add: numeral_eq_Suc)
    also have "\<dots> = runs_as px r 2 (Finishing g start res) (?s1\<lparr>world := w2\<rparr>) ?out \<and> c1 = ?c"
      using run_ready [of ?s1 ?c ?key rt ?c g px res c1 w2 r 2 start ?out] Some ok inv by (simp add: numeral_eq_Suc)
    finally show ?thesis using fin [of 1] run_ready [of ?s1 ?c ?key rt ?c g px res c1 w2 r 2 start ?out] Some ok inv
      by (simp add: numeral_eq_Suc)
  next
    case None
    obtain rt c' where l: "runtime_locked ?c ?key = (Inr rt, c')"
      using runtime.get_ok [of ?c ?key] None by (auto simp: runtimeClient_def)
    let ?s3 = "?s1\<lparr>bedrock := c'\<rparr>"
    have "section_of px r (Timed g start) ?s1 = (Looking g start, ?s1)" using None by (simp add: lookup_section_def)
    then have "runs_as px r 4 (Timed g start) ?s1 ?out = runs_as px r 3 (Looking g start) ?s1 ?out"
      using runs_as_quiet [of px r "Timed g start" ?s1 "Looking g start" ?s1 3 ?out] by (simp add: numeral_eq_Suc)
    also have "section_of px r (Looking g start) ?s1 = (Ready g start rt, ?s3)"
      using l by (simp add: build_section_def Let_def)
    then have "runs_as px r 3 (Looking g start) ?s1 ?out = runs_as px r 2 (Ready g start rt) ?s3 ?out"
      using runs_as_quiet [of px r "Looking g start" ?s1 "Ready g start rt" ?s3 2 ?out] by (simp add: numeral_eq_Suc)
    finally show ?thesis
      using fin [of 0] run_ready [of ?s3 ?c ?key rt c' g px res c1 w2 r 1 start ?out] None l ok inv
      by (simp add: numeral_eq_Suc swap [of c'])
  qed
  finally show ?thesis .
qed

lemma runs_as_more: "runs_as px r n p s out \<Longrightarrow> runs_as px r (n + k) p s out"
  by (auto simp: runs_as_def run_alone_add run_alone_answered split: prod.splits)

text \<open>The limiter: getLimiter and Allow of one request are \<open>take_token\<close>.\<close>

lemma run_gated:
  assumes ok: "shared_ok s" and rl: "take_token px (handler_of s) (tgNamespace g) (tgName g) (RequestsPerMinute rl) (world s) = (pass, h2, w2)"
  shows "runs_as px r 7 (Gated g rl) s
    (if pass then forward_invoke px (tgNamespace g) (tgName g) (tgEndpoint g) (tgRequest g) h2 w2
     else (http_error [(''Retry-After'', ''10'')] ''rate limit exceeded'' 429,
           [MInc RateLimitedTotal [tgNamespace g, tgName g]], h2, w2))" (is "runs_as px r 7 _ s ?out")
proof -
  let ?key = "limiter_key (tgNamespace g) (tgName g)"
  obtain p s1 where g: "get_limiter (pxLimiter px) (tgNamespace g) (tgName g) (RequestsPerMinute rl) s = (p, s1)" by fastforce
  note step = get_limiter_step [OF ok g]
  obtain l where l: "entries s1 p = Some l"
    "getLimiter (pxLimiter px) (handler_of s) (tgNamespace g) (tgName g) (RequestsPerMinute rl) = (l, handler_of s1)"
    using step(3) by blast
  obtain now w3 where n: "pxNow px (world s) = (now, w3)" by fastforce
  obtain pass' l' where a: "Allow (pxLimiter px) now l = (pass', l')" by fastforce
  let ?s2 = "s1\<lparr>entries := (entries s1)(p \<mapsto> l'), world := w3\<rparr>"
  have ok2: "shared_ok ?s2" using handler_of_entry(2) [OF step(1,2), of l'] by simp
  have h2: "handler_of ?s2 = h2" and w3: "w2 = w3" and pass: "pass' = pass"
    using rl l n a handler_of_entry(1) [OF step(1,2), of l'] by (auto simp: take_token_def Let_def)
  have swap: "s1\<lparr>world := w3, entries := E\<rparr> = s1\<lparr>entries := E, world := w3\<rparr>" for E by simp
  have first: "runs_as px r 7 (Gated g rl) s out = runs_as px r 6 (Limiting g p) s1 out" for out
    using runs_as_quiet [of px r "Gated g rl" s "Limiting g p" s1 6 out] g step(5) by (simp add: numeral_eq_Suc)
  have allow: "section_of px r (Limiting g p) s1 =
      (if pass then (Passed g, ?s2)
       else (Answered (http_error [(''Retry-After'', ''10'')] ''rate limit exceeded'' 429),
             ?s2\<lparr>counted := counted s @ [MInc RateLimitedTotal [tgNamespace g, tgName g]]\<rparr>))"
    using l n a pass step(4,5) by (simp add: allow_section_def swap Let_def)
  show ?thesis
  proof (cases pass)
    case True
    have "runs_as px r 6 (Limiting g p) s1 ?out = runs_as px r 5 (Passed g) ?s2 ?out"
      using runs_as_quiet [of px r "Limiting g p" s1 "Passed g" ?s2 5 ?out] allow True by (simp add: numeral_eq_Suc)
    then show ?thesis using first run_passed [OF ok2, of px r g] True h2 w3 by simp
  next
    case False
    have "runs_as px r (Suc 5) (Limiting g p) s1 ?out"
      using runs_as_answered [OF allow [simplified False if_False], of 5] ok2 h2 w3 False step(5)
      by (simp add: numeral_eq_Suc)
    then show ?thesis using first by (simp add: numeral_eq_Suc)
  qed
qed

lemma run_received:
  assumes ok: "shared_ok s"
  shows "runs_as px r 8 Received s (HandleInvoke px r (handler_of s) (world s))"
proof -
  let ?out = "HandleInvoke px r (handler_of s) (world s)"
  show ?thesis
  proof (cases "\<exists>a s1. receive_section px r s = (Answered a, s1)")
    case True
    then obtain a s1 where a: "receive_section px r s = (Answered a, s1)" by blast
    then have "?out = (a, [], handler_of s, world s1) \<and> s1 = s\<lparr>world := world s1\<rparr>"
      by (auto simp: receive_section_def HandleInvoke_def Let_def split: if_splits option.splits sum.splits prod.splits)
    then show ?thesis
      using runs_as_answered [of px r Received s a s1 7 "[]" "handler_of s" "world s1"] a ok
      by (simp add: numeral_eq_Suc) (metis handler_of_update(1) shared.surjective shared.update_convs(5) shared_ok_update(1) append_Nil2 shared.select_convs(6))
  next
    case False
    then obtain ns name req ep w1 where want: "rqMethod r = ''POST''" "parsePathSegments (rqPath r) ''/invoke/'' = Some (ns, name)"
      "unmarshal dec_invoke zero_invoke (rqBody r) = Inr req" "fetchEndpoint px ns name (world s) = (Inr ep, w1)"
      "Available (epStatus ep)"
      by (auto simp: receive_section_def Let_def split: if_splits option.splits sum.splits prod.splits)
    let ?g = "\<lparr>tgNamespace = ns, tgName = name, tgRequest = req, tgEndpoint = ep\<rparr>" and ?s1 = "s\<lparr>world := w1\<rparr>"
    show ?thesis
    proof (cases "RateLimit (epSpec ep)")
      case None
      have "runs_as px r 8 Received s ?out = runs_as px r (5 + 2) (Passed ?g) ?s1 ?out"
        using runs_as_quiet [of px r Received s "Passed ?g" ?s1 7 ?out] want None
        by (simp add: numeral_eq_Suc receive_section_def)
      moreover have "runs_as px r 5 (Passed ?g) ?s1 ?out"
        using run_passed [of ?s1 px r ?g] ok want None by (simp add: HandleInvoke_def)
      ultimately show ?thesis using runs_as_more by blast
    next
      case (Some rl)
      obtain pass h2 w2 where t: "take_token px (handler_of s) ns name (RequestsPerMinute rl) w1 = (pass, h2, w2)"
        by (metis prod.collapse)
      have "runs_as px r 8 Received s ?out = runs_as px r 7 (Gated ?g rl) ?s1 ?out"
        using runs_as_quiet [of px r Received s "Gated ?g rl" ?s1 7 ?out] want Some
        by (simp add: numeral_eq_Suc receive_section_def)
      moreover have "runs_as px r 7 (Gated ?g rl) ?s1 ?out"
      proof -
        have t': "take_token px (handler_of ?s1) (tgNamespace ?g) (tgName ?g) (RequestsPerMinute rl) (world ?s1) = (pass, h2, w2)"
          using t by simp
        have out: "?out = (if pass then forward_invoke px (tgNamespace ?g) (tgName ?g) (tgEndpoint ?g) (tgRequest ?g) h2 w2
            else (http_error [(''Retry-After'', ''10'')] ''rate limit exceeded'' 429,
              [MInc RateLimitedTotal [tgNamespace ?g, tgName ?g]], h2, w2))"
          using want Some t by (simp add: HandleInvoke_def)
        show ?thesis unfolding out by (rule run_gated [OF _ t']) (use ok in simp)
      qed
      ultimately show ?thesis by simp
    qed
  qed
qed

end
