(* ===== verification/Proxy_Interleaving.thy ===== *)
theory Proxy_Interleaving
  imports Proxy_Concurrency Client_Concurrency
begin

section \<open>Interleavings of invoke requests\<close>

text \<open>
  A pool of requests on one handler: a step is one section of one request that is not answered, and the
  requests interleave in any order (a request that has not taken its first section has not arrived).
  The invariants speak of a single section; from them follow the rate limit over every interleaving, the
  safety of every call to Bedrock, and that every request is answered after at most eight of its
  sections.
\<close>

subsection \<open>The pool\<close>

record ('l, 'w) pool =
  requests :: "(HttpRequest \<times> progress) list"
  common :: "('l, 'w) shared"

fun answered :: "progress \<Rightarrow> bool" where
  "answered (Answered a) = True"
| "answered p = False"

inductive pool_step :: "('l, 'w) proxy \<Rightarrow> ('l, 'w) pool \<Rightarrow> nat \<Rightarrow> ('l, 'w) pool \<Rightarrow> bool" for px where
  sect: "i < length (requests s) \<Longrightarrow> requests s ! i = (r, p) \<Longrightarrow> \<not> answered p \<Longrightarrow>
    section_of px r p (common s) = (p', c) \<Longrightarrow>
    pool_step px s i (s\<lparr>requests := (requests s)[i := (r, p')], common := c\<rparr>)"

inductive_cases pool_stepE: "pool_step px s i t"

definition fresh_shared :: "BedrockClient \<Rightarrow> 'w \<Rightarrow> ('l, 'w) shared" where
  "fresh_shared br w =
     \<lparr>table = Map.empty, entries = Map.empty, allocated = 0, bedrock = br, world = w, counted = []\<rparr>"

definition start_pool :: "HttpRequest list \<Rightarrow> BedrockClient \<Rightarrow> 'w \<Rightarrow> ('l, 'w) pool" where
  "start_pool rs br w = \<lparr>requests = map (\<lambda>r. (r, Received)) rs, common = fresh_shared br w\<rparr>"

inductive pool_reaches :: "('l, 'w) proxy \<Rightarrow> ('l, 'w) pool \<Rightarrow> nat list \<Rightarrow> ('l, 'w) pool \<Rightarrow> bool" for px s0 where
  init: "pool_reaches px s0 [] s0"
| more: "pool_reaches px s0 is s \<Longrightarrow> pool_step px s i t \<Longrightarrow> pool_reaches px s0 (is @ [i]) t"

subsection \<open>Progress\<close>

fun sections_left :: "progress \<Rightarrow> nat" where
  "sections_left Received = 8"
| "sections_left (Gated g rl) = 7"
| "sections_left (Limiting g p) = 6"
| "sections_left (Passed g) = 5"
| "sections_left (Timed g start) = 4"
| "sections_left (Looking g start) = 3"
| "sections_left (Ready g start rt) = 2"
| "sections_left (Finishing g start res) = 1"
| "sections_left (Answered a) = 0"

lemma answered_iff: "answered p \<longleftrightarrow> sections_left p = 0" "answered p \<longleftrightarrow> (\<exists>a. p = Answered a)"
  by (cases p; simp)+

lemma section_progress:
  assumes "section_of px r p s = (p', s')" "\<not> answered p"
  shows "sections_left p' < sections_left p"
  using assms
  by (cases p)
    (auto simp: receive_section_def allow_section_def lookup_section_def build_section_def call_section_def
      finish_section_def Let_def split: if_splits option.splits sum.splits prod.splits)

lemma pool_step_others:
  assumes "pool_step px s i t"
  shows "length (requests t) = length (requests s)" "map fst (requests t) = map fst (requests s)"
    "j = i \<or> requests t ! j = requests s ! j"
    "i < length (requests s)" "sections_left (snd (requests t ! i)) < sections_left (snd (requests s ! i))"
proof -
  have "length (requests t) = length (requests s) \<and> map fst (requests t) = map fst (requests s)
    \<and> (j = i \<or> requests t ! j = requests s ! j)
    \<and> i < length (requests s) \<and> sections_left (snd (requests t ! i)) < sections_left (snd (requests s ! i))"
    using assms
  proof cases
    case (sect r p p' c)
    then have "map fst ((requests s)[i := (r, p')]) = map fst (requests s)"
      by (metis fst_conv list_update_id map_update nth_map)
    moreover have "j = i \<or> (requests s)[i := (r, p')] ! j = requests s ! j" by (metis nth_list_update_neq)
    ultimately show ?thesis using sect section_progress by auto
  qed
  then show "length (requests t) = length (requests s)" "map fst (requests t) = map fst (requests s)"
    "j = i \<or> requests t ! j = requests s ! j"
    "i < length (requests s)" "sections_left (snd (requests t ! i)) < sections_left (snd (requests s ! i))"
    by simp_all
qed

lemma pool_step_enabled:
  assumes "i < length (requests s)" "\<not> answered (snd (requests s ! i))"
  shows "\<exists>t. pool_step px s i t"
  using assms by (metis pool_step.sect prod.collapse)

text \<open>The sections that all requests together still have to go.\<close>

definition pool_left :: "('l, 'w) pool \<Rightarrow> nat" where
  "pool_left s = sum_list (map (sections_left \<circ> snd) (requests s))"

lemma pool_step_left: "pool_step px s i t \<Longrightarrow> pool_left t < pool_left s"
proof (erule pool_stepE)
  fix r p p' c
  assume i: "i < length (requests s)" "requests s ! i = (r, p)" and p: "\<not> answered p"
    and sec: "section_of px r p (common s) = (p', c)"
    and t: "t = s\<lparr>requests := (requests s)[i := (r, p')], common := c\<rparr>"
  let ?xs = "map (sections_left \<circ> snd) (requests s)"
  have x: "?xs ! i = sections_left p" using i by simp
  have "pool_left t = sum_list (?xs[i := sections_left p'])" by (simp add: pool_left_def t map_update)
  also have "\<dots> = sum_list ?xs + sections_left p' - sections_left p"
    using sum_list_update [of i ?xs "sections_left p'"] i x by simp
  also have "\<dots> < sum_list ?xs"
    using section_progress [OF sec p] elem_le_sum_list [of i ?xs] i x by simp
  finally show "pool_left t < pool_left s" by (simp add: pool_left_def)
qed

lemma pool_reaches_left: "pool_reaches px s0 is s \<Longrightarrow> length is + pool_left s \<le> pool_left s0"
  by (induction rule: pool_reaches.induct) (use pool_step_left in fastforce)+

lemma start_left: "pool_left (start_pool rs br w) = 8 * length rs"
  by (simp add: pool_left_def start_pool_def o_def sum_list_triv)

subsection \<open>What a section keeps\<close>

definition target_ok :: "('l, 'w) proxy \<Rightarrow> ('w \<Rightarrow> bool) \<Rightarrow> HttpRequest \<Rightarrow> target \<Rightarrow> bool" where
  "target_ok px P r g \<longleftrightarrow> invoke_wants r (tgNamespace g) (tgName g) (tgRequest g) \<and> Available (epStatus (tgEndpoint g))
     \<and> (\<exists>v v'. P v \<and> fetchEndpoint px (tgNamespace g) (tgName g) v = (Inr (tgEndpoint g), v'))"

abbreviation target_key :: "target \<Rightarrow> string" where
  "target_key g \<equiv> limiter_key (tgNamespace g) (tgName g)"

fun progress_ok :: "('l, 'w) proxy \<Rightarrow> ('w \<Rightarrow> bool) \<Rightarrow> AwsConfig \<Rightarrow> ('l, 'w) shared \<Rightarrow> HttpRequest \<Rightarrow> progress \<Rightarrow> bool" where
  "progress_ok px P base s r Received \<longleftrightarrow> True"
| "progress_ok px P base s r (Gated g rl) \<longleftrightarrow> target_ok px P r g \<and> RateLimit (epSpec (tgEndpoint g)) = Some rl"
| "progress_ok px P base s r (Limiting g p) \<longleftrightarrow>
     target_ok px P r g \<and> RateLimit (epSpec (tgEndpoint g)) \<noteq> None \<and> table s (target_key g) = Some p"
| "progress_ok px P base s r (Passed g) \<longleftrightarrow> target_ok px P r g"
| "progress_ok px P base s r (Timed g start) \<longleftrightarrow> target_ok px P r g"
| "progress_ok px P base s r (Looking g start) \<longleftrightarrow> target_ok px P r g"
| "progress_ok px P base s r (Ready g start rt) \<longleftrightarrow>
     target_ok px P r g \<and> clConfig rt = role_config base (endpoint_key (tgEndpoint g))"
| "progress_ok px P base s r (Finishing g start res) \<longleftrightarrow> target_ok px P r g"
| "progress_ok px P base s r (Answered a) \<longleftrightarrow> a \<noteq> Panicked ''invalid memory address or nil pointer dereference''"

lemma progress_ok_table:
  "progress_ok px P base s r p \<Longrightarrow> (\<And>k q. table s k = Some q \<Longrightarrow> table s' k = Some q) \<Longrightarrow> progress_ok px P base s' r p"
  by (cases p) simp_all

lemma http_error_responds: "http_error hs msg code \<noteq> Panicked e" "http_json x \<noteq> Panicked e"
  by (simp_all add: go_simps)

lemma metered_panic: "fst (metered ops r) = Panicked e \<Longrightarrow> r = Panicked e \<or> e = ''counter cannot decrease in value''"
  by (auto simp: metered_def split: if_splits)

definition client_ok :: "AwsConfig \<Rightarrow> ('l, 'w) shared \<Rightarrow> bool" where
  "client_ok base s \<longleftrightarrow> client_wf (bedrock s) \<and> baseConfig (bedrock s) = base"

lemma client_ok_update [simp]:
  "client_ok base (s\<lparr>world := w\<rparr>) = client_ok base s" "client_ok base (s\<lparr>counted := ops\<rparr>) = client_ok base s"
  "client_ok base (s\<lparr>entries := es\<rparr>) = client_ok base s"
  by (simp_all add: client_ok_def)

lemma section_ok_receive:
  assumes "receive_section px r s = (p', s')" "P (world s)" "shared_ok s" "client_ok base s"
  shows "progress_ok px P base s' r p' \<and> shared_ok s' \<and> client_ok base s' \<and> table s' = table s"
  using assms
  by (auto simp: receive_section_def Let_def target_ok_def invoke_wants_def http_error_responds
      split: if_splits option.splits sum.splits prod.splits) blast+

lemma section_ok_limiter:
  assumes "get_limiter L (tgNamespace g) (tgName g) rpm s = (q, s')" "target_ok px P r g"
    "RateLimit (epSpec (tgEndpoint g)) \<noteq> None" "shared_ok s" "client_ok base s"
  shows "progress_ok px P base s' r (Limiting g q) \<and> shared_ok s' \<and> client_ok base s'
    \<and> (\<forall>k q. table s k = Some q \<longrightarrow> table s' k = Some q)"
  using get_limiter_step [OF assms(4,1)] assms by (auto simp: client_ok_def)

lemma section_ok_allow:
  assumes "allow_section px g q s = (p', s')" "target_ok px P r g" "table s (target_key g) = Some q"
    "shared_ok s" "client_ok base s"
  shows "progress_ok px P base s' r p' \<and> shared_ok s' \<and> client_ok base s' \<and> table s' = table s"
proof -
  obtain l where l: "entries s q = Some l" using assms(3,4) unfolding shared_ok_def by (metis not_None_eq)
  obtain now w where n: "pxNow px (world s) = (now, w)" by fastforce
  obtain ok l' where a: "Allow (pxLimiter px) now l = (ok, l')" by fastforce
  have "shared_ok (s\<lparr>entries := (entries s)(q \<mapsto> l')\<rparr>)" by (rule handler_of_entry(2) [OF assms(4,3)])
  then have "shared_ok (s\<lparr>world := w, entries := (entries s)(q \<mapsto> l')\<rparr>)" by (simp add: shared_ok_def)
  then show ?thesis using assms l n a
    by (auto simp: allow_section_def Let_def http_error_responds split: if_splits)
qed

text \<open>The two critical sections of the client cache.\<close>

lemma section_ok_client:
  assumes "client_ok base s"
  shows "runtime_read (bedrock s) key = Some rt \<Longrightarrow> clConfig rt = role_config base key"
    "runtime_locked (bedrock s) key = (x, c) \<Longrightarrow> \<exists>rt. x = Inr rt \<and> clConfig rt = role_config base key \<and> client_ok base (s\<lparr>bedrock := c\<rparr>)"
proof -
  have wf: "client_wf (bedrock s)" "baseConfig (bedrock s) = base" using assms by (simp_all add: client_ok_def)
  show "runtime_read (bedrock s) key = Some rt \<Longrightarrow> clConfig rt = role_config base key"
    using runtimeClient_wf [OF wf(1), of key "Inr rt" "bedrock s"] wf(2) by (simp add: runtimeClient_def)
  assume l: "runtime_locked (bedrock s) key = (x, c)"
  then have "runtimeClient (bedrock s) key = (x, c)" by (rule locked_as_call)
  then show "\<exists>rt. x = Inr rt \<and> clConfig rt = role_config base key \<and> client_ok base (s\<lparr>bedrock := c\<rparr>)"
    using runtimeClient_wf [OF wf(1), of key] runtime.get_ok [of "bedrock s" key] wf(2)
    by (auto simp: client_ok_def)
qed

lemma section_ok_finish:
  assumes "finish_section px g start res s = (p', s')" "shared_ok s" "client_ok base s"
  shows "progress_ok px P base s' r p' \<and> shared_ok s' \<and> client_ok base s' \<and> table s' = table s"
proof -
  have "reply \<noteq> Panicked ''invalid memory address or nil pointer dereference''" if "metered ops (http_json x) = (reply, ops')"
    for ops ops' reply x
    using metered_panic [of ops "http_json x"] that http_error_responds by fastforce
  then show ?thesis using assms
    by (auto simp: finish_section_def Let_def http_error_responds split: sum.splits prod.splits)
qed

lemma section_ok:
  assumes "section_of px r p s = (p', s')" "progress_ok px P base s r p" "P (world s)" "shared_ok s" "client_ok base s"
  shows "progress_ok px P base s' r p' \<and> shared_ok s' \<and> client_ok base s'
    \<and> (\<forall>k q. table s k = Some q \<longrightarrow> table s' k = Some q)"
proof (cases p)
  case Received
  then show ?thesis using section_ok_receive [of px r s p' s' P base] assms by simp
next
  case (Gated g rl)
  then show ?thesis using section_ok_limiter [of "pxLimiter px" g _ s _ s' px P r base] assms
    by (auto split: prod.splits)
next
  case (Limiting g q)
  then show ?thesis using section_ok_allow [of px g q s p' s' P r base] assms by simp
next
  case (Passed g)
  then show ?thesis using assms by (auto split: prod.splits)
next
  case (Timed g start)
  then show ?thesis using assms section_ok_client(1) [OF assms(5)] by (auto simp: lookup_section_def split: option.splits)
next
  case (Looking g start)
  then show ?thesis using assms section_ok_client(2) [OF assms(5), of "endpoint_key (tgEndpoint g)"]
    by (fastforce simp: build_section_def Let_def split: sum.splits prod.splits)
next
  case (Ready g start rt)
  then show ?thesis using assms by (auto simp: call_section_def Let_def split: sum.splits prod.splits)
next
  case (Finishing g start res)
  then show ?thesis using section_ok_finish [of px g start res s p' s' base P r] assms by simp
qed (use assms in auto)

subsection \<open>Invariants of the pool\<close>

lemma section_keeps:
  assumes "keeps px P" "P (world s)" "section_of px r p s = (p', s')"
  shows "P (world s')"
proof -
  have now: "pxNow px w = (t, w') \<Longrightarrow> P w \<Longrightarrow> P w'" for w t w'
    using assms(1) by (metis keeps_def snd_conv)
  have call: "awsInvokeModel (pxAws px) cl m b w = (x, w') \<Longrightarrow> P w \<Longrightarrow> P w'" for cl m b w x w'
    using assms(1) by (metis keeps_def snd_conv)
  note steps = now [OF _ assms(2)] call [OF _ assms(2)] keeps_fetch [OF assms(1,2)]
  show ?thesis using assms(2,3)
    by (cases p)
      (auto simp: receive_section_def get_limiter_def allow_section_def lookup_section_def build_section_def call_section_def
        finish_section_def Let_def split: if_splits option.splits sum.splits prod.splits intro: steps)
qed

definition pool_ok :: "('l, 'w) proxy \<Rightarrow> ('w \<Rightarrow> bool) \<Rightarrow> AwsConfig \<Rightarrow> ('l, 'w) pool \<Rightarrow> bool" where
  "pool_ok px P base s \<longleftrightarrow> shared_ok (common s) \<and> client_ok base (common s) \<and> P (world (common s))
     \<and> (\<forall>(r, p) \<in> set (requests s). progress_ok px P base (common s) r p)"

lemma pool_ok_start: "client_wf br \<Longrightarrow> P w \<Longrightarrow> pool_ok px P (baseConfig br) (start_pool rs br w)"
  by (auto simp: pool_ok_def start_pool_def fresh_shared_def shared_ok_def client_ok_def)

lemma pool_ok_step:
  assumes k: "keeps px P" and ok: "pool_ok px P base s" and step: "pool_step px s i t"
  shows "pool_ok px P base t"
  using step
proof cases
  case (sect r p p' c)
  have p: "progress_ok px P base (common s) r p" using ok sect(2,3) nth_mem by (fastforce simp: pool_ok_def)
  have new: "progress_ok px P base c r p'" "shared_ok c" "client_ok base c"
    and mono: "table (common s) k = Some q \<Longrightarrow> table c k = Some q" for k q
    using section_ok [OF sect(5) p] ok by (auto simp: pool_ok_def)
  have "progress_ok px P base c r1 p1" if "(r1, p1) \<in> set ((requests s)[i := (r, p')])" for r1 p1
  proof -
    have "(r1, p1) = (r, p') \<or> (r1, p1) \<in> set (requests s)" using that set_update_subset_insert by fastforce
    then show ?thesis using new(1) ok progress_ok_table [OF _ mono] by (auto simp: pool_ok_def)
  qed
  then show ?thesis using new section_keeps [OF k _ sect(5)] ok sect(1) by (auto simp: pool_ok_def)
qed

lemma pool_ok_reaches:
  assumes "pool_reaches px s0 is s" "keeps px P" "pool_ok px P base s0"
  shows "pool_ok px P base s"
  using assms(1) by induction (use assms pool_ok_step in auto)

subsection \<open>Calls to Bedrock\<close>

definition call_of :: "AwsConfig \<Rightarrow> target \<Rightarrow> AwsConfig \<times> string \<times> json" where
  "call_of base g =
     (role_config base (endpoint_key (tgEndpoint g)), ModelId (epSpec (tgEndpoint g)), json_request (build_request (target_input g)))"

text \<open>Requests that have not called Bedrock yet.\<close>

definition uncalled :: "('l, 'w) pool \<Rightarrow> nat" where
  "uncalled s = length (filter (\<lambda>(r, p). 2 \<le> sections_left p) (requests s))"

lemma filter_update_length:
  assumes "i < length xs"
  shows "length (filter Q (xs[i := y])) + (if Q (xs ! i) then 1 else 0) = length (filter Q xs) + (if Q y then 1 else 0)"
  using assms
proof (induction xs arbitrary: i)
  case (Cons x xs)
  then show ?case by (cases i) auto
qed simp

context proxy_env begin

lemma section_log:
  assumes "section_of px r p s = (p', s')" "progress_ok px P base s r p"
  shows "log (world s') = log (world s) @ (case p of Ready g start rt \<Rightarrow> [call_of base g] | _ \<Rightarrow> [])"
    "time_of (world s) \<le> time_of (world s')"
proof -
  have call: "awsInvokeModel (pxAws px) cl m b w = (x, w') \<Longrightarrow> log w' = log w @ [(clConfig cl, m, b)] \<and> time_of w \<le> time_of w'"
    for cl m b w x w'
    using invoke_logs [of cl m b w] invoke_time [of w cl m b] by simp
  have "log (world s') = log (world s) @ (case p of Ready g start rt \<Rightarrow> [call_of base g] | _ \<Rightarrow> [])
    \<and> time_of (world s) \<le> time_of (world s')"
    using assms
    by (cases p)
      (auto simp: receive_section_def get_limiter_def allow_section_def lookup_section_def build_section_def call_section_def
        finish_section_def call_of_def target_input_def Let_def
        split: if_splits option.splits sum.splits prod.splits dest!: fetch_logs now_step call)
  then show "log (world s') = log (world s) @ (case p of Ready g start rt \<Rightarrow> [call_of base g] | _ \<Rightarrow> [])"
    "time_of (world s) \<le> time_of (world s')" by simp_all
qed

end

lemma uncalled_step:
  assumes "pool_step px s i t"
  shows "uncalled t + (case snd (requests s ! i) of Ready g start rt \<Rightarrow> 1 | _ \<Rightarrow> 0) \<le> uncalled s"
  using assms
proof cases
  case (sect r p p' c)
  have less: "sections_left p' < sections_left p" using section_progress sect(5,4) by blast
  have "uncalled t + (if 2 \<le> sections_left p then 1 else 0) = uncalled s + (if 2 \<le> sections_left p' then 1 else 0)"
    using filter_update_length [OF sect(2), of "\<lambda>(r, p). 2 \<le> sections_left p" "(r, p')"] sect by (simp add: uncalled_def)
  then show ?thesis using less sect(3) by (cases p) (auto split: if_splits)
qed

context proxy_env begin

lemma pool_log_step:
  assumes ok: "pool_ok px P base s" and step: "pool_step px s i t"
  shows "\<exists>cs. log (world (common t)) = log (world (common s)) @ cs \<and> length cs + uncalled t \<le> uncalled s
    \<and> (\<forall>c \<in> set cs. \<exists>r \<in> set (map fst (requests s)). \<exists>g. target_ok px P r g \<and> c = call_of base g)"
  using step
proof cases
  case (sect r p p' c)
  have mem: "(r, p) \<in> set (requests s)" using sect(2,3) nth_mem by force
  then have p: "progress_ok px P base (common s) r p" using ok by (auto simp: pool_ok_def)
  let ?cs = "case p of Ready g start rt \<Rightarrow> [call_of base g] | _ \<Rightarrow> []"
  have "log (world (common t)) = log (world (common s)) @ ?cs"
    using section_log(1) [OF sect(5) p] sect(1) by simp
  moreover have "length ?cs + uncalled t \<le> uncalled s" using uncalled_step [OF step] sect(3) by (cases p) simp_all
  moreover have "\<forall>c \<in> set ?cs. \<exists>r \<in> set (map fst (requests s)). \<exists>g. target_ok px P r g \<and> c = call_of base g"
  proof (cases p)
    case (Ready g start rt)
    then show ?thesis using p mem by force
  qed simp_all
  ultimately show ?thesis by blast
qed

lemma pool_log:
  assumes "pool_reaches px s0 is s" "keeps px P" "pool_ok px P base s0"
  shows "\<exists>cs. log (world (common s)) = log (world (common s0)) @ cs \<and> length cs + uncalled s \<le> uncalled s0
    \<and> (\<forall>c \<in> set cs. \<exists>r \<in> set (map fst (requests s0)). \<exists>g. target_ok px P r g \<and> c = call_of base g)
    \<and> map fst (requests s) = map fst (requests s0)"
  using assms(1)
proof induction
  case init
  show ?case by simp
next
  case (more "is" s i t)
  obtain cs where cs: "log (world (common s)) = log (world (common s0)) @ cs" "length cs + uncalled s \<le> uncalled s0"
    "\<forall>c \<in> set cs. \<exists>r \<in> set (map fst (requests s0)). \<exists>g. target_ok px P r g \<and> c = call_of base g"
    "map fst (requests s) = map fst (requests s0)" using more.IH by blast
  obtain ds where ds: "log (world (common t)) = log (world (common s)) @ ds" "length ds + uncalled t \<le> uncalled s"
    "\<forall>c \<in> set ds. \<exists>r \<in> set (map fst (requests s)). \<exists>g. target_ok px P r g \<and> c = call_of base g"
    using pool_log_step [OF pool_ok_reaches [OF more.hyps(1) assms(2,3)] more.hyps(2)] by blast
  have "map fst (requests t) = map fst (requests s0)" using pool_step_others(2) [OF more.hyps(2)] cs(4) by simp
  then show ?case using cs ds by (intro exI [of _ "cs @ ds"]) auto
qed

end

lemma uncalled_start: "uncalled (start_pool rs br w) = length rs"
  by (simp add: uncalled_def start_pool_def filter_map o_def)

subsection \<open>The rate of an endpoint\<close>

fun passing :: "string \<Rightarrow> string \<Rightarrow> progress \<Rightarrow> bool" where
  "passing ns name (Passed g) \<longleftrightarrow> tgNamespace g = ns \<and> tgName g = name"
| "passing ns name (Timed g start) \<longleftrightarrow> tgNamespace g = ns \<and> tgName g = name"
| "passing ns name (Looking g start) \<longleftrightarrow> tgNamespace g = ns \<and> tgName g = name"
| "passing ns name (Ready g start rt) \<longleftrightarrow> tgNamespace g = ns \<and> tgName g = name"
| "passing ns name (Finishing g start res) \<longleftrightarrow> tgNamespace g = ns \<and> tgName g = name"
| "passing ns name p \<longleftrightarrow> False"

text \<open>The invocations of an endpoint that are counted or on their way.\<close>

definition admitted :: "string \<Rightarrow> string \<Rightarrow> ('l, 'w) pool \<Rightarrow> nat" where
  "admitted ns name s = invocations ns name (counted (common s)) + length (filter (\<lambda>(r, p). passing ns name p) (requests s))"

context metered_proxy begin

lemma within_new:
  assumes "within_rate key rpm t0 n h t" "1 \<le> rpm" "rateLimiters h key = None"
    "rateLimiters h' key = Some (NewLimiter (pxLimiter px) (limiter_rate rpm) (limiter_burst rpm))"
  shows "within_rate key rpm t0 n h' t"
proof -
  have "credit (NewLimiter (pxLimiter px) (limiter_rate rpm) (limiter_burst rpm)) t \<le> of_int (limiter_burst rpm)"
    using new_credit limiter_rate_nonneg limiter_burst_bounds [of rpm] assms(2) by simp
  moreover have "of_int (limiter_burst rpm) \<le> rate_cap rpm t0 t"
    using rate_cap_mono [of rpm t0 t t0] assms(1,2) by (simp add: rate_cap_def within_rate_def)
  ultimately show ?thesis using assms(1,3,4) by (simp add: within_rate_def new_limit)
qed

lemma within_allow:
  assumes "within_rate key rpm t0 n h t" "t \<le> now" "1 \<le> rpm" "rateLimiters h key = Some l"
    "Allow (pxLimiter px) now l = (ok, l')" "rateLimiters h' key = Some l'"
  shows "within_rate key rpm t0 (n + (if ok then 1 else 0)) h' now"
proof -
  have "within_rate key rpm t0 n h now" by (rule within_later [OF assms(1,2) _ refl]) (use assms(3) in simp)
  then show ?thesis
    using allow_takes [OF assms(5)] allow_iff [OF assms(5)] allow_limit [OF assms(5)] assms(4,6)
    by (auto simp: within_rate_def)
qed

end

text \<open>The invocations that the last section counts.\<close>

lemma finish_counts:
  assumes "finish_section px g start res s = (p', s')"
  shows "invocations ns name (counted s') = invocations ns name (counted s) + (if tgNamespace g = ns \<and> tgName g = name then 1 else 0)"
    "\<not> passing ns name p'" "handler_of s' = handler_of s"
proof -
  let ?labels = "[tgNamespace g, tgName g, ModelId (epSpec (tgEndpoint g))]"
  have one: "invocations ns name (snd (metered (MInc InvocationTotal (?labels @ [st]) # ops) r))
      = (if tgNamespace g = ns \<and> tgName g = name then 1 else 0)" if "ops_on InvocationTotal ops = []" for st ops r
  proof -
    obtain rest where "snd (metered (MInc InvocationTotal (?labels @ [st]) # ops) r) = MInc InvocationTotal (?labels @ [st]) # rest"
      "ops_on InvocationTotal rest = []"
      using metered_first [of "MInc InvocationTotal (?labels @ [st])" InvocationTotal ops r] \<open>ops_on InvocationTotal ops = []\<close> by auto
    then show ?thesis using invocations_other [of rest ns name] by (simp add: counts_for_def)
  qed
  show "invocations ns name (counted s') = invocations ns name (counted s) + (if tgNamespace g = ns \<and> tgName g = name then 1 else 0)"
  proof (cases res)
    case (Inl err)
    then show ?thesis using assms by (auto simp: finish_section_def Let_def counts_for_def split: prod.splits)
  next
    case (Inr out)
    let ?cost = "cost_report ?labels (ModelId (epSpec (tgEndpoint g))) out"
    let ?ops = "\<lambda>d. [MAdd InputTokensTotal ?labels (f64 (of_int (ioInputTokens out))),
      MAdd OutputTokensTotal ?labels (f64 (of_int (ioOutputTokens out))), MObserve InvocationDurationSeconds ?labels d] @ fst ?cost"
    have "ops_on InvocationTotal (?ops d) = []" for d by (simp add: cost_report_quiet)
    note one [OF this, of "''success''" _ "http_json (invoke_response out (snd ?cost))"]
    then show ?thesis using assms Inr by (auto simp: finish_section_def Let_def case_prod_unfold)
  qed
  show "\<not> passing ns name p'" "handler_of s' = handler_of s"
    using assms by (auto simp: finish_section_def Let_def split: sum.splits prod.splits)
qed

context metered_proxy begin

text \<open>Sections that leave the limiter and the count alone.\<close>

lemma rate_quiet:
  assumes "within_rate key rpm t0 n (handler_of s) (time_of (world s))" "1 \<le> rpm"
    and "rateLimiters (handler_of s') key = rateLimiters (handler_of s) key" "time_of (world s) \<le> time_of (world s')" "n' = n"
  shows "within_rate key rpm t0 n' (handler_of s') (time_of (world s'))"
  using within_later [OF assms(1,4) _ assms(3)] assms(2,5) by simp

lemma rate_limiter_section:
  assumes inv: "within_rate (limiter_key ns name) rpm t0 n (handler_of s) (time_of (world s))" and rpm: "1 \<le> rpm"
    and ok: "shared_ok s" and ns: "CHR ''/'' \<notin> set ns" "CHR ''/'' \<notin> set ns'"
    and g: "get_limiter (pxLimiter px) ns' name' rpm' s = (q, s')" "ns' = ns \<and> name' = name \<longrightarrow> rpm' = rpm"
  shows "within_rate (limiter_key ns name) rpm t0 n (handler_of s') (time_of (world s'))"
proof -
  note step = get_limiter_step [OF ok g(1)]
  obtain l where l: "getLimiter (pxLimiter px) (handler_of s) ns' name' rpm' = (l, handler_of s')" using step(3) by blast
  show ?thesis
  proof (cases "rateLimiters (handler_of s') (limiter_key ns name) = rateLimiters (handler_of s) (limiter_key ns name)")
    case True
    then show ?thesis using rate_quiet [OF inv rpm, of s' n] step(4) by simp
  next
    case False
    let ?new = "NewLimiter (pxLimiter px) (limiter_rate rpm') (limiter_burst rpm')"
    have "handler_of s' = snd (getLimiter (pxLimiter px) (handler_of s) ns' name' rpm')" using l by simp
    then have "handler_of s' = handler_of s \<or> rateLimiters (handler_of s) (limiter_key ns' name') = None
        \<and> rateLimiters (handler_of s') = (rateLimiters (handler_of s))(limiter_key ns' name' \<mapsto> ?new)"
      by (simp add: getLimiter_def Let_def split: option.splits)
    then have key: "limiter_key ns' name' = limiter_key ns name" "rateLimiters (handler_of s) (limiter_key ns name) = None"
      and new: "rateLimiters (handler_of s') (limiter_key ns name) = Some ?new"
      using False by (auto split: if_splits)
    then have "rpm' = rpm" using g(2) limiter_key_inject [OF ns(2,1)] by blast
    then show ?thesis using within_new [OF inv rpm key(2)] new step(4) by simp
  qed
qed

lemma rate_allow_section:
  assumes inv: "within_rate (limiter_key ns name) rpm t0 (invocations ns name (counted s) + k) (handler_of s) (time_of (world s))"
    and rpm: "1 \<le> rpm" and ok: "shared_ok s" "table s (target_key g) = Some q"
    and ns: "CHR ''/'' \<notin> set ns" "CHR ''/'' \<notin> set (tgNamespace g)"
    and run: "allow_section px g q s = (p', s')"
  shows "within_rate (limiter_key ns name) rpm t0 (invocations ns name (counted s') + (if passing ns name p' then 1 else 0) + k)
    (handler_of s') (time_of (world s'))"
proof -
  let ?key = "limiter_key ns name"
  obtain l where l: "entries s q = Some l" using ok unfolding shared_ok_def by (metis not_None_eq)
  obtain now w where n: "pxNow px (world s) = (now, w)" by fastforce
  obtain b l' where a: "Allow (pxLimiter px) now l = (b, l')" by fastforce
  let ?s1 = "s\<lparr>entries := (entries s)(q \<mapsto> l')\<rparr>"
  have swap: "s\<lparr>world := w, entries := E\<rparr> = s\<lparr>entries := E, world := w\<rparr>" for E by simp
  have h: "handler_of s' = (handler_of s)\<lparr>rateLimiters := (rateLimiters (handler_of s))(target_key g \<mapsto> l')\<rparr>"
    and w: "world s' = w" and c: "invocations ns name (counted s') = invocations ns name (counted s)"
    and p: "passing ns name p' \<longleftrightarrow> b \<and> tgNamespace g = ns \<and> tgName g = name"
    using run l n a handler_of_entry(1) [OF ok, of l']
    by (auto simp: allow_section_def Let_def swap counts_for_def split: if_splits)
  have t: "time_of (world s) \<le> now" "now \<le> time_of w" using now_step [OF n] by simp_all
  show ?thesis
  proof (cases "tgNamespace g = ns \<and> tgName g = name")
    case True
    have "rateLimiters (handler_of s) ?key = Some l" using ok(2) l True by (simp add: handler_of_def)
    then have "within_rate ?key rpm t0 (invocations ns name (counted s) + k + (if b then 1 else 0)) (handler_of s') now"
      using within_allow [OF inv t(1) rpm _ a, of "handler_of s'"] h True by simp
    then have "within_rate ?key rpm t0 (invocations ns name (counted s) + k + (if b then 1 else 0)) (handler_of s') (time_of w)"
      by (rule within_later [OF _ t(2)]) (use rpm in simp_all)
    then show ?thesis using c p w True by (simp add: ac_simps)
  next
    case False
    then have "target_key g \<noteq> ?key" using limiter_key_inject [OF ns(2,1)] by blast
    then show ?thesis using rate_quiet [OF inv rpm, of s'] h c p w False t by auto
  qed
qed

end

lemma target_slash: "target_ok px P r g \<Longrightarrow> CHR ''/'' \<notin> set (tgNamespace g)"
  using parsePathSegments_namespace by (auto simp: target_ok_def invoke_wants_def)

text \<open>An endpoint that is always limited passes only through its limiter, with its rate.\<close>

lemma target_limited:
  "always_limited px P ns name rpm \<Longrightarrow> target_ok px P r g \<Longrightarrow> tgNamespace g = ns \<Longrightarrow> tgName g = name \<Longrightarrow>
   RateLimit (epSpec (tgEndpoint g)) = Some \<lparr>RequestsPerMinute = rpm\<rparr>"
  unfolding target_ok_def by (metis always_limitedD)

lemma receive_passing:
  assumes "receive_section px r s = (p', s')" "P (world s)" "always_limited px P ns name rpm"
  shows "\<not> passing ns name p'" "handler_of s' = handler_of s" "counted s' = counted s"
proof -
  have "\<not> passing ns name p' \<and> handler_of s' = handler_of s \<and> counted s' = counted s"
    using assms(1) always_limitedD [OF assms(3,2)]
    by (auto simp: receive_section_def Let_def split: if_splits option.splits sum.splits prod.splits)
  then show "\<not> passing ns name p'" "handler_of s' = handler_of s" "counted s' = counted s" by simp_all
qed

lemma call_sections_keep:
  assumes "section_of px r p s = (p', s')" "case p of Passed g \<Rightarrow> True | Timed g t \<Rightarrow> True | Looking g t \<Rightarrow> True | Ready g t rt \<Rightarrow> True | _ \<Rightarrow> False"
  shows "passing ns name p' = passing ns name p" "counted s' = counted s"
    "rateLimiters (handler_of s') = rateLimiters (handler_of s)"
proof -
  have "passing ns name p' = passing ns name p \<and> counted s' = counted s \<and> rateLimiters (handler_of s') = rateLimiters (handler_of s)"
    using assms
    by (cases p)
      (auto simp: lookup_section_def build_section_def call_section_def Let_def split: prod.splits sum.splits option.splits)
  then show "passing ns name p' = passing ns name p" "counted s' = counted s"
    "rateLimiters (handler_of s') = rateLimiters (handler_of s)" by simp_all
qed

context metered_proxy begin

lemma rate_section:
  assumes inv: "within_rate (limiter_key ns name) rpm t0
      (invocations ns name (counted s) + (if passing ns name p then 1 else 0) + k) (handler_of s) (time_of (world s))"
    and rpm: "1 \<le> rpm" and ns: "CHR ''/'' \<notin> set ns" and always: "always_limited px P ns name rpm" "P (world s)"
    and ok: "progress_ok px P base s r p" "shared_ok s"
    and run: "section_of px r p s = (p', s')"
  shows "within_rate (limiter_key ns name) rpm t0
      (invocations ns name (counted s') + (if passing ns name p' then 1 else 0) + k) (handler_of s') (time_of (world s'))"
proof -
  have time: "time_of (world s) \<le> time_of (world s')" by (rule section_log(2) [OF run ok(1)])
  note quiet = rate_quiet [OF inv rpm _ time]
  show ?thesis
  proof (cases p)
    case Received
    then show ?thesis using quiet run receive_passing [of px r s p' s' P, OF _ always(2,1)] by simp
  next
    case (Gated g rl)
    obtain q where g: "get_limiter (pxLimiter px) (tgNamespace g) (tgName g) (RequestsPerMinute rl) s = (q, s')" "p' = Limiting g q"
      using run Gated by (auto split: prod.splits)
    have "tgNamespace g = ns \<and> tgName g = name \<longrightarrow> RequestsPerMinute rl = rpm"
      using target_limited [OF always(1)] ok(1) Gated by fastforce
    moreover have "CHR ''/'' \<notin> set (tgNamespace g)" using target_slash [of px P r g] ok(1) Gated by simp
    ultimately show ?thesis
      using rate_limiter_section [of ns name rpm t0 "invocations ns name (counted s) + k" s, OF _ rpm ok(2) ns _ g(1)] inv
        get_limiter_step(5) [OF ok(2) g(1)] Gated g(2) by simp
  next
    case (Limiting g q)
    then have g: "CHR ''/'' \<notin> set (tgNamespace g)" "table s (target_key g) = Some q" "allow_section px g q s = (p', s')"
      "within_rate (limiter_key ns name) rpm t0 (invocations ns name (counted s) + k) (handler_of s) (time_of (world s))"
      using target_slash [of px P r g] ok(1) run inv by simp_all
    show ?thesis by (rule rate_allow_section [OF g(4) rpm ok(2) g(2) ns g(1,3)])
  next
    case (Finishing g start res)
    then have f: "finish_section px g start res s = (p', s')" using run by simp
    show ?thesis using quiet finish_counts(1,2) [OF f, of ns name] finish_counts(3) [OF f] Finishing by simp
  next
    case (Answered a)
    then show ?thesis using inv run by auto
  qed (use quiet call_sections_keep(1) [OF run, of ns name] call_sections_keep(2,3) [OF run] in simp_all)
qed

lemma rate_pool_step:
  assumes inv: "within_rate (limiter_key ns name) rpm t0 (admitted ns name s) (handler_of (common s)) (time_of (world (common s)))"
    and rpm: "1 \<le> rpm" and ns: "CHR ''/'' \<notin> set ns" and always: "always_limited px P ns name rpm"
    and ok: "pool_ok px P base s" and step: "pool_step px s i t"
  shows "within_rate (limiter_key ns name) rpm t0 (admitted ns name t) (handler_of (common t)) (time_of (world (common t)))"
  using step
proof cases
  case (sect r p p' c)
  let ?Q = "\<lambda>(r, p). passing ns name p"
  let ?one = "\<lambda>b. if b then 1 else (0 :: nat)"
  obtain k where k: "length (filter ?Q (requests s)) = ?one (passing ns name p) + k"
    and k': "length (filter ?Q (requests t)) = ?one (passing ns name p') + k"
  proof (rule that)
    let ?k = "length (filter ?Q (requests s)) - ?one (passing ns name p)"
    have upd: "length (filter ?Q (requests t)) + ?one (passing ns name p) = length (filter ?Q (requests s)) + ?one (passing ns name p')"
      using filter_update_length [OF sect(2), of ?Q "(r, p')"] sect(1,3) by simp
    have "passing ns name p \<Longrightarrow> (r, p) \<in> set (filter ?Q (requests s))" using sect(2,3) nth_mem by force
    then have "?one (passing ns name p) \<le> length (filter ?Q (requests s))"
      by (cases "filter ?Q (requests s)") auto
    then show "length (filter ?Q (requests s)) = ?one (passing ns name p) + ?k"
      "length (filter ?Q (requests t)) = ?one (passing ns name p') + ?k" using upd by linarith+
  qed
  have p: "progress_ok px P base (common s) r p" using ok sect(2,3) nth_mem by (fastforce simp: pool_ok_def)
  have "within_rate (limiter_key ns name) rpm t0
      (invocations ns name (counted c) + ?one (passing ns name p') + k) (handler_of c) (time_of (world c))"
    by (rule rate_section [OF _ rpm ns always _ p _ sect(5)])
      (use inv ok k in \<open>simp_all add: admitted_def pool_ok_def add.assoc\<close>)
  then show ?thesis using k' sect(1) by (simp add: admitted_def add.assoc)
qed

lemma rate_pool:
  assumes "pool_reaches px (start_pool rs br w) is s" "1 \<le> rpm" "CHR ''/'' \<notin> set ns" "always_limited px P ns name rpm"
    "keeps px P" "P w" "client_wf br"
  shows "within_rate (limiter_key ns name) rpm (time_of w) (admitted ns name s) (handler_of (common s)) (time_of (world (common s)))"
  using assms(1)
proof induction
  case init
  let ?s = "start_pool rs br w :: ('l, 'w) pool"
  have "admitted ns name ?s = 0" "rateLimiters (handler_of (common ?s)) (limiter_key ns name) = None" "world (common ?s) = w"
    by (simp_all add: admitted_def start_pool_def fresh_shared_def handler_of_def filter_map o_def)
  then show ?case using rate_cap_pos [of rpm "time_of w" "time_of w"] assms(2) by (simp add: within_rate_def)
next
  case (more "is" s i t)
  have "pool_ok px P (baseConfig br) s"
    by (rule pool_ok_reaches [OF more.hyps(1) assms(5) pool_ok_start]) (rule assms(7,6))+
  then show ?case by (rule rate_pool_step [OF more.IH assms(2-4) _ more.hyps(2)])
qed

lemmas rate_pool_bound = rate_pool [unfolded within_rate_def, THEN conjunct2, THEN conjunct1]

end

end
