(* ===== verification/Concurrent_Requests.thy ===== *)
theory Concurrent_Requests
  imports Proxy_Interleaving Proxy_Properties
begin

section \<open>Properties of concurrent invoke requests\<close>

text \<open>
  What holds of the proxy's handler however the sections of its requests interleave: a request alone is
  \<open>HandleInvoke\<close>, the rate of an endpoint is bounded, calls to Bedrock are those of admitted requests,
  every endpoint has one limiter, and no request waits for another.
\<close>

lemma handler_of_fresh [simp]: "handler_of (fresh_shared br w) = NewHandler br"
  by (simp add: handler_of_def fresh_shared_def NewHandler_def)

lemma fresh_shared_ok [simp]: "shared_ok (fresh_shared br w)" "world (fresh_shared br w) = w" "counted (fresh_shared br w) = []"
  by (simp_all add: shared_ok_def fresh_shared_def)

text \<open>From every state the pool can run until all requests are answered.\<close>

lemma pool_finishes: "\<exists>js t. pool_reaches px s0 (is @ js) t \<and> list_all (\<lambda>x. answered (snd x)) (requests t)"
  if "pool_reaches px s0 is s"
  using that
proof (induction "pool_left s" arbitrary: s "is" rule: less_induct)
  case less
  show ?case
  proof (cases "list_all (\<lambda>x. answered (snd x)) (requests s)")
    case True
    then show ?thesis using less.prems by (intro exI [of _ "[]"] exI [of _ s]) simp
  next
    case False
    then obtain i where "i < length (requests s)" "\<not> answered (snd (requests s ! i))" by (auto simp: list_all_length)
    then obtain t where t: "pool_step px s i t" using pool_step_enabled by blast
    have "pool_reaches px s0 (is @ [i]) t" by (rule pool_reaches.more [OF less.prems t])
    from less.hyps [OF pool_step_left [OF t] this] obtain js u where
      "pool_reaches px s0 ((is @ [i]) @ js) u" "list_all (\<lambda>x. answered (snd x)) (requests u)" by blast
    then show ?thesis by (intro exI [of _ "i # js"] exI [of _ u]) simp
  qed
qed

text \<open>The sections that a request has gone and those it still has to go are at most eight.\<close>

lemma own_sections:
  assumes "pool_reaches px (start_pool rs br w) is s"
  shows "length (requests s) = length rs"
    "i < length rs \<Longrightarrow> count_list is i + sections_left (snd (requests s ! i)) \<le> 8"
proof -
  have "length (requests s) = length rs \<and> (i < length rs \<longrightarrow> count_list is i + sections_left (snd (requests s ! i)) \<le> 8)"
    using assms
  proof induction
    case init
    show ?case by (simp add: start_pool_def)
  next
    case (more "is" s j t)
    note others = pool_step_others [OF more.hyps(2)]
    show ?case using others(1,4,5) others(3) [of i] more.IH by (cases "i = j") auto
  qed
  then show "length (requests s) = length rs"
    "i < length rs \<Longrightarrow> count_list is i + sections_left (snd (requests s ! i)) \<le> 8" by simp_all
qed

subsection \<open>One request\<close>



subsection \<open>Many requests\<close>

text \<open>C6: the rate limit holds under concurrency: in every interleaving of invoke requests on a fresh
  handler, at every moment, the invocations of an endpoint that stays limited to rpm requests per minute,
  counted or on their way to Bedrock, are at most the burst plus the rate times the time that has passed.\<close>

theorem concurrent_rate_bound:
  assumes "metered_proxy px calls time_of credit limit_of" "client_wf br"
    and "CHR ''/'' \<notin> set ns" "1 \<le> rpm"
    and "\<forall>v ep v'. P v \<longrightarrow> fetchEndpoint px ns name v = (Inr ep, v') \<longrightarrow>
      RateLimit (epSpec ep) = Some \<lparr>RequestsPerMinute = rpm\<rparr>"
    and "keeps px P" "P w"
    and "pool_reaches px (start_pool rs br w) is s"
  shows "of_nat (admitted ns name s) \<le>
      of_int (max 1 (rpm div 10)) + fdiv (f64 (of_int rpm)) 60 * of_int (time_of (world (common s)) - time_of w) / 10 ^ 9"
proof -
  have always: "always_limited px P ns name rpm" using assms(5) by (simp add: always_limited_def)
  have "of_nat (admitted ns name s) \<le> rate_cap rpm (time_of w) (time_of (world (common s)))"
    by (rule metered_proxy.rate_pool_bound [OF assms(1,8,4,3) always assms(6,7,2)])
  also have "\<dots> \<le> of_int (max 1 (rpm div 10)) + limiter_rate rpm * of_int (time_of (world (common s)) - time_of w) / second"
    using limiter_burst_bounds [of rpm] by (simp add: rate_cap_def)
  finally show ?thesis by (simp add: limiter_rate_def second_def)
qed

text \<open>Three requests that are all answered.\<close>

abbreviation haiku_posts :: "HttpRequest list" where
  "haiku_posts \<equiv> replicate 3 (post ''/invoke/team-a/haiku'' (JObj []))"

lemma haiku_finishes: "\<exists>is s. pool_reaches haiku_proxy (start_pool haiku_posts sample_client (haiku_world rl)) is s
    \<and> list_all (\<lambda>x. answered (snd x)) (requests s)"
  using pool_finishes [OF pool_reaches.init] by blast

theorem concurrent_rate_bound_witness:
  "\<exists>is s. pool_reaches haiku_proxy (start_pool haiku_posts sample_client (haiku_world (Some \<lparr>RequestsPerMinute = 60\<rparr>))) is s
    \<and> list_all (\<lambda>x. answered (snd x)) (requests s)
    \<and> (of_nat (admitted ''team-a'' ''haiku'' s) :: rat) \<le>
        of_int (max 1 (60 div 10)) + fdiv (f64 (of_int 60)) 60 * of_int (clock (world (common s)) - 1000) / 10 ^ 9"
proof -
  let ?rl = "\<lparr>RequestsPerMinute = 60\<rparr>"
  obtain "is" s where run: "pool_reaches haiku_proxy (start_pool haiku_posts sample_client (haiku_world (Some ?rl))) is s"
    "list_all (\<lambda>x. answered (snd x)) (requests s)" using haiku_finishes by blast
  have lim: "\<forall>v ep v'. serves_haiku (Some ?rl) v \<longrightarrow> fetchEndpoint haiku_proxy ''team-a'' ''haiku'' v = (Inr ep, v') \<longrightarrow>
      RateLimit (epSpec ep) = Some ?rl"
    using haiku_reads by fastforce
  have "CHR ''/'' \<notin> set ''team-a''" "(1 :: int) \<le> 60" by simp_all
  from concurrent_rate_bound [OF haiku_metered sample_client_wf this lim haiku_keeps haiku_start(1) run(1)] run show ?thesis
    unfolding haiku_start(2) by blast
qed

text \<open>C7: in every interleaving each call to Bedrock belongs to a request that passed the gates of the
  path, the body and the availability: it goes to the model of the endpoint that the request names, as the
  cluster had it, with the role and region of this endpoint and the marshalled input of the request. A
  request calls at most once, so that there are never more calls than requests that may have called, and
  no request dereferences a missing limiter.\<close>

theorem concurrent_calls_admitted:
  assumes "proxy_env px calls time_of" "client_wf br" "keeps px P" "P w"
    and "pool_reaches px (start_pool rs br w) is s"
  shows "\<exists>cs. calls (world (common s)) = calls w @ cs
      \<and> length cs \<le> length (filter (\<lambda>(r, p). sections_left p < 2) (requests s))
      \<and> (\<forall>c \<in> set cs. \<exists>r \<in> set rs. \<exists>ns name req ep v v'.
           invoke_wants r ns name req \<and> P v \<and> fetchEndpoint px ns name v = (Inr ep, v') \<and> Available (epStatus ep)
           \<and> c = (role_config (baseConfig br) (endpoint_key ep), ModelId (epSpec ep),
                  json_request (build_request (invoke_input req ep))))
      \<and> (\<forall>(r, p) \<in> set (requests s). p \<noteq> Answered (Panicked ''invalid memory address or nil pointer dereference''))"
proof -
  let ?s0 = "start_pool rs br w"
  let ?call = "\<lambda>c r. \<exists>ns name req ep v v'. invoke_wants r ns name req \<and> P v
      \<and> fetchEndpoint px ns name v = (Inr ep, v') \<and> Available (epStatus ep)
      \<and> c = (role_config (baseConfig br) (endpoint_key ep), ModelId (epSpec ep), json_request (build_request (invoke_input req ep)))"
  have start: "pool_ok px P (baseConfig br) ?s0" using pool_ok_start [of br P w] assms(2,4) by blast
  have s0: "world (common ?s0) = w" "map fst (requests ?s0) = rs" by (simp_all add: start_pool_def o_def)
  obtain cs where cs: "calls (world (common s)) = calls w @ cs" "length cs + uncalled s \<le> length rs"
    "\<forall>c \<in> set cs. \<exists>r \<in> set rs. \<exists>g. target_ok px P r g \<and> c = call_of (baseConfig br) g"
    "map fst (requests s) = rs"
    using proxy_env.pool_log [OF assms(1,5,3) start] unfolding s0 uncalled_start by blast
  have call: "?call c r" if g: "target_ok px P r g" "c = call_of (baseConfig br) g" for c r g
  proof -
    obtain v v' where v: "P v" "fetchEndpoint px (tgNamespace g) (tgName g) v = (Inr (tgEndpoint g), v')"
      using g(1) by (auto simp: target_ok_def)
    show ?thesis
      by (intro exI [of _ "tgNamespace g"] exI [of _ "tgName g"] exI [of _ "tgRequest g"] exI [of _ "tgEndpoint g"]
          exI [of _ v] exI [of _ v'])
        (use g v in \<open>simp add: target_ok_def call_of_def target_input_invoke\<close>)
  qed
  have "length (filter (\<lambda>(r, p). sections_left p < 2) (requests s)) + uncalled s = length (requests s)"
    using sum_length_filter_compl [of "\<lambda>(r, p). sections_left p < 2" "requests s"]
    by (simp add: uncalled_def case_prod_unfold not_less)
  then have n: "length cs \<le> length (filter (\<lambda>(r, p). sections_left p < 2) (requests s))"
    using cs(2) own_sections(1) [OF assms(5)] by simp
  have ok: "pool_ok px P (baseConfig br) s" by (rule pool_ok_reaches [OF assms(5,3) start])
  have "p \<noteq> Answered (Panicked ''invalid memory address or nil pointer dereference'')" if "(r, p) \<in> set (requests s)" for r p
    using ok that by (auto simp: pool_ok_def)
  then have panic: "\<forall>(r, p) \<in> set (requests s). p \<noteq> Answered (Panicked ''invalid memory address or nil pointer dereference'')"
    by fastforce
  have "\<exists>r \<in> set rs. ?call c r" if c: "c \<in> set cs" for c
  proof -
    obtain r g where "r \<in> set rs" "target_ok px P r g" "c = call_of (baseConfig br) g" using cs(3) c by fast
    from \<open>r \<in> set rs\<close> call [OF this(2,3)] show ?thesis ..
  qed
  then have "\<forall>c \<in> set cs. \<exists>r \<in> set rs. ?call c r" ..
  with cs(1) n panic show ?thesis by (intro exI [of _ cs] conjI) assumption+
qed

theorem concurrent_calls_admitted_witness:
  "\<exists>is s cs. pool_reaches haiku_proxy (start_pool haiku_posts sample_client (haiku_world None)) is s
    \<and> list_all (\<lambda>x. answered (snd x)) (requests s)
    \<and> sent (world (common s)) = sent (haiku_world None) @ cs
    \<and> length cs \<le> length (filter (\<lambda>(r, p). sections_left p < 2) (requests s))"
proof -
  obtain "is" s where run: "pool_reaches haiku_proxy (start_pool haiku_posts sample_client (haiku_world None)) is s"
    "list_all (\<lambda>x. answered (snd x)) (requests s)" using haiku_finishes by blast
  from concurrent_calls_admitted [OF haiku_env sample_client_wf haiku_keeps haiku_start(1) run(1)] run show ?thesis by blast
qed

text \<open>C29: one limiter for each endpoint: in every interleaving two requests that are about to ask their
  limiters hold the same limiter exactly when they are for the same endpoint, and it is the one in the
  handler's table. A first request that races with others cannot bring a second limiter into use.\<close>

theorem one_limiter_per_endpoint:
  assumes "client_wf br" "pool_reaches px (start_pool rs br w) is s"
    and "(r1, Limiting g1 q1) \<in> set (requests s)" "(r2, Limiting g2 q2) \<in> set (requests s)"
  shows "(q1 = q2) = (tgNamespace g1 = tgNamespace g2 \<and> tgName g1 = tgName g2)
    \<and> table (common s) (limiter_key (tgNamespace g1) (tgName g1)) = Some q1
    \<and> entries (common s) q1 \<noteq> None"
proof -
  have "pool_ok px (\<lambda>w. True) (baseConfig br) s"
    by (rule pool_ok_reaches [OF assms(2) _ pool_ok_start]) (simp_all add: keeps_def assms(1))
  then have sh: "shared_ok (common s)"
    and t: "target_ok px (\<lambda>w. True) r1 g1" "target_ok px (\<lambda>w. True) r2 g2"
      "table (common s) (target_key g1) = Some q1" "table (common s) (target_key g2) = Some q2"
    using assms(3,4) by (auto simp: pool_ok_def)
  have "(q1 = q2) = (target_key g1 = target_key g2)" using sh t(3,4) by (auto simp: shared_ok_def)
  also have "\<dots> = (tgNamespace g1 = tgNamespace g2 \<and> tgName g1 = tgName g2)"
    by (rule limiter_key_inject) (rule target_slash [OF t(1)], rule target_slash [OF t(2)])
  finally show ?thesis using sh t(3) by (auto simp: shared_ok_def)
qed

text \<open>Two requests for one endpoint race for its limiter: both have read the endpoint before either creates it.\<close>

definition race_target :: target where
  "race_target = \<lparr>tgNamespace = ''team-a'', tgName = ''haiku'', tgRequest = zero_invoke,
     tgEndpoint = haiku (Some \<lparr>RequestsPerMinute = 60\<rparr>)\<rparr>"

lemma race_received:
  "section_of haiku_proxy (post ''/invoke/team-a/haiku'' (JObj [])) Received s = (Gated race_target \<lparr>RequestsPerMinute = 60\<rparr>, s)"
  if "world s = haiku_world (Some \<lparr>RequestsPerMinute = 60\<rparr>)"
  using that haiku_fetch [of "Some \<lparr>RequestsPerMinute = 60\<rparr>"]
  by (cases s) (simp add: receive_section_def post_def parse_haiku unmarshal_def dec_invoke_def find_field_def into_def
      race_target_def zero_invoke_def)

lemma race_reached:
  "\<exists>s q1 q2. pool_reaches haiku_proxy (start_pool (replicate 2 (post ''/invoke/team-a/haiku'' (JObj []))) sample_client
      (haiku_world (Some \<lparr>RequestsPerMinute = 60\<rparr>))) [0, 1, 0, 1] s
    \<and> requests s = [(post ''/invoke/team-a/haiku'' (JObj []), Limiting race_target q1),
        (post ''/invoke/team-a/haiku'' (JObj []), Limiting race_target q2)]"
proof -
  let ?rl = "\<lparr>RequestsPerMinute = 60\<rparr>" and ?r = "post ''/invoke/team-a/haiku'' (JObj [])"
  let ?s0 = "start_pool (replicate 2 ?r) sample_client (haiku_world (Some ?rl)) :: (bucket, proxy_world) pool"
  let ?c = "common ?s0"
  have s0: "requests ?s0 = [(?r, Received), (?r, Received)]" "world ?c = haiku_world (Some ?rl)"
    by (simp_all add: start_pool_def numeral_2_eq_2)
  obtain q1 c1 where g1: "get_limiter (pxLimiter haiku_proxy) ''team-a'' ''haiku'' 60 ?c = (q1, c1)" by fastforce
  obtain q2 c2 where g2: "get_limiter (pxLimiter haiku_proxy) ''team-a'' ''haiku'' 60 c1 = (q2, c2)" by fastforce
  let ?s1 = "?s0\<lparr>requests := [(?r, Gated race_target ?rl), (?r, Received)]\<rparr>"
  let ?s2 = "?s0\<lparr>requests := [(?r, Gated race_target ?rl), (?r, Gated race_target ?rl)]\<rparr>"
  let ?s3 = "?s0\<lparr>requests := [(?r, Limiting race_target q1), (?r, Gated race_target ?rl)], common := c1\<rparr>"
  let ?s4 = "?s0\<lparr>requests := [(?r, Limiting race_target q1), (?r, Limiting race_target q2)], common := c2\<rparr>"
  have same: "s\<lparr>requests := xs, common := common s\<rparr> = s\<lparr>requests := xs\<rparr>" for s :: "(bucket, proxy_world) pool" and xs
    by (cases s) simp
  have limit: "tgNamespace race_target = ''team-a''" "tgName race_target = ''haiku''" by (simp_all add: race_target_def)
  have "pool_step haiku_proxy ?s0 0 ?s1"
    using pool_step.sect [of 0 ?s0 ?r Received haiku_proxy] race_received [OF s0(2)] s0(1) by (simp add: same)
  moreover have "pool_step haiku_proxy ?s1 1 ?s2"
    using pool_step.sect [of 1 ?s1 ?r Received haiku_proxy] race_received [OF s0(2)] by (simp add: same)
  moreover have "pool_step haiku_proxy ?s2 0 ?s3"
    using pool_step.sect [of 0 ?s2 ?r "Gated race_target ?rl" haiku_proxy] g1 by (simp add: limit)
  moreover have "pool_step haiku_proxy ?s3 1 ?s4"
    using pool_step.sect [of 1 ?s3 ?r "Gated race_target ?rl" haiku_proxy] g2 by (simp add: limit)
  ultimately have "pool_reaches haiku_proxy ?s0 (((([] @ [0]) @ [1]) @ [0]) @ [1]) ?s4"
    using pool_reaches.more [OF pool_reaches.more [OF pool_reaches.more [OF pool_reaches.more [OF pool_reaches.init]]]]
    by fastforce
  then show ?thesis by (intro exI [of _ ?s4] exI [of _ q1] exI [of _ q2]) simp
qed

theorem one_limiter_per_endpoint_witness:
  "\<exists>s q. pool_reaches haiku_proxy (start_pool (replicate 2 (post ''/invoke/team-a/haiku'' (JObj []))) sample_client
      (haiku_world (Some \<lparr>RequestsPerMinute = 60\<rparr>))) [0, 1, 0, 1] s
    \<and> requests s = replicate 2 (post ''/invoke/team-a/haiku'' (JObj []), Limiting race_target q)
    \<and> table (common s) (limiter_key ''team-a'' ''haiku'') = Some q"
proof -
  let ?r = "post ''/invoke/team-a/haiku'' (JObj [])"
  obtain s q1 q2 where run: "pool_reaches haiku_proxy (start_pool (replicate 2 ?r) sample_client
      (haiku_world (Some \<lparr>RequestsPerMinute = 60\<rparr>))) [0, 1, 0, 1] s"
    "requests s = [(?r, Limiting race_target q1), (?r, Limiting race_target q2)]"
    using race_reached by blast
  from run(2) have "(?r, Limiting race_target q1) \<in> set (requests s)" "(?r, Limiting race_target q2) \<in> set (requests s)" by simp_all
  from one_limiter_per_endpoint [OF sample_client_wf run(1) this]
  have "q1 = q2" "table (common s) (limiter_key ''team-a'' ''haiku'') = Some q1" by (auto simp: race_target_def)
  with run show ?thesis by (intro exI [of _ s] exI [of _ q1]) (simp add: numeral_2_eq_2)
qed

subsection \<open>Progress\<close>

text \<open>No request waits for another: in every interleaving a request that is not answered can take its
  next section, whatever the others do; a section of another request leaves it where it is; it is answered
  after at most eight sections of its own; and from every reachable state the requests can all be answered,
  all of them together in at most eight sections each.\<close>

theorem requests_progress:
  assumes "pool_reaches px (start_pool rs br w) is s" "i < length rs"
  shows "(\<not> answered (snd (requests s ! i))) = (\<exists>t. pool_step px s i t)
    \<and> (\<forall>j t. pool_step px s j t \<longrightarrow> j = i \<or> requests t ! i = requests s ! i)
    \<and> count_list is i \<le> 8 \<and> (count_list is i = 8 \<longrightarrow> answered (snd (requests s ! i)))
    \<and> (\<exists>js t. pool_reaches px (start_pool rs br w) (is @ js) t \<and> list_all (\<lambda>x. answered (snd x)) (requests t)
        \<and> length (is @ js) \<le> 8 * length rs)"
proof -
  have len: "i < length (requests s)" using own_sections(1) [OF assms(1)] assms(2) by simp
  have "(\<not> answered (snd (requests s ! i))) = (\<exists>t. pool_step px s i t)"
    using pool_step_enabled [OF len] pool_step_others(5) answered_iff(1) by (metis not_less_zero)
  moreover have "\<forall>j t. pool_step px s j t \<longrightarrow> j = i \<or> requests t ! i = requests s ! i"
    using pool_step_others(3) by metis
  moreover have "count_list is i \<le> 8" "count_list is i = 8 \<longrightarrow> answered (snd (requests s ! i))"
    using own_sections(2) [OF assms] by (simp_all add: answered_iff(1))
  moreover obtain js t where t: "pool_reaches px (start_pool rs br w) (is @ js) t"
    "list_all (\<lambda>x. answered (snd x)) (requests t)" using pool_finishes [OF assms(1)] by blast
  moreover have "length (is @ js) \<le> 8 * length rs" using pool_reaches_left [OF t(1)] by (simp add: start_left)
  ultimately show ?thesis by blast
qed

theorem requests_progress_witness:
  "\<exists>js t. pool_reaches haiku_proxy (start_pool haiku_posts sample_client (haiku_world None)) js t
    \<and> list_all (\<lambda>x. answered (snd x)) (requests t) \<and> length js \<le> 24"
proof -
  have "pool_reaches haiku_proxy (start_pool haiku_posts sample_client (haiku_world None)) []
      (start_pool haiku_posts sample_client (haiku_world None))" "0 < length haiku_posts"
    by (rule pool_reaches.init) simp
  from requests_progress [OF this] show ?thesis by auto
qed

end
