(* ===== verification/Render_Properties.thy ===== *)
theory Render_Properties
  imports Proxy_Properties
begin

section \<open>Properties of the render handler\<close>

text \<open>
  What \<open>HandleRender\<close> does with the variables of a request, when it forwards to Bedrock and with
  what, and when it panics. The handler is that of the theory Proxy\_Handler; the environment is any
  that keeps the contract \<open>proxy_env\<close>.
\<close>

subsection \<open>Variables\<close>

text \<open>The defaults that the declared variables offer.\<close>

definition defaults :: "TemplateVariable list \<Rightarrow> string \<rightharpoonup> string" where
  "defaults vs = map_of (map (\<lambda>v. (tvName v, tvDefault v)) (filter (\<lambda>v. tvDefault v \<noteq> []) vs))"

lemma lookup_Some: "lookup_var (Some m) = m"
  by (rule ext) (simp add: lookup_var_def)

lemma defaults_None: "k \<notin> tvName ` set vs \<Longrightarrow> defaults vs k = None"
  by (auto simp: defaults_def map_of_eq_None_iff)

lemma defaults_Cons:
  "defaults (v # vs) = (if tvDefault v = [] then defaults vs else (defaults vs)(tvName v \<mapsto> tvDefault v))"
  by (simp add: defaults_def)

text \<open>The first required variable that a map lacks.\<close>

definition lacking :: "TemplateVariable list \<Rightarrow> (string \<rightharpoonup> string) \<Rightarrow> TemplateVariable option" where
  "lacking vs m = find (\<lambda>v. tvRequired v \<and> m (tvName v) = None) vs"

lemma lacking_Cons:
  "lacking (v # vs) m = (if tvRequired v \<and> m (tvName v) = None then Some v else lacking vs m)"
  by (simp add: lacking_def)

lemma lacking_upd: "k \<notin> tvName ` set vs \<Longrightarrow> lacking vs (m(k \<mapsto> x)) = lacking vs m"
  unfolding lacking_def by (rule find_cong) auto

lemma fill_some:
  "distinct (map tvName vs) \<Longrightarrow>
   fill_variables vs (Some m) =
     (case lacking vs m of Some v \<Rightarrow> MissingVariable (tvName v) | None \<Rightarrow> Filled (Some (defaults vs ++ m)))"
proof (induction vs arbitrary: m)
  case (Cons v vs)
  have new: "tvName v \<notin> tvName ` set vs" using Cons.prems by simp
  have shift: "(defaults vs ++ m)(tvName v \<mapsto> x) = (defaults vs)(tvName v \<mapsto> x) ++ m" if "m (tvName v) = None" for x
    using that by (auto simp: map_add_def fun_eq_iff split: option.split)
  have known: "(defaults vs)(tvName v \<mapsto> x) ++ m = defaults vs ++ m" if "m (tvName v) = Some y" for x y
    using that by (intro ext) (auto simp: map_add_def split: option.split)
  show ?case
  proof (cases "m (tvName v)")
    case None
    then show ?thesis using Cons new
      by (auto simp: lookup_var_def lacking_upd lacking_Cons shift defaults_Cons split: option.split)
  next
    case (Some y)
    then show ?thesis using Cons known [OF Some]
      by (auto simp: lookup_var_def lacking_Cons defaults_Cons split: option.split)
  qed
qed (simp add: lacking_def defaults_def)

lemma fill_nil:
  "fill_variables vs None = NilMapWrite \<longleftrightarrow>
     (\<exists>pre v post. vs = pre @ v # post \<and> \<not> tvRequired v \<and> tvDefault v \<noteq> []
        \<and> (\<forall>u \<in> set pre. \<not> tvRequired u \<and> tvDefault u = []))" (is "_ = ?early vs")
proof (induction vs)
  case (Cons v vs)
  have "?early (v # vs) \<longleftrightarrow> \<not> tvRequired v \<and> (tvDefault v \<noteq> [] \<or> ?early vs)"
    (is "?l = ?r")
  proof
    assume ?l
    then obtain pre u post where "v # vs = pre @ u # post" "\<not> tvRequired u" "tvDefault u \<noteq> []"
      "\<forall>u \<in> set pre. \<not> tvRequired u \<and> tvDefault u = []" by blast
    then show ?r by (cases pre) auto
  next
    assume r: ?r
    show ?l
    proof (cases "tvDefault v = []")
      case False
      then show ?thesis using r by (intro exI [of _ "[]"] exI [of _ v] exI [of _ vs]) simp
    next
      case True
      then obtain pre u post where "vs = pre @ u # post" "\<not> tvRequired u" "tvDefault u \<noteq> []"
        "\<forall>u \<in> set pre. \<not> tvRequired u \<and> tvDefault u = []" using r by blast
      then show ?thesis using r True by (intro exI [of _ "v # pre"] exI [of _ u] exI [of _ post]) simp
    qed
  qed
  then show ?case using Cons.IH by (simp add: lookup_var_def)
qed simp

lemma fill_never_nil: "fill_variables vs (Some m) \<noteq> NilMapWrite"
  by (induction vs arbitrary: m) auto

text \<open>The variables that a template is rendered with: a request that lacks a required variable is
  refused with the name of the first such one; else the template sees every variable of the request and,
  for each declared one that the request leaves out, its default if it has one. Nothing a caller sends is
  overwritten by a default.\<close>

theorem fill_variables_spec:
  assumes "distinct (map tvName vs)"
  shows "fill_variables vs (Some m) =
     (case find (\<lambda>v. tvRequired v \<and> m (tvName v) = None) vs of
        Some v \<Rightarrow> MissingVariable (tvName v)
      | None \<Rightarrow> Filled (Some (\<lambda>k. case m k of
            Some x \<Rightarrow> Some x
          | None \<Rightarrow> map_of (map (\<lambda>v. (tvName v, tvDefault v)) (filter (\<lambda>v. tvDefault v \<noteq> []) vs)) k)))"
  using fill_some [OF assms, of m]
  by (simp add: lacking_def defaults_def map_add_def fun_eq_iff split: option.split)

theorem fill_variables_spec_witness:
  "fill_variables [\<lparr>tvName = ''who'', tvType = TemplateVariableTypeString, tvRequired = True, tvDefault = [], tvDescription = []\<rparr>,
      \<lparr>tvName = ''tone'', tvType = TemplateVariableTypeString, tvRequired = False, tvDefault = ''dry'', tvDescription = []\<rparr>]
      (Some [''who'' \<mapsto> ''you'']) =
    Filled (Some (\<lambda>k. case [''who'' \<mapsto> ''you''] k of Some x \<Rightarrow> Some x | None \<Rightarrow> map_of [(''tone'', ''dry'')] k))"
  by (subst fill_variables_spec) (simp_all add: fun_eq_iff split: option.split)

subsection \<open>HandleRender\<close>

text \<open>A request that asks for a template, and one that passes every check of the handler.\<close>

definition render_wants :: "HttpRequest \<Rightarrow> string \<Rightarrow> string \<Rightarrow> RenderRequest \<Rightarrow> bool" where
  "render_wants r ns name req \<longleftrightarrow> rqMethod r = ''POST''
     \<and> parsePathSegments (rqPath r) ''/render/'' = Some (ns, name)
     \<and> unmarshal dec_render zero_render (rqBody r) = Inr req"

definition renders :: "('l, 'w) proxy \<Rightarrow> HttpRequest \<Rightarrow> 'w \<Rightarrow> string \<Rightarrow> PromptTemplate \<Rightarrow> string \<Rightarrow> ModelEndpoint \<Rightarrow> bool" where
  "renders px r w ns pt rendered ep \<longleftrightarrow> (\<exists>name req vars w1 w2. render_wants r ns name req
     \<and> rGet (ptAPI (pxKube px)) \<lparr>nnNamespace = ns, nnName = name\<rparr> w = (Inr pt, w1)
     \<and> fill_variables (Variables (ptSpec pt)) (rrVariables req) = Filled vars
     \<and> renderTemplate (pxEngine px) (Template (ptSpec pt)) (lookup_var vars) = Inr rendered
     \<and> fetchEndpoint px ns (refName (ptModelEndpointRef (ptSpec pt))) w1 = (Inr ep, w2)
     \<and> Available (epStatus ep))"

lemma render_wants_unique:
  "render_wants r ns name req \<Longrightarrow> render_wants r ns' name' req' \<Longrightarrow> ns' = ns \<and> name' = name \<and> req' = req"
  by (auto simp: render_wants_def)

lemma renders_unique:
  assumes "renders px r w ns pt rendered ep" "renders px r w ns' pt' rendered' ep'"
  shows "ns' = ns \<and> pt' = pt \<and> rendered' = rendered \<and> ep' = ep"
  using assms unfolding renders_def by (elim exE conjE) (drule (1) render_wants_unique, auto)

lemma HandleRender_unwanted:
  "\<nexists>ns name req. render_wants r ns name req \<Longrightarrow>
   \<exists>code msg. HandleRender px r h w = (http_error [] msg code, [], h, w) \<and> code \<in> {400, 405}"
  by (auto simp: HandleRender_def render_wants_def split: option.split sum.split)

text \<open>The handler after the request is decoded and the template read.\<close>

lemma HandleRender_wanted:
  assumes "render_wants r ns name req"
  shows "HandleRender px r h w =
    (case rGet (ptAPI (pxKube px)) \<lparr>nnNamespace = ns, nnName = name\<rparr> w of
       (Inl err, w1) \<Rightarrow> (http_error [] ''template not found'' 404, [], h, w1)
     | (Inr pt, w1) \<Rightarrow>
         case fill_variables (Variables (ptSpec pt)) (rrVariables req) of
           MissingVariable v \<Rightarrow> (http_error [] (''missing required variable: '' @ v) 400, [], h, w1)
         | NilMapWrite \<Rightarrow> (Panicked ''assignment to entry in nil map'', [], h, w1)
         | Filled vars \<Rightarrow>
             case renderTemplate (pxEngine px) (Template (ptSpec pt)) (lookup_var vars) of
               Inl err \<Rightarrow> (http_error [] (''template rendering failed: '' @ error_text err) 400, [], h, w1)
             | Inr rendered \<Rightarrow>
                 let epName = refName (ptModelEndpointRef (ptSpec pt))
                 in case fetchEndpoint px ns epName w1 of
                      (Inl err, w2) \<Rightarrow> (http_error [] ''referenced endpoint not found'' 404, [], h, w2)
                    | (Inr ep, w2) \<Rightarrow>
                        if \<not> Available (epStatus ep) then (http_error [] ''endpoint not available'' 503, [], h, w2)
                        else forward_render px ns epName pt rendered ep h w2)"
  using assms by (simp add: HandleRender_def render_wants_def)

context proxy_env begin

lemma render_reads:
  "rGet (ptAPI (pxKube px)) k w = (g, w1) \<Longrightarrow> log w1 = log w"
  using read_logs(2) [of k w] by simp

lemma HandleRender_refused:
  assumes run: "HandleRender px r h w = (reply, ops, h', w')" and no: "\<nexists>ns pt rendered ep. renders px r w ns pt rendered ep"
  shows "log w' = log w \<and> h' = h \<and> ops = []
    \<and> (case reply of Responded resp \<Rightarrow> hCode resp \<in> {400, 404, 405, 503}
       | Panicked msg \<Rightarrow> msg = ''assignment to entry in nil map'')"
proof (cases "\<exists>ns name req. render_wants r ns name req")
  case False
  then show ?thesis using HandleRender_unwanted [of r px h w] run by (auto simp: go_simps)
next
  case True
  then obtain ns name req where want: "render_wants r ns name req" by blast
  obtain g w1 where get: "rGet (ptAPI (pxKube px)) \<lparr>nnNamespace = ns, nnName = name\<rparr> w = (g, w1)" by fastforce
  have log1: "log w1 = log w" by (rule render_reads [OF get])
  note run = run [unfolded HandleRender_wanted [OF want] get]
  show ?thesis
  proof (cases g)
    case (Inl err)
    then show ?thesis using run log1 by (auto simp: go_simps)
  next
    case (Inr pt)
    note run = run [unfolded Inr prod.case sum.case]
    show ?thesis
    proof (cases "fill_variables (Variables (ptSpec pt)) (rrVariables req)")
      case (Filled vars)
      note run = run [unfolded Filled filled.case]
      show ?thesis
      proof (cases "renderTemplate (pxEngine px) (Template (ptSpec pt)) (lookup_var vars)")
        case (Inl err)
        then show ?thesis using run log1 by (auto simp: go_simps)
      next
        case rendered: (Inr rendered)
        obtain g2 w2 where fetch: "fetchEndpoint px ns (refName (ptModelEndpointRef (ptSpec pt))) w1 = (g2, w2)" by fastforce
        have "\<not> (\<exists>ep. g2 = Inr ep \<and> Available (epStatus ep))"
          using no want get Inr Filled rendered fetch unfolding renders_def by blast
        then show ?thesis using run rendered fetch log1 fetch_logs [OF fetch]
          by (cases g2) (auto simp: go_simps Let_def)
      qed
    qed (use run log1 in \<open>auto simp: go_simps\<close>)
  qed
qed

lemma HandleRender_admitted:
  assumes run: "HandleRender px r h w = (reply, ops, h', w')" and yes: "renders px r w ns pt rendered ep"
  shows "\<exists>w2. log w2 = log w
    \<and> forward_render px ns (refName (ptModelEndpointRef (ptSpec pt))) pt rendered ep h w2 = (reply, ops, h', w')"
proof -
  obtain name req vars w1 w2 where want: "render_wants r ns name req"
    and get: "rGet (ptAPI (pxKube px)) \<lparr>nnNamespace = ns, nnName = name\<rparr> w = (Inr pt, w1)"
    and rest: "fill_variables (Variables (ptSpec pt)) (rrVariables req) = Filled vars"
      "renderTemplate (pxEngine px) (Template (ptSpec pt)) (lookup_var vars) = Inr rendered"
    and fetch: "fetchEndpoint px ns (refName (ptModelEndpointRef (ptSpec pt))) w1 = (Inr ep, w2)"
    and up: "Available (epStatus ep)"
    using yes unfolding renders_def by blast
  have "log w2 = log w" using render_reads [OF get] fetch_logs [OF fetch] by simp
  then show ?thesis using run get rest fetch up
    by (intro exI [of _ w2]) (simp add: HandleRender_wanted [OF want] Let_def)
qed

end

text \<open>The input that a rendered template hands to Bedrock: one user message, the template's system
  prompt, its token limit within the endpoint's cap, and no temperature.\<close>

definition render_input :: "PromptTemplate \<Rightarrow> ModelEndpoint \<Rightarrow> string \<Rightarrow> InvokeInput" where
  "render_input pt ep rendered =
     \<lparr>iiModelId = ModelId (epSpec ep), iiSystemPrompt = ptSystemPrompt (ptSpec pt),
      iiMessages = [\<lparr>Role = ''user'', Content = rendered\<rparr>],
      iiMaxTokens = capped (case ptMaxTokens (ptSpec pt) of None \<Rightarrow> 0 | Some n \<Rightarrow> n) (epMaxTokens (epSpec ep)),
      iiTemperature = 0\<rparr>"

context proxy_env begin

lemma forward_render_step:
  assumes wf: "client_wf (hBedrock h)" and fwd: "forward_render px ns epName pt rendered ep h w = (reply, ops, h', w')"
  shows "log w' = log w @ [(role_config (baseConfig (hBedrock h)) (endpoint_key ep), ModelId (epSpec ep),
          json_request (build_request (render_input pt ep rendered)))]
    \<and> rateLimiters h' = rateLimiters h
    \<and> (case reply of
         Responded resp \<Rightarrow> hCode resp = 502 \<and> ops = [] \<or> hCode resp = 200 \<and> list_all metric_op_ok ops
           \<and> ops_on InvocationTotal ops = [MInc InvocationTotal [ns, epName, ModelId (epSpec ep), ''success'']]
       | Panicked msg \<Rightarrow> negative_answer px (endpoint_key ep) (render_input pt ep rendered))"
proof -
  obtain res c w2 where i: "Invoke (pxAws px) (endpoint_key ep) (render_input pt ep rendered) (hBedrock h) w = (res, c, w2)"
    by (metis prod.collapse)
  note run = fwd [unfolded forward_render_def Let_def, folded render_input_def]
  have out: "w' = w2" "rateLimiters h' = rateLimiters h" using run i by (cases res; auto simp: case_prod_unfold)+
  have "case reply of
         Responded resp \<Rightarrow> hCode resp = 502 \<and> ops = [] \<or> hCode resp = 200 \<and> list_all metric_op_ok ops
           \<and> ops_on InvocationTotal ops = [MInc InvocationTotal [ns, epName, ModelId (epSpec ep), ''success'']]
       | Panicked msg \<Rightarrow> negative_answer px (endpoint_key ep) (render_input pt ep rendered)"
  proof (cases res)
    case (Inl err)
    then show ?thesis using run i by (auto simp: go_simps)
  next
    case (Inr result)
    let ?labels = "[ns, epName, ModelId (epSpec ep)]"
    let ?cost = "cost_report ?labels (ModelId (epSpec ep)) result"
    let ?ops = "[MInc InvocationTotal (?labels @ [''success'']),
                   MAdd InputTokensTotal ?labels (f64 (of_int (ioInputTokens result))),
                   MAdd OutputTokensTotal ?labels (f64 (of_int (ioOutputTokens result)))] @ fst ?cost"
    let ?json = "http_json (invoke_response result (snd ?cost))"
    have m: "metered ?ops ?json = (reply, ops)"
      using run i Inr by (auto simp: case_prod_unfold prod_eq_iff)
    show ?thesis
    proof (cases reply)
      case (Responded resp)
      then have "list_all metric_op_ok ?ops" "ops = ?ops" "?json = Responded resp"
        using m unfolding Responded metered_Responded by blast+
      then show ?thesis using Responded by (auto simp: go_simps cost_report_quiet)
    next
      case (Panicked msg)
      then have "\<not> list_all metric_op_ok ?ops" using m by (auto simp: metered_def go_simps)
      then have "\<not> (0 \<le> ioInputTokens result \<and> 0 \<le> ioOutputTokens result)"
        using answer_ops_ok [of result ?labels "''success''" "ModelId (epSpec ep)"] by auto
      then show ?thesis using i Inr Panicked unfolding negative_answer_def
        by (simp, intro exI [of _ "hBedrock h"] exI [of _ w]) auto
    qed
  qed
  then show ?thesis using out invoke_step [OF wf i] by (simp add: render_input_def)
qed

end

text \<open>C33: HandleRender calls Bedrock exactly for a POST with a well-formed path and body that names a
  template whose required variables are all given and which renders, for an endpoint of the same
  namespace that exists and is available. Bedrock then gets one request, with the role and region of the
  endpoint: the rendered text as a single user message, the template's system prompt and token limit, the
  latter within the endpoint's cap. No limiter is asked, so a rate limit does not hold for templates, and
  a failed call counts in no metric. Any other request changes nothing and is answered with 400, 404, 405
  or 503, or panics on a nil map of variables.\<close>

theorem HandleRender_calls_bedrock:
  assumes "proxy_env px calls time_of" "client_wf (hBedrock h)"
    and "HandleRender px r h w = (reply, ops, h', w')"
  shows "(\<nexists>ns pt rendered ep. renders px r w ns pt rendered ep) \<and> calls w' = calls w \<and> h' = h \<and> ops = []
       \<and> (case reply of Responded resp \<Rightarrow> hCode resp \<in> {400, 404, 405, 503}
          | Panicked msg \<Rightarrow> msg = ''assignment to entry in nil map'')
     \<or> (\<exists>ns pt rendered ep. renders px r w ns pt rendered ep
       \<and> calls w' = calls w @ [((baseConfig (hBedrock h))\<lparr>cfgRegion := Region (epSpec ep),
             cfgCreds := AssumeRole (cfgCreds (baseConfig (hBedrock h))) (IRSARoleArn (epSpec ep)) ''k8s-ai-operator''\<rparr>,
           ModelId (epSpec ep), json_request (build_request (render_input pt ep rendered)))]
       \<and> rateLimiters h' = rateLimiters h
       \<and> (case reply of
            Responded resp \<Rightarrow> hCode resp = 502 \<and> ops = [] \<or> hCode resp = 200 \<and> list_all metric_op_ok ops
              \<and> ops_on InvocationTotal ops =
                  [MInc InvocationTotal [ns, refName (ptModelEndpointRef (ptSpec pt)), ModelId (epSpec ep), ''success'']]
          | Panicked msg \<Rightarrow> negative_answer px (endpoint_key ep) (render_input pt ep rendered)))"
proof (cases "\<exists>ns pt rendered ep. renders px r w ns pt rendered ep")
  case False
  then show ?thesis using proxy_env.HandleRender_refused [OF assms(1,3) False] by simp
next
  case True
  then obtain ns pt rendered ep where yes: "renders px r w ns pt rendered ep" by blast
  obtain w2 where w2: "calls w2 = calls w"
    and fwd: "forward_render px ns (refName (ptModelEndpointRef (ptSpec pt))) pt rendered ep h w2 = (reply, ops, h', w')"
    using proxy_env.HandleRender_admitted [OF assms(1,3) yes] by blast
  note step = proxy_env.forward_render_step [OF assms(1,2) fwd]
  show ?thesis using yes step w2
    by (intro disjI2 exI [of _ ns] exI [of _ pt] exI [of _ rendered] exI [of _ ep])
      (simp add: role_config_def endpoint_key_def)
qed

text \<open>C34: on a request whose template exists, HandleRender writes to a nil map and panics exactly when
  the body gives no variables object at all (it is missing or null) and an optional variable with a
  default comes in the template's list before any required one.\<close>

theorem HandleRender_nil_map:
  assumes "rqMethod r = ''POST''" "parsePathSegments (rqPath r) ''/render/'' = Some (ns, name)"
    and "unmarshal dec_render \<lparr>rrVariables = None\<rparr> (rqBody r) = Inr req"
    and "fst (rGet (ptAPI (pxKube px)) \<lparr>nnNamespace = ns, nnName = name\<rparr> w) = Inr pt"
  shows "fst (HandleRender px r h w) = Panicked ''assignment to entry in nil map'' \<longleftrightarrow>
    rrVariables req = None \<and> (\<exists>pre v post. Variables (ptSpec pt) = pre @ v # post
      \<and> \<not> tvRequired v \<and> tvDefault v \<noteq> [] \<and> (\<forall>u \<in> set pre. \<not> tvRequired u \<and> tvDefault u = []))"
proof -
  have want: "render_wants r ns name req" using assms(1-3) by (simp add: render_wants_def zero_render_def)
  obtain w1 where get: "rGet (ptAPI (pxKube px)) \<lparr>nnNamespace = ns, nnName = name\<rparr> w = (Inr pt, w1)"
    using assms(4) by (metis prod.collapse)
  have other: "fst (forward_render px ns e pt s ep h v) \<noteq> Panicked ''assignment to entry in nil map''" for e s ep v
    by (auto simp: forward_render_def Let_def case_prod_unfold metered_def go_simps
        split: sum.split)
  have "fst (HandleRender px r h w) = Panicked ''assignment to entry in nil map'' \<longleftrightarrow>
      fill_variables (Variables (ptSpec pt)) (rrVariables req) = NilMapWrite"
    by (auto simp: HandleRender_wanted [OF want] get Let_def other go_simps
        split: filled.split sum.split prod.split)
  also have "\<dots> \<longleftrightarrow> rrVariables req = None \<and> fill_variables (Variables (ptSpec pt)) None = NilMapWrite"
    by (cases "rrVariables req") (simp_all add: fill_never_nil)
  finally show ?thesis by (simp only: fill_nil)
qed

subsection \<open>The greeting template on the in-memory cluster\<close>

lemma parse_greet: "parsePathSegments ''/render/team-a/greet'' ''/render/'' = Some (''team-a'', ''greet'')"
  using parsePathSegments_iff [of "''/render/''" "''team-a/greet''" "''team-a''" "''greet''"] by simp

lemma greet_get:
  "rGet (ptAPI (pxKube haiku_proxy)) \<lparr>nnNamespace = ''team-a'', nnName = ''greet''\<rparr> (haiku_world rl) = (Inr haiku_template, haiku_world rl)"
  by (simp add: haiku_proxy_def haiku_world_def haiku_template_def mem_get_def next_fault_def keyOf_def)

lemma greet_text: "renderTemplate field_engine ''Hi {{.who}}'' [''who'' \<mapsto> ''Ada''] = Inr ''Hi Ada''"
  by code_simp

lemma greet_renders:
  "renders haiku_proxy (post ''/render/team-a/greet'' (JObj [(''variables'', JObj [(''who'', JStr ''Ada'')])]))
     (haiku_world (Some \<lparr>RequestsPerMinute = 60\<rparr>)) ''team-a'' haiku_template ''Hi Ada'' (haiku (Some \<lparr>RequestsPerMinute = 60\<rparr>))"
  unfolding renders_def
proof (rule exI [of _ "''greet''"], rule exI [of _ "\<lparr>rrVariables = Some [''who'' \<mapsto> ''Ada'']\<rparr>"],
    rule exI [of _ "Some [''who'' \<mapsto> ''Ada'']"], rule exI, rule exI, intro conjI)
  show "render_wants (post ''/render/team-a/greet'' (JObj [(''variables'', JObj [(''who'', JStr ''Ada'')])]))
     ''team-a'' ''greet'' \<lparr>rrVariables = Some [''who'' \<mapsto> ''Ada'']\<rparr>"
    by (simp add: render_wants_def post_def parse_greet unmarshal_def dec_render_def find_field_def into_def zero_render_def)
  show "fill_variables (Variables (ptSpec haiku_template)) (rrVariables \<lparr>rrVariables = Some [''who'' \<mapsto> ''Ada'']\<rparr>)
      = Filled (Some [''who'' \<mapsto> ''Ada''])"
    by (simp add: haiku_template_def lookup_var_def)
  show "renderTemplate (pxEngine haiku_proxy) (Template (ptSpec haiku_template)) (lookup_var (Some [''who'' \<mapsto> ''Ada'']))
      = Inr ''Hi Ada''"
    using greet_text by (simp only: lookup_Some) (simp add: haiku_proxy_def haiku_template_def)
qed (use greet_get haiku_fetch in \<open>simp_all add: haiku_template_def\<close>)

text \<open>The bucket of the endpoint is empty, and still the template is served.\<close>

theorem HandleRender_calls_bedrock_witness:
  "\<exists>reply ops h' w' call. HandleRender haiku_proxy
      (post ''/render/team-a/greet'' (JObj [(''variables'', JObj [(''who'', JStr ''Ada'')])]))
      (NewHandler sample_client) (haiku_world (Some \<lparr>RequestsPerMinute = 60\<rparr>)) = (reply, ops, h', w')
    \<and> sent w' = [call] \<and> fst (snd call) = ''amazon.nova-lite-v1:0'' \<and> rateLimiters h' = Map.empty"
proof -
  let ?r = "post ''/render/team-a/greet'' (JObj [(''variables'', JObj [(''who'', JStr ''Ada'')])])"
  let ?w = "haiku_world (Some \<lparr>RequestsPerMinute = 60\<rparr>)"
  obtain reply ops h' w' where run: "HandleRender haiku_proxy ?r (NewHandler sample_client) ?w = (reply, ops, h', w')"
    by (metis prod.collapse)
  from HandleRender_calls_bedrock [OF haiku_env haiku_wf run] greet_renders
  obtain ns pt rendered ep call where "renders haiku_proxy ?r ?w ns pt rendered ep"
    and out: "sent w' = sent ?w @ [call]" "fst (snd call) = ModelId (epSpec ep)"
      "rateLimiters h' = rateLimiters (NewHandler sample_client)"
    by fastforce
  then have "ep = haiku (Some \<lparr>RequestsPerMinute = 60\<rparr>)" using renders_unique [OF greet_renders] by blast
  with out have "sent w' = [call]" "fst (snd call) = ''amazon.nova-lite-v1:0''" "rateLimiters h' = Map.empty"
    by (simp_all add: haiku_world_def NewHandler_def)
  then show ?thesis using run by blast
qed

theorem HandleRender_nil_map_witness:
  "fst (HandleRender haiku_proxy (post ''/render/team-a/greet'' (JObj [])) (NewHandler sample_client) (haiku_world None))
     = Panicked ''assignment to entry in nil map''"
  by (subst HandleRender_nil_map [where ns = "''team-a''" and name = "''greet''" and req = "\<lparr>rrVariables = None\<rparr>" and pt = haiku_template])
    (simp_all add: post_def parse_greet unmarshal_def dec_render_def greet_get haiku_template_def,
     intro exI [of _ "[]"], simp)

end
