(* ===== verification/Proxy_Server.thy ===== *)
theory Proxy_Server
  imports Render_Properties
begin

section \<open>The proxy server (internal/proxy/server.go)\<close>

text \<open>
  The server that NewServer builds (its routes over net/http's ServeMux, and the default timeouts), its
  health endpoint, and the protocol between Start, the goroutine that serves, and the shutdown. A request
  path is one without percent-encoding, so that the mux and the handlers see the same string.
\<close>

subsection \<open>Configuration\<close>

record ServerConfig =
  ListenAddr :: string
  cfgReadTimeout :: int
  cfgWriteTimeout :: int

record HttpServer =
  Addr :: string
  ReadTimeout :: int
  WriteTimeout :: int

definition NewServer :: "ServerConfig \<Rightarrow> HttpServer" where
  "NewServer cfg =
     (let readTimeout = (if cfgReadTimeout cfg = 0 then 10 * 1000000000 else cfgReadTimeout cfg);
          writeTimeout = (if cfgWriteTimeout cfg = 0 then 120 * 1000000000 else cfgWriteTimeout cfg)
      in \<lparr>Addr = ListenAddr cfg, ReadTimeout = readTimeout, WriteTimeout = writeTimeout\<rparr>)"

subsection \<open>ServeMux\<close>

text \<open>Segments of a path: the parts between slashes.\<close>

fun segments :: "string \<Rightarrow> string list" where
  "segments [] = [[]]"
| "segments (c # cs) =
     (if c = CHR ''/'' then [] # segments cs
      else (case segments cs of [] \<Rightarrow> [[c]] | s # ss \<Rightarrow> (c # s) # ss))"

text \<open>path.Clean of a rooted path: empty and dot segments go, a double dot takes the one before it along.\<close>

fun clean_segments :: "string list \<Rightarrow> string list \<Rightarrow> string list" where
  "clean_segments out [] = rev out"
| "clean_segments out (s # ss) =
     (if s = [] \<or> s = ''.'' then clean_segments out ss
      else if s = ''..'' then clean_segments (drop 1 out) ss
      else clean_segments (s # out) ss)"

fun rooted :: "string list \<Rightarrow> string" where
  "rooted [] = []"
| "rooted (s # ss) = ''/'' @ s @ rooted ss"

text \<open>cleanPath of net/http keeps the slash at the end.\<close>

definition cleanPath :: "string \<Rightarrow> string" where
  "cleanPath p =
     (if p = [] then ''/''
      else let p = (if hd p = CHR ''/'' then p else CHR ''/'' # p);
               np = rooted (clean_segments [] (segments p))
           in if np = [] then ''/'' else if last p = CHR ''/'' then np @ ''/'' else np)"

datatype route = Healthz | InvokeRoute | RenderRoute

text \<open>The patterns of NewServer; one that ends in a slash matches everything below it.\<close>

definition routes :: "(string \<times> route) list" where
  "routes = [(''/healthz'', Healthz), (''/invoke/'', InvokeRoute), (''/render/'', RenderRoute)]"

definition pattern_matches :: "string \<Rightarrow> string \<Rightarrow> bool" where
  "pattern_matches pat p = (if last pat = CHR ''/'' then prefix pat p else pat = p)"

definition mux_match :: "string \<Rightarrow> route option" where
  "mux_match p = map_option snd (find (\<lambda>(pat, _). pattern_matches pat p) routes)"

datatype routed = Redirect string | Found route | NotFound

text \<open>A path that lacks only the slash of a pattern, or that is not clean, is redirected; CONNECT
  requests are not cleaned.\<close>

definition mux_route :: "string \<Rightarrow> string \<Rightarrow> routed" where
  "mux_route method path =
     (let p = (if method = ''CONNECT'' then path else cleanPath path)
      in if mux_match p = None \<and> p @ ''/'' \<in> set (map fst routes) then Redirect (cleanPath path @ ''/'')
         else if p \<noteq> path then Redirect p
         else case mux_match p of Some t \<Rightarrow> Found t | None \<Rightarrow> NotFound)"

definition handleHealthz :: reply where
  "handleHealthz = Responded \<lparr>hCode = 200, hHeaders = [], hBody = TextBody ''ok''\<rparr>"

definition ServeHTTP :: "('l, 'w) proxy \<Rightarrow> HttpRequest \<Rightarrow> 'l Handler \<Rightarrow> 'w \<Rightarrow> ('l, 'w) handled" where
  "ServeHTTP px r h w =
     (case mux_route (rqMethod r) (rqPath r) of
        Redirect url \<Rightarrow> (Responded \<lparr>hCode = 301, hHeaders = [(''Location'', url)], hBody = TextBody []\<rparr>, [], h, w)
      | Found Healthz \<Rightarrow> (handleHealthz, [], h, w)
      | Found InvokeRoute \<Rightarrow> HandleInvoke px r h w
      | Found RenderRoute \<Rightarrow> HandleRender px r h w
      | NotFound \<Rightarrow> (http_error [] ''404 page not found'' 404, [], h, w))"

lemma mux_match_eq:
  "mux_match p = (if p = ''/healthz'' then Some Healthz else if prefix ''/invoke/'' p then Some InvokeRoute
     else if prefix ''/render/'' p then Some RenderRoute else None)"
  by (simp add: mux_match_def routes_def pattern_matches_def eq_commute [of p])

lemma invoke_not_render: "prefix ''/invoke/'' p \<Longrightarrow> \<not> prefix ''/render/'' p"
proof
  assume "prefix ''/invoke/'' p" "prefix ''/render/'' p"
  then have "take 2 p = ''/i''" "take 2 p = ''/r''" by (auto elim!: prefixE)
  then show False by simp
qed

lemma mux_match_simps:
  "mux_match p = Some InvokeRoute \<longleftrightarrow> prefix ''/invoke/'' p"
  "mux_match p = Some RenderRoute \<longleftrightarrow> prefix ''/render/'' p"
  "mux_match p = Some Healthz \<longleftrightarrow> p = ''/healthz''"
  using invoke_not_render [of p] by (auto simp: mux_match_eq)

text \<open>A segment that cleaning keeps.\<close>

definition plain_segment :: "string \<Rightarrow> bool" where
  "plain_segment s \<longleftrightarrow> s \<noteq> [] \<and> s \<noteq> ''.'' \<and> s \<noteq> ''..'' \<and> CHR ''/'' \<notin> set s"

lemma clean_segments_ok:
  "\<forall>s \<in> set ss. CHR ''/'' \<notin> set s \<Longrightarrow> list_all plain_segment out \<Longrightarrow> list_all plain_segment (clean_segments out ss)"
proof (induction out ss rule: clean_segments.induct)
  case (2 out s ss)
  have "list_all plain_segment (drop 1 out)" using 2(5) by (cases out) simp_all
  moreover have "list_all plain_segment (s # out)" if "\<not> (s = [] \<or> s = ''.'')" "s \<noteq> ''..''"
  proof -
    have "plain_segment s" using that 2(4) by (simp add: plain_segment_def)
    then show ?thesis using 2(5) by simp
  qed
  ultimately show ?case using 2 by simp
qed simp

lemma segments_no_slash: "s \<in> set (segments p) \<Longrightarrow> CHR ''/'' \<notin> set s"
  by (induction p arbitrary: s) (auto split: if_splits list.splits)

lemma segments_cut: "CHR ''/'' \<notin> set s \<Longrightarrow> segments (s @ ''/'' @ p) = s # segments p"
  by (induction s) auto

lemma segments_plain: "CHR ''/'' \<notin> set s \<Longrightarrow> segments s = [s]"
  by (induction s) auto

lemma segments_rooted:
  "list_all plain_segment ss \<Longrightarrow> segments (rooted ss @ p) = (if ss = [] then segments p
     else [] # butlast ss @ segments (last ss @ p))"
proof (induction ss)
  case (Cons s ss)
  show ?case
  proof (cases ss)
    case Nil
    then show ?thesis by simp
  next
    case (Cons t ts)
    have "CHR ''/'' \<notin> set s" using Cons.prems by (simp add: plain_segment_def)
    then have "segments (s @ rooted ss @ p) = s # tl (segments (rooted ss @ p))"
      using segments_cut [of s "t @ rooted ts @ p"] Cons by simp
    then show ?thesis using Cons.IH Cons.prems Cons by simp
  qed
qed simp

text \<open>The segments of a clean path: one empty at the front, one more for a slash at the end.\<close>

lemma segments_clean:
  assumes "cleanPath p = p"
  shows "\<exists>ss. list_all plain_segment ss \<and> (segments p = [] # ss \<or> segments p = [] # ss @ [[]])"
proof -
  define p' where "p' = (if hd p = CHR ''/'' then p else CHR ''/'' # p)"
  define ss where "ss = clean_segments [] (segments p')"
  have plain: "list_all plain_segment ss"
    unfolding ss_def by (rule clean_segments_ok) (use segments_no_slash in auto)
  have "p \<noteq> []" using assms by (auto simp: cleanPath_def)
  then have p: "p = (if rooted ss = [] then ''/'' else if last p' = CHR ''/'' then rooted ss @ ''/'' else rooted ss)"
    using assms unfolding cleanPath_def Let_def p'_def [symmetric] ss_def [symmetric] by (simp only: if_False split: if_splits)
  show ?thesis
  proof (cases "ss = []")
    case True
    then have "segments p = [] # ss @ [[]]" using p by simp
    then show ?thesis using plain by blast
  next
    case False
    then have ne: "rooted ss \<noteq> []" by (cases ss) simp_all
    have l: "CHR ''/'' \<notin> set (last ss)" using plain False by (simp add: list_all_iff plain_segment_def)
    have "segments (rooted ss @ ''/'') = [] # ss @ [[]]"
      using segments_rooted [OF plain, of "''/''"] segments_cut [OF l, of "[]"] False by simp
    moreover have "segments (rooted ss) = [] # ss"
      using segments_rooted [OF plain, of "[]"] segments_plain [OF l] False by simp
    ultimately show ?thesis using p ne plain by (cases "last p' = CHR ''/''") (metis | simp)+
  qed
qed

text \<open>What the handlers see of a path that the mux hands to them.\<close>

lemma handler_path:
  assumes "mux_route method path = Found t" "method \<noteq> ''CONNECT''" "prefix pre path" "pre = ''/'' @ seg @ ''/''" "plain_segment seg"
    and "parsePathSegments path pre = Some (ns, name)"
  shows "path = pre @ ns @ ''/'' @ name \<and> plain_segment ns \<and> name \<noteq> []"
proof -
  obtain rest where path: "path = pre @ rest" using assms(3) by (auto elim: prefixE)
  then have rest: "rest = ns @ ''/'' @ name" "ns \<noteq> []" "name \<noteq> []" "CHR ''/'' \<notin> set ns"
    using assms(6) by (simp_all add: parsePathSegments_iff)
  have "cleanPath path = path" using assms(1,2) by (auto simp: mux_route_def Let_def split: if_splits)
  then obtain ss where ss: "list_all plain_segment ss" "segments path = [] # ss \<or> segments path = [] # ss @ [[]]"
    using segments_clean by blast
  have seg: "CHR ''/'' \<notin> set seg" using assms(5) by (simp add: plain_segment_def)
  have "segments path = [] # seg # ns # segments name"
    using segments_cut [OF seg, of "ns @ ''/'' @ name"] segments_cut [OF rest(4), of name]
    unfolding path assms(4) rest(1) by simp
  then have "ns \<in> set ss" using ss(2) rest(2) by (cases ss; cases "tl ss") auto
  then show ?thesis using path rest ss(1) by (simp add: list_all_iff)
qed

lemma invoke_path:
  assumes "mux_route method path = Found InvokeRoute" "method \<noteq> ''CONNECT''" "parsePathSegments path ''/invoke/'' = Some (ns, name)"
  shows "path = ''/invoke/'' @ ns @ ''/'' @ name \<and> plain_segment ns \<and> name \<noteq> []"
  by (rule handler_path [OF assms(1,2), where seg = "''invoke''"])
    (use assms in \<open>auto simp: mux_route_def Let_def mux_match_simps plain_segment_def split: if_splits option.splits\<close>)

lemma render_path:
  assumes "mux_route method path = Found RenderRoute" "method \<noteq> ''CONNECT''" "parsePathSegments path ''/render/'' = Some (ns, name)"
  shows "path = ''/render/'' @ ns @ ''/'' @ name \<and> plain_segment ns \<and> name \<noteq> []"
  by (rule handler_path [OF assms(1,2), where seg = "''render''"])
    (use assms in \<open>auto simp: mux_route_def Let_def mux_match_simps plain_segment_def split: if_splits option.splits\<close>)

text \<open>What a request that is served may ask of Bedrock.\<close>

context proxy_env begin

lemma served_cases:
  assumes "client_wf (hBedrock h)"
    and "ServeHTTP px r h w = (reply, ops, h', w')"
  shows "log w' = log w \<and> hBedrock h' = hBedrock h
    \<or> (\<exists>ns name ep input. rqMethod r = ''POST'' \<and> plain_segment ns \<and> name \<noteq> []
        \<and> log w' = log w @ [((baseConfig (hBedrock h))\<lparr>cfgRegion := Region (epSpec ep),
             cfgCreds := AssumeRole (cfgCreds (baseConfig (hBedrock h))) (IRSARoleArn (epSpec ep)) ''k8s-ai-operator''\<rparr>,
           ModelId (epSpec ep), json_request (build_request input))]
        \<and> (rqPath r = ''/invoke/'' @ ns @ ''/'' @ name
             \<and> (\<exists>req. admits px r h w ns name req ep \<and> input = invoke_input req ep)
           \<or> rqPath r = ''/render/'' @ ns @ ''/'' @ name
             \<and> (\<exists>pt rendered. renders px r w ns pt rendered ep \<and> input = render_input pt ep rendered)))"
proof (cases "mux_route (rqMethod r) (rqPath r)")
  case (Found t)
  show ?thesis
  proof (cases t)
    case Healthz
    then show ?thesis using assms(2) Found by (simp add: ServeHTTP_def)
  next
    case InvokeRoute
    then have run: "HandleInvoke px r h w = (reply, ops, h', w')" using assms(2) Found by (simp add: ServeHTTP_def)
    show ?thesis
    proof (cases "\<exists>ns name req ep. admits px r h w ns name req ep")
      case False
      then show ?thesis using HandleInvoke_refused [OF run] by blast
    next
      case True
      then obtain ns name req ep where adm: "admits px r h w ns name req ep" by blast
      then have post: "rqMethod r = ''POST''" "parsePathSegments (rqPath r) ''/invoke/'' = Some (ns, name)"
        by (simp_all add: admits_def)
      have path: "rqPath r = ''/invoke/'' @ ns @ ''/'' @ name \<and> plain_segment ns \<and> name \<noteq> []"
        by (rule invoke_path [OF Found [unfolded InvokeRoute] _ post(2)]) (simp add: post(1))
      obtain h2 w2 where h2: "hBedrock h2 = hBedrock h" "log w2 = log w"
        and fwd: "forward_invoke px ns name ep req h2 w2 = (reply, ops, h', w')"
        using HandleInvoke_admitted [OF assms(1) run adm] by blast
      have "log w' = log w2 @ [(role_config (baseConfig (hBedrock h2)) (endpoint_key ep), ModelId (epSpec ep),
          json_request (build_request (invoke_input req ep)))]"
        using forward_step [OF _ fwd] assms(1) h2(1) by auto
      then show ?thesis using h2 post path adm
        by (intro disjI2 exI [of _ ns] exI [of _ name] exI [of _ ep] exI [of _ "invoke_input req ep"])
          (auto simp: role_config_def endpoint_key_def)
    qed
  next
    case RenderRoute
    then have run: "HandleRender px r h w = (reply, ops, h', w')" using assms(2) Found by (simp add: ServeHTTP_def)
    show ?thesis
    proof (cases "\<exists>ns pt rendered ep. renders px r w ns pt rendered ep")
      case False
      then show ?thesis using HandleRender_refused [OF run] by blast
    next
      case True
      then obtain ns pt rendered ep where yes: "renders px r w ns pt rendered ep" by blast
      then obtain name where post: "rqMethod r = ''POST''" "parsePathSegments (rqPath r) ''/render/'' = Some (ns, name)"
        by (auto simp: renders_def render_wants_def)
      have path: "rqPath r = ''/render/'' @ ns @ ''/'' @ name \<and> plain_segment ns \<and> name \<noteq> []"
        by (rule render_path [OF Found [unfolded RenderRoute] _ post(2)]) (simp add: post(1))
      obtain w2 where w2: "log w2 = log w"
        and fwd: "forward_render px ns (refName (ptModelEndpointRef (ptSpec pt))) pt rendered ep h w2 = (reply, ops, h', w')"
        using HandleRender_admitted [OF run yes] by blast
      show ?thesis using forward_render_step [OF assms(1) fwd] w2 post path yes
        by (intro disjI2 exI [of _ ns] exI [of _ name] exI [of _ ep] exI [of _ "render_input pt ep rendered"])
          (auto simp: role_config_def endpoint_key_def)
    qed
  qed
qed (use assms(2) in \<open>simp_all add: ServeHTTP_def\<close>)

end

text \<open>C36: over all paths, the server makes at most one call to Bedrock per request, and only for a POST
  to /invoke/namespace/name or /render/namespace/name, with the namespace a single segment (no dots, no
  empty part), that passes every gate of that handler; the credentials are those of the endpoint. Any
  other request, in particular a health check, a redirect or an unknown path, leaves Bedrock and the SDK
  clients alone.\<close>

theorem ServeHTTP_calls_bedrock:
  assumes "proxy_env px calls time_of" "client_wf (hBedrock h)"
    and "ServeHTTP px r h w = (reply, ops, h', w')"
  shows "calls w' = calls w \<and> hBedrock h' = hBedrock h
    \<or> (\<exists>ns name ep input. rqMethod r = ''POST'' \<and> plain_segment ns \<and> name \<noteq> []
        \<and> calls w' = calls w @ [((baseConfig (hBedrock h))\<lparr>cfgRegion := Region (epSpec ep),
             cfgCreds := AssumeRole (cfgCreds (baseConfig (hBedrock h))) (IRSARoleArn (epSpec ep)) ''k8s-ai-operator''\<rparr>,
           ModelId (epSpec ep), json_request (build_request input))]
        \<and> (rqPath r = ''/invoke/'' @ ns @ ''/'' @ name
             \<and> (\<exists>req. admits px r h w ns name req ep \<and> input = invoke_input req ep)
           \<or> rqPath r = ''/render/'' @ ns @ ''/'' @ name
             \<and> (\<exists>pt rendered. renders px r w ns pt rendered ep \<and> input = render_input pt ep rendered)))"
  by (rule proxy_env.served_cases [OF assms])

lemma haiku_route: "mux_route ''POST'' ''/invoke/team-a/haiku'' = Found InvokeRoute"
  by code_simp

theorem ServeHTTP_calls_bedrock_witness:
  "\<exists>reply ops h' w' call. ServeHTTP haiku_proxy (post ''/invoke/team-a/haiku'' (JObj [(''maxTokens'', JInt 9999)]))
      (NewHandler sample_client) (haiku_world None) = (reply, ops, h', w')
    \<and> sent w' = [call] \<and> fst (snd call) = ''amazon.nova-lite-v1:0''"
proof -
  let ?r = "post ''/invoke/team-a/haiku'' (JObj [(''maxTokens'', JInt 9999)])"
  let ?h = "NewHandler sample_client" and ?w = "haiku_world None"
  obtain reply ops h' w' where run: "ServeHTTP haiku_proxy ?r ?h ?w = (reply, ops, h', w')"
    by (metis prod.collapse)
  then have inner: "HandleInvoke haiku_proxy ?r ?h ?w = (reply, ops, h', w')"
    using haiku_route by (simp add: ServeHTTP_def post_def)
  note adm = haiku_admits [of 9999, simplified]
  obtain h2 w2 where h2: "hBedrock h2 = hBedrock ?h" "sent w2 = sent ?w"
    and fwd: "forward_invoke haiku_proxy ''team-a'' ''haiku'' (haiku None) (zero_invoke\<lparr>irMaxTokens := 9999\<rparr>) h2 w2 = (reply, ops, h', w')"
    using proxy_env.HandleInvoke_admitted [OF haiku_env haiku_wf inner adm] by auto
  have "sent w' \<noteq> sent ?w"
    using proxy_env.forward_step [OF haiku_env _ fwd] haiku_wf h2 by auto
  with ServeHTTP_calls_bedrock [OF haiku_env haiku_wf run]
  obtain ns name ep call where out: "sent w' = sent ?w @ [call]" "fst (snd call) = ModelId (epSpec ep)"
    and "rqPath ?r = ''/render/'' @ ns @ ''/'' @ name \<or> (\<exists>req. admits haiku_proxy ?r ?h ?w ns name req ep)"
    by fastforce
  then have "ep = haiku None" using admits_unique [OF adm] by (auto simp: post_def)
  with out have "sent w' = [call]" "fst (snd call) = ''amazon.nova-lite-v1:0''" by (simp_all add: haiku_world_def)
  then show ?thesis using run by blast
qed

subsection \<open>Start and shutdown\<close>

text \<open>
  The goroutine that runs ListenAndServe, the error channel of capacity one, and the select of Start.
  ListenAndServe returns with an error of the listener, or with ErrServerClosed once Shutdown has been
  called; Shutdown returns nil, or an error when its ten seconds pass first.
\<close>

datatype serve_state = Serving | Failing go_error | Exited

datatype start_state = Selecting | ShuttingDown | Returned "go_error option"

record lifecycle =
  serve :: serve_state
  errCh :: "go_error list"
  cancelled :: bool
  closed :: bool
  starter :: start_state

definition started :: lifecycle where
  "started = \<lparr>serve = Serving, errCh = [], cancelled = False, closed = False, starter = Selecting\<rparr>"

datatype event = ListenerFails go_error | ContextDone | Internal

inductive start_step :: "lifecycle \<Rightarrow> event \<Rightarrow> lifecycle \<Rightarrow> bool" where
  fails: "serve s = Serving \<Longrightarrow> \<not> closed s \<Longrightarrow> start_step s (ListenerFails e) (s\<lparr>serve := Failing e\<rparr>)"
| cancel: "\<not> cancelled s \<Longrightarrow> start_step s ContextDone (s\<lparr>cancelled := True\<rparr>)"
| send: "serve s = Failing e \<Longrightarrow> length (errCh s) < 1 \<Longrightarrow>
    start_step s Internal (s\<lparr>serve := Exited, errCh := errCh s @ [Wrapf ''proxy server'' e]\<rparr>)"
| server_closed: "serve s = Serving \<Longrightarrow> closed s \<Longrightarrow> start_step s Internal (s\<lparr>serve := Exited\<rparr>)"
| receive: "starter s = Selecting \<Longrightarrow> errCh s = e # es \<Longrightarrow>
    start_step s Internal (s\<lparr>errCh := es, starter := Returned (Some e)\<rparr>)"
| shut_down: "starter s = Selecting \<Longrightarrow> cancelled s \<Longrightarrow>
    start_step s Internal (s\<lparr>closed := True, starter := ShuttingDown\<rparr>)"
| clean_exit: "starter s = ShuttingDown \<Longrightarrow> start_step s Internal (s\<lparr>starter := Returned None\<rparr>)"
| timed_out: "starter s = ShuttingDown \<Longrightarrow>
    start_step s Internal (s\<lparr>starter := Returned (Some (Wrapf ''proxy server shutdown'' e))\<rparr>)"

inductive_cases start_stepE: "start_step s ev t"

text \<open>The states that Start can be in, with the events so far.\<close>

inductive reached :: "event list \<Rightarrow> lifecycle \<Rightarrow> bool" where
  start: "reached [] started"
| step: "reached evs s \<Longrightarrow> start_step s ev t \<Longrightarrow> reached (evs @ [ev]) t"

fun serve_rank :: "serve_state \<Rightarrow> nat" where
  "serve_rank Serving = 4" | "serve_rank (Failing e) = 3" | "serve_rank Exited = 0"

fun start_rank :: "start_state \<Rightarrow> nat" where
  "start_rank Selecting = 2" | "start_rank ShuttingDown = 1" | "start_rank (Returned e) = 0"

definition lifecycle_rank :: "lifecycle \<Rightarrow> nat" where
  "lifecycle_rank s = serve_rank (serve s) + length (errCh s) + (if cancelled s then 0 else 1) + start_rank (starter s)"

lemma step_rank: "start_step s ev t \<Longrightarrow> lifecycle_rank t < lifecycle_rank s"
  by (erule start_stepE) (auto simp: lifecycle_rank_def)

definition lifecycle_ok :: "event list \<Rightarrow> lifecycle \<Rightarrow> bool" where
  "lifecycle_ok evs s \<longleftrightarrow> (cancelled s \<longleftrightarrow> ContextDone \<in> set evs) \<and> (closed s \<longrightarrow> cancelled s)
     \<and> (\<forall>c. serve s = Failing c \<longrightarrow> ListenerFails c \<in> set evs)
     \<and> (errCh s \<noteq> [] \<longrightarrow> serve s = Exited)
     \<and> (\<forall>e \<in> set (errCh s). \<exists>c. e = Wrapf ''proxy server'' c \<and> ListenerFails c \<in> set evs)
     \<and> (serve s = Exited \<longrightarrow> closed s \<or> errCh s \<noteq> [] \<or> starter s \<noteq> Selecting)
     \<and> (case starter s of
          Selecting \<Rightarrow> \<not> closed s
        | ShuttingDown \<Rightarrow> closed s
        | Returned None \<Rightarrow> closed s
        | Returned (Some e) \<Rightarrow> (\<exists>c. e = Wrapf ''proxy server'' c \<and> ListenerFails c \<in> set evs)
            \<or> (closed s \<and> (\<exists>c. e = Wrapf ''proxy server shutdown'' c)))"

lemma step_ok: "start_step s ev t \<Longrightarrow> lifecycle_ok evs s \<Longrightarrow> lifecycle_ok (evs @ [ev]) t"
  by (erule start_stepE) (auto simp: lifecycle_ok_def split: start_state.splits option.splits)

lemma reached_ok: "reached evs s \<Longrightarrow> lifecycle_ok evs s \<and> length evs + lifecycle_rank s \<le> 7"
proof (induction rule: reached.induct)
  case start
  then show ?case by (simp add: lifecycle_ok_def started_def lifecycle_rank_def)
next
  case (step evs s ev t)
  then show ?case using step_ok step_rank by fastforce
qed

text \<open>The program itself is never stuck once its context or its listener has ended.\<close>

lemma send_enabled: "lifecycle_ok evs s \<Longrightarrow> serve s = Failing e \<Longrightarrow> \<exists>t. start_step s Internal t \<and> serve t = Exited"
  using start_step.send [of s e] by (auto simp: lifecycle_ok_def)

lemma start_enabled:
  assumes ok: "lifecycle_ok evs s" and ended: "cancelled s \<or> serve s \<noteq> Serving"
  shows "(\<exists>r. starter s = Returned r) \<or> (\<exists>t. start_step s Internal t)"
proof (cases "starter s")
  case ShuttingDown
  then show ?thesis using start_step.clean_exit by blast
next
  case Selecting
  show ?thesis
  proof (cases "serve s")
    case Serving
    then show ?thesis using ended start_step.shut_down [OF Selecting] by blast
  next
    case (Failing e)
    then show ?thesis using send_enabled [OF ok] by blast
  next
    case Exited
    then have "errCh s \<noteq> []" using ok Selecting by (auto simp: lifecycle_ok_def)
    then show ?thesis using start_step.receive [OF Selecting] by (cases "errCh s") blast+
  qed
qed simp

text \<open>C37: the proxy stops as it should. Start returns after at most seven events in all, in every order
  of events, and when the context or the listener has ended and Start has not returned, some step of the
  program can be taken, so that neither the select nor the serving goroutine (whose channel always has
  room) is ever stuck. Start returns nil only after it has shut the server down on the context's end, an
  error of the listener only if there was that error, and an error of the shutdown only after the
  context's end.\<close>

theorem Start_lifecycle:
  assumes "reached evs s"
  shows "length evs \<le> 7
    \<and> (starter s = Returned None \<longrightarrow> ContextDone \<in> set evs \<and> closed s)
    \<and> (\<forall>e. starter s = Returned (Some e) \<longrightarrow>
         (\<exists>c. e = Wrapf ''proxy server'' c \<and> ListenerFails c \<in> set evs)
         \<or> ContextDone \<in> set evs \<and> closed s \<and> (\<exists>c. e = Wrapf ''proxy server shutdown'' c))
    \<and> (\<forall>e. serve s = Failing e \<longrightarrow> (\<exists>t. start_step s Internal t \<and> serve t = Exited))
    \<and> (cancelled s \<or> serve s \<noteq> Serving \<longrightarrow> (\<exists>r. starter s = Returned r) \<or> (\<exists>t. start_step s Internal t))"
proof -
  have ok: "lifecycle_ok evs s" and "length evs \<le> 7" using reached_ok [OF assms] by simp_all
  then show ?thesis using send_enabled [OF ok] start_enabled [OF ok]
    by (cases "starter s") (auto simp: lifecycle_ok_def split: option.splits)
qed

theorem Start_lifecycle_witness:
  "reached [ContextDone, Internal, Internal] (started\<lparr>cancelled := True, closed := True, starter := Returned None\<rparr>)
   \<and> (\<forall>evs s. \<not> (reached evs s \<and> starter s = Returned None \<and> ContextDone \<notin> set evs))"
proof -
  let ?a = "started\<lparr>cancelled := True\<rparr>"
  let ?b = "?a\<lparr>closed := True, starter := ShuttingDown\<rparr>"
  let ?c = "?b\<lparr>starter := Returned None\<rparr>"
  have a: "reached ([] @ [ContextDone]) ?a"
    by (rule reached.step [OF reached.start start_step.cancel]) (simp add: started_def)
  have b: "reached (([] @ [ContextDone]) @ [Internal]) ?b"
    by (rule reached.step [OF a start_step.shut_down]) (simp_all add: started_def)
  have c: "reached ((([] @ [ContextDone]) @ [Internal]) @ [Internal]) ?c"
    by (rule reached.step [OF b start_step.clean_exit]) simp
  then show ?thesis using Start_lifecycle by fastforce
qed

end
