(* ===== verification/Heap_Copy.thy ===== *)
theory Heap_Copy
  imports Main
begin

section \<open>Copying through a heap\<close>

text \<open>
  Go values that contain pointers and slices, for the generated deep copies: a heap maps locations to
  cells, a pointer is a location or nil, and a slice is nil or the location of its array (every array
  here is owned by one slice from its first to its last element). A type comes with the value that its
  representation denotes in a heap, if all its pointers lead to cells of the right kind, and with its
  copy function; the locale \<open>deep\<close> is the contract between the two, and the lemmas show that it passes
  from the parts of a type to the whole.
\<close>

type_synonym loc = nat

record 'c heap =
  cells :: "loc \<rightharpoonup> 'c"
  nextLoc :: loc

definition heap_ok :: "'c heap \<Rightarrow> bool" where
  "heap_ok h \<longleftrightarrow> dom (cells h) \<subseteq> {..<nextLoc h}"

definition alloc :: "'c \<Rightarrow> 'c heap \<Rightarrow> loc \<times> 'c heap" where
  "alloc c h = (nextLoc h, h\<lparr>cells := (cells h)(nextLoc h \<mapsto> c), nextLoc := Suc (nextLoc h)\<rparr>)"

definition write_cell :: "loc \<Rightarrow> 'c \<Rightarrow> 'c heap \<Rightarrow> 'c heap" where
  "write_cell l c h = h\<lparr>cells := (cells h)(l \<mapsto> c)\<rparr>"

text \<open>The second heap is the first and a set of new cells.\<close>

definition grown :: "'c heap \<Rightarrow> 'c heap \<Rightarrow> (loc \<rightharpoonup> 'c) \<Rightarrow> bool" where
  "grown h h' n \<longleftrightarrow> heap_ok h' \<and> nextLoc h \<le> nextLoc h' \<and> dom n \<subseteq> {nextLoc h..<nextLoc h'} \<and> cells h' = cells h ++ n"

lemma grown_refl: "heap_ok h \<Longrightarrow> grown h h Map.empty"
  by (simp add: grown_def)

lemma grown_old: "heap_ok h \<Longrightarrow> grown h h' n \<Longrightarrow> cells h \<subseteq>\<^sub>m cells h'"
  by (fastforce simp: grown_def heap_ok_def map_le_def map_add_def split: option.split)

lemma grown_fresh: "heap_ok h \<Longrightarrow> grown h h' n \<Longrightarrow> dom n \<inter> dom (cells h) = {}"
  by (fastforce simp: grown_def heap_ok_def)

lemma grown_trans:
  assumes "grown h h1 n1" "grown h1 h2 n2"
  shows "grown h h2 (n1 ++ n2)" "n1 \<subseteq>\<^sub>m n1 ++ n2" "n2 \<subseteq>\<^sub>m n1 ++ n2"
proof -
  have "dom n1 \<inter> dom n2 = {}" using assms by (fastforce simp: grown_def)
  then show "n1 \<subseteq>\<^sub>m n1 ++ n2" by (metis map_add_comm map_le_map_add)
  show "n2 \<subseteq>\<^sub>m n1 ++ n2" by simp
  show "grown h h2 (n1 ++ n2)" using assms by (force simp: grown_def)
qed

locale deep =
  fixes val :: "(loc \<rightharpoonup> 'c) \<Rightarrow> 'r \<Rightarrow> 'v option" and copy :: "'r \<Rightarrow> 'c heap \<Rightarrow> 'r \<times> 'c heap"
  assumes mono: "m \<subseteq>\<^sub>m m' \<Longrightarrow> val m r = Some v \<Longrightarrow> val m' r = Some v"
    and copies: "heap_ok h \<Longrightarrow> val (cells h) r = Some v \<Longrightarrow> copy r h = (r', h') \<Longrightarrow>
      \<exists>n. grown h h' n \<and> val n r' = Some v"
begin

text \<open>The copy denotes the same value and shares no cell with the original.\<close>

lemma isolated:
  assumes "heap_ok h" "val (cells h) r = Some v" "copy r h = (r', h')"
  shows "val (cells h') r' = Some v"
    "(\<And>l. l \<notin> dom (cells h) \<Longrightarrow> m l = cells h' l) \<Longrightarrow> val m r' = Some v"
    "(\<And>l. l \<in> dom (cells h) \<Longrightarrow> m l = cells h l) \<Longrightarrow> val m r = Some v"
proof -
  obtain n where n: "grown h h' n" "val n r' = Some v" using copies [OF assms] by blast
  then show "val (cells h') r' = Some v"
    using mono [of n "cells h'"] by (simp add: grown_def)
  show "val m r' = Some v" if same: "\<And>l. l \<notin> dom (cells h) \<Longrightarrow> m l = cells h' l"
  proof (rule mono [OF _ n(2)])
    show "n \<subseteq>\<^sub>m m"
      using grown_fresh [OF assms(1) n(1)] n(1) same by (fastforce simp: map_le_def grown_def map_add_def dom_def)
  qed
  show "val m r = Some v" if "\<And>l. l \<in> dom (cells h) \<Longrightarrow> m l = cells h l"
    by (rule mono [OF _ assms(2)]) (use that in \<open>auto simp: map_le_def\<close>)
qed

end

subsection \<open>Plain values\<close>

text \<open>\<open>*out = *in\<close> for a type without pointers.\<close>

definition val_plain :: "(loc \<rightharpoonup> 'c) \<Rightarrow> 'a \<Rightarrow> 'a option" where
  "val_plain m x = Some x"

definition copy_plain :: "'a \<Rightarrow> 'c heap \<Rightarrow> 'a \<times> 'c heap" where
  "copy_plain x h = (x, h)"

lemma deep_plain: "deep val_plain copy_plain"
  by unfold_locales (auto simp: val_plain_def copy_plain_def intro: grown_refl)

subsection \<open>Pointers\<close>

text \<open>
  \<open>if in.X != nil { ... *out = new(T); (*in).DeepCopyInto(*out) }\<close>: a new cell, which holds the shallow
  copy first and the deep one in the end. A pointer that leads nowhere has no value and stays nil.
\<close>

definition val_ptr :: "('c \<Rightarrow> 'a option) \<Rightarrow> ((loc \<rightharpoonup> 'c) \<Rightarrow> 'a \<Rightarrow> 'v option) \<Rightarrow> (loc \<rightharpoonup> 'c) \<Rightarrow> loc option \<Rightarrow> 'v option option" where
  "val_ptr dest val m p =
     (case p of
        None \<Rightarrow> Some None
      | Some l \<Rightarrow> (case Option.bind (m l) dest of None \<Rightarrow> None | Some x \<Rightarrow> map_option Some (val m x)))"

definition copy_ptr :: "('a \<Rightarrow> 'c) \<Rightarrow> ('c \<Rightarrow> 'a option) \<Rightarrow> ('a \<Rightarrow> 'c heap \<Rightarrow> 'a \<times> 'c heap)
    \<Rightarrow> loc option \<Rightarrow> 'c heap \<Rightarrow> loc option \<times> 'c heap" where
  "copy_ptr mk dest copy p h =
     (case p of
        None \<Rightarrow> (None, h)
      | Some l \<Rightarrow>
          (case Option.bind (cells h l) dest of
             None \<Rightarrow> (None, h)
           | Some x \<Rightarrow>
               let (l', h1) = alloc (mk x) h; (x', h2) = copy x h1
               in (Some l', write_cell l' (mk x') h2)))"

lemma alloc_grown: "heap_ok h \<Longrightarrow> alloc c h = (l, h') \<Longrightarrow> grown h h' [l \<mapsto> c] \<and> l = nextLoc h \<and> nextLoc h' = Suc l"
  by (fastforce simp: alloc_def grown_def heap_ok_def dom_def split: if_splits)

lemma val_ptr_Some:
  "val_ptr dest val m (Some l) = Some v \<longleftrightarrow>
     (\<exists>c x u. m l = Some c \<and> dest c = Some x \<and> val m x = Some u \<and> v = Some u)"
  by (cases "m l") (auto simp: val_ptr_def split: option.split)

lemma deep_ptr:
  assumes "deep val copy" and dest: "\<And>x. dest (mk x) = Some x"
  shows "deep (val_ptr dest val) (copy_ptr mk dest copy)"
proof
  fix m m' :: "loc \<rightharpoonup> 'a" and p v
  assume le: "m \<subseteq>\<^sub>m m'" and v: "val_ptr dest val m p = Some v"
  show "val_ptr dest val m' p = Some v"
  proof (cases p)
    case None
    then show ?thesis using v by (simp add: val_ptr_def)
  next
    case (Some l)
    then obtain c x u where "m l = Some c" "dest c = Some x" "val m x = Some u" "v = Some u"
      using v by (auto simp: val_ptr_Some)
    moreover from this have "m' l = Some c" using le by (metis domI map_le_def)
    ultimately show ?thesis using Some deep.mono [OF assms(1) le] by (simp add: val_ptr_def)
  qed
next
  fix h :: "'a heap" and p v r' h'
  assume ok: "heap_ok h" and v: "val_ptr dest val (cells h) p = Some v" and run: "copy_ptr mk dest copy p h = (r', h')"
  show "\<exists>n. grown h h' n \<and> val_ptr dest val n r' = Some v"
  proof (cases p)
    case None
    then show ?thesis using v run grown_refl [OF ok] by (auto simp: val_ptr_def copy_ptr_def)
  next
    case (Some l)
    then obtain c x u where x: "cells h l = Some c" "dest c = Some x" "val (cells h) x = Some u" "v = Some u"
      using v by (auto simp: val_ptr_Some)
    obtain l' h1 where a: "alloc (mk x) h = (l', h1)" by fastforce
    obtain x' h2 where c: "copy x h1 = (x', h2)" by fastforce
    have r': "r' = Some l'" "h' = write_cell l' (mk x') h2"
      using run Some x a c by (simp_all add: copy_ptr_def)
    note g1 = alloc_grown [OF ok a]
    then have "grown h h1 [l' \<mapsto> mk x]" by blast
    then have "heap_ok h1" "val (cells h1) x = Some u"
      by (simp add: grown_def) (rule deep.mono [OF assms(1) grown_old [OF ok] x(3)], fact)
    then obtain n where n: "grown h1 h2 n" "val n x' = Some u"
      using deep.copies [OF assms(1)] c by blast
    have new: "l' \<notin> dom n" using n(1) g1 by (fastforce simp: grown_def)
    have le: "n \<subseteq>\<^sub>m n(l' \<mapsto> mk x')" using new by (auto simp: map_le_def)
    have "cells h2 = cells h ++ [l' \<mapsto> mk x] ++ n" using g1 n(1) by (simp add: grown_def)
    then have "cells h' = cells h ++ n(l' \<mapsto> mk x')"
      using new unfolding r' write_cell_def by (auto simp: fun_eq_iff map_add_def domIff split: option.split)
    moreover have "nextLoc h \<le> nextLoc h'" "dom (n(l' \<mapsto> mk x')) \<subseteq> {nextLoc h..<nextLoc h'}"
      using n(1) g1 unfolding r' write_cell_def by (auto simp: grown_def)
    moreover have "heap_ok h'"
    proof -
      have "heap_ok h2" "l' < nextLoc h2" using n(1) g1 by (auto simp: grown_def)
      then show ?thesis unfolding r' write_cell_def heap_ok_def by simp
    qed
    ultimately have "grown h h' (n(l' \<mapsto> mk x'))" by (simp add: grown_def)
    moreover have "val_ptr dest val (n(l' \<mapsto> mk x')) r' = Some v"
      unfolding r' val_ptr_Some using deep.mono [OF assms(1) le n(2)] x(4) dest
      by (intro exI [of _ "mk x'"] exI [of _ x'] exI [of _ u]) (simp del: fun_upd_apply, simp)
    ultimately show ?thesis by blast
  qed
qed

subsection \<open>Fields and elements in sequence\<close>

definition val_both :: "((loc \<rightharpoonup> 'c) \<Rightarrow> 'a \<Rightarrow> 'v option) \<Rightarrow> ((loc \<rightharpoonup> 'c) \<Rightarrow> 'b \<Rightarrow> 'w option) \<Rightarrow> (loc \<rightharpoonup> 'c) \<Rightarrow> 'a \<times> 'b \<Rightarrow> ('v \<times> 'w) option" where
  "val_both v1 v2 m p = (case (v1 m (fst p), v2 m (snd p)) of (Some x, Some y) \<Rightarrow> Some (x, y) | _ \<Rightarrow> None)"

definition copy_both :: "('a \<Rightarrow> 'c heap \<Rightarrow> 'a \<times> 'c heap) \<Rightarrow> ('b \<Rightarrow> 'c heap \<Rightarrow> 'b \<times> 'c heap) \<Rightarrow> 'a \<times> 'b \<Rightarrow> 'c heap \<Rightarrow> ('a \<times> 'b) \<times> 'c heap" where
  "copy_both c1 c2 p h = (let (a, h1) = c1 (fst p) h; (b, h2) = c2 (snd p) h1 in ((a, b), h2))"

lemma deep_both:
  assumes "deep v1 c1" "deep v2 c2"
  shows "deep (val_both v1 v2) (copy_both c1 c2)"
proof
  show "m \<subseteq>\<^sub>m m' \<Longrightarrow> val_both v1 v2 m r = Some v \<Longrightarrow> val_both v1 v2 m' r = Some v" for m m' r v
    using deep.mono [OF assms(1)] deep.mono [OF assms(2)] by (fastforce simp: val_both_def split: option.splits)
next
  fix h r v r' h'
  assume ok: "heap_ok h" and v: "val_both v1 v2 (cells h) r = Some v" and run: "copy_both c1 c2 r h = (r', h')"
  obtain x y where xy: "v1 (cells h) (fst r) = Some x" "v2 (cells h) (snd r) = Some y" "v = (x, y)"
    using v by (auto simp: val_both_def split: option.splits)
  obtain a h1 where a: "c1 (fst r) h = (a, h1)" by fastforce
  obtain b h2 where b: "c2 (snd r) h1 = (b, h2)" by fastforce
  have r': "r' = (a, b)" "h' = h2" using run a b by (simp_all add: copy_both_def)
  obtain n1 where n1: "grown h h1 n1" "v1 n1 a = Some x" using deep.copies [OF assms(1) ok xy(1) a] by blast
  have "v2 (cells h1) (snd r) = Some y" by (rule deep.mono [OF assms(2) grown_old [OF ok n1(1)] xy(2)])
  then obtain n2 where n2: "grown h1 h2 n2" "v2 n2 b = Some y"
    using deep.copies [OF assms(2) _ _ b] n1(1) by (auto simp: grown_def)
  note t = grown_trans [OF n1(1) n2(1)]
  have "v1 (n1 ++ n2) a = Some x" "v2 (n1 ++ n2) b = Some y"
    by (rule deep.mono [OF assms(1) t(2) n1(2)], rule deep.mono [OF assms(2) t(3) n2(2)])
  then show "\<exists>n. grown h h' n \<and> val_both v1 v2 n r' = Some v"
    using t(1) unfolding r' xy(3) by (intro exI [of _ "n1 ++ n2"]) (simp add: val_both_def)
qed

fun val_each :: "((loc \<rightharpoonup> 'c) \<Rightarrow> 'a \<Rightarrow> 'v option) \<Rightarrow> (loc \<rightharpoonup> 'c) \<Rightarrow> 'a list \<Rightarrow> 'v list option" where
  "val_each val m [] = Some []"
| "val_each val m (x # xs) = (case (val m x, val_each val m xs) of (Some v, Some vs) \<Rightarrow> Some (v # vs) | _ \<Rightarrow> None)"

text \<open>\<open>for i := range *in { (*in)[i].DeepCopyInto(&(*out)[i]) }\<close>\<close>

fun copy_each :: "('a \<Rightarrow> 'c heap \<Rightarrow> 'a \<times> 'c heap) \<Rightarrow> 'a list \<Rightarrow> 'c heap \<Rightarrow> 'a list \<times> 'c heap" where
  "copy_each copy [] h = ([], h)"
| "copy_each copy (x # xs) h = (let (x', h1) = copy x h; (xs', h2) = copy_each copy xs h1 in (x' # xs', h2))"

text \<open>A type whose copy and value are those of its parts, in the order of the copy.\<close>

lemma deep_record:
  assumes "deep val copy"
    and "\<And>r h. copy' r h = (let (t, h') = copy (parts r) h in (put r t, h'))"
    and "\<And>m r. val' m r = map_option (build r) (val m (parts r))"
    and "\<And>r t. parts (put r t) = t" "\<And>r t x. build (put r t) x = build r x"
  shows "deep val' copy'"
proof
  show "m \<subseteq>\<^sub>m m' \<Longrightarrow> val' m r = Some v \<Longrightarrow> val' m' r = Some v" for m m' r v
    using deep.mono [OF assms(1)] by (fastforce simp: assms(3))
next
  fix h r v r' h'
  assume ok: "heap_ok h" and v: "val' (cells h) r = Some v" and run: "copy' r h = (r', h')"
  obtain x where x: "val (cells h) (parts r) = Some x" "v = build r x" using v by (auto simp: assms(3))
  obtain t where t: "copy (parts r) h = (t, h')" "r' = put r t" using run by (auto simp: assms(2) split: prod.splits)
  then show "\<exists>n. grown h h' n \<and> val' n r' = Some v"
    using deep.copies [OF assms(1) ok x(1) t(1)] by (auto simp: assms(3-5) x(2))
qed

lemma deep_each: "deep val copy \<Longrightarrow> deep (val_each val) (copy_each copy)"
proof -
  assume d: "deep val copy"
  have mono: "m \<subseteq>\<^sub>m m' \<Longrightarrow> val_each val m xs = Some vs \<Longrightarrow> val_each val m' xs = Some vs" for m m' xs vs
    by (induction xs arbitrary: vs) (auto split: option.splits dest: deep.mono [OF d])
  have "heap_ok h \<Longrightarrow> val_each val (cells h) xs = Some vs \<Longrightarrow> copy_each copy xs h = (xs', h') \<Longrightarrow>
      \<exists>n. grown h h' n \<and> val_each val n xs' = Some vs" for h xs vs xs' h'
  proof (induction xs arbitrary: h vs xs')
    case Nil
    then show ?case using grown_refl by auto
  next
    case (Cons x xs)
    obtain v ws where v: "val (cells h) x = Some v" "val_each val (cells h) xs = Some ws" "vs = v # ws"
      using Cons.prems(2) by (auto split: option.splits)
    obtain y h1 where y: "copy x h = (y, h1)" by fastforce
    obtain ys where ys: "copy_each copy xs h1 = (ys, h')" "xs' = y # ys"
      using Cons.prems(3) y by (auto split: prod.splits)
    obtain n1 where n1: "grown h h1 n1" "val n1 y = Some v" using deep.copies [OF d Cons.prems(1) v(1) y] by blast
    have "val_each val (cells h1) xs = Some ws" by (rule mono [OF grown_old [OF Cons.prems(1) n1(1)] v(2)])
    then obtain n2 where n2: "grown h1 h' n2" "val_each val n2 ys = Some ws"
      using Cons.IH [OF _ _ ys(1)] n1(1) by (auto simp: grown_def)
    note t = grown_trans [OF n1(1) n2(1)]
    have "val (n1 ++ n2) y = Some v" "val_each val (n1 ++ n2) ys = Some ws"
      by (rule deep.mono [OF d t(2) n1(2)], rule mono [OF t(3) n2(2)])
    then show ?case using t(1) unfolding ys(2) v(3) by (intro exI [of _ "n1 ++ n2"]) simp
  qed
  with mono show ?thesis by unfold_locales blast+
qed

end
