(* ===== verification/Deep_Copy.thy ===== *)
theory Deep_Copy
  imports Heap_Copy Api_Types
begin

section \<open>The generated deep copies (api/v1alpha1/zz\_generated.deepcopy.go)\<close>

text \<open>
  The structs of the three resources as they lie in memory (a \<open>raw_\<close> record per struct that contains a
  pointer or a slice; Go strings are immutable values), the value of the theory Api\_Types that such a
  struct denotes in a heap, and one function per DeepCopyInto, DeepCopy and DeepCopyObject of the
  file. TypeMeta holds two strings and is left out, as in Api\_Types. The copies of ObjectMeta, ListMeta
  and Condition belong to apimachinery: they are the record \<open>copy_lib\<close>, of which the locale
  \<open>apimachinery\<close> asks that they are deep copies themselves.
\<close>

subsection \<open>Structs in memory\<close>

record raw_meta =
  raw_Name :: string
  raw_Namespace :: string
  raw_Generation :: int
  raw_DeletionTimestamp :: "loc option"
  raw_Finalizers :: "loc option"

record raw_list_meta =
  raw_ResourceVersion :: string
  raw_Continue :: string
  raw_RemainingItemCount :: "loc option"

record raw_ep_spec =
  raw_ModelId :: string
  raw_Region :: string
  raw_IRSARoleArn :: string
  raw_epMaxTokens :: "loc option"
  raw_CostBudget :: "loc option"
  raw_RateLimit :: "loc option"
  raw_GuardrailPolicyRef :: "loc option"

record raw_ep_status =
  raw_Available :: bool
  raw_epConditions :: "loc option"
  raw_CostThisMonth :: string
  raw_CostToday :: string
  raw_InvocationsToday :: int
  raw_TotalInputTokens :: int
  raw_TotalOutputTokens :: int
  raw_ServiceName :: string
  raw_epObservedGeneration :: int

record raw_pt_spec =
  raw_Template :: string
  raw_Variables :: "loc option"
  raw_ptModelEndpointRef :: ModelEndpointRef
  raw_ptSystemPrompt :: string
  raw_ptMaxTokens :: "loc option"

record raw_pt_status =
  raw_ptConditions :: "loc option"
  raw_RenderCount :: int
  raw_ptObservedGeneration :: int

record raw_topic =
  raw_dtName :: string
  raw_dtDefinition :: string
  raw_dtExamples :: "loc option"

record raw_words =
  raw_Words :: "loc option"
  raw_ManagedWordLists :: "loc option"

record raw_gp_spec =
  raw_gpDescription :: string
  raw_BlockedInputMessage :: string
  raw_BlockedOutputsMessage :: string
  raw_ContentPolicy :: "loc option"
  raw_SensitiveInformationPolicy :: "loc option"
  raw_TopicPolicy :: "loc option"
  raw_WordPolicy :: "loc option"

record raw_gp_status =
  raw_GuardrailId :: string
  raw_GuardrailVersion :: string
  raw_gpConditions :: "loc option"
  raw_gpObservedGeneration :: int

text \<open>An object and a list of objects, whatever their spec and status. Structs with a slice as their
  only field (\<open>raw_filters\<close>, \<open>raw_entities\<close>, \<open>raw_topics\<close>) come last.\<close>

record ('s, 't) raw_object =
  raw_Meta :: raw_meta
  raw_Spec :: 's
  raw_Status :: 't

record raw_list =
  raw_ListMeta :: raw_list_meta
  raw_Items :: "loc option"

record raw_filters = raw_Filters :: "loc option"
record raw_entities = raw_PIIEntities :: "loc option"
record raw_topics = raw_Topics :: "loc option"

type_synonym raw_endpoint = "(raw_ep_spec, raw_ep_status) raw_object"
type_synonym raw_template = "(raw_pt_spec, raw_pt_status) raw_object"
type_synonym raw_policy = "(raw_gp_spec, raw_gp_status) raw_object"

text \<open>The three lists have the same shape: metadata and a slice of their items.\<close>

type_synonym ModelEndpointList = raw_list
type_synonym PromptTemplateList = raw_list
type_synonym GuardrailPolicyList = raw_list

text \<open>What a cell can hold: the target of a pointer, or the array of a slice.\<close>

datatype cell =
    CInt int | CString string | CTime time
  | CBudget BudgetSpec | CRate RateLimitSpec
  | CStrings "string list" | CConditions "Condition list" | CVariables "TemplateVariable list"
  | CFilters "ContentFilter list" | CEntities "PIIEntityConfig list" | CTopics "raw_topic list"
  | CContentPolicy raw_filters | CSensitivePolicy raw_entities | CTopicPolicy raw_topics | CWordPolicy raw_words
  | CEndpoint raw_endpoint | CEndpoints "raw_endpoint list" | CEndpointList ModelEndpointList
  | CTemplate raw_template | CTemplates "raw_template list" | CTemplateList PromptTemplateList
  | CPolicy raw_policy | CPolicies "raw_policy list" | CPolicyList GuardrailPolicyList

definition as_CInt :: "cell \<Rightarrow> int option" where
  "as_CInt c = (case c of CInt x \<Rightarrow> Some x | _ \<Rightarrow> None)"

definition as_CString :: "cell \<Rightarrow> string option" where
  "as_CString c = (case c of CString x \<Rightarrow> Some x | _ \<Rightarrow> None)"

definition as_CTime :: "cell \<Rightarrow> time option" where
  "as_CTime c = (case c of CTime x \<Rightarrow> Some x | _ \<Rightarrow> None)"

definition as_CBudget :: "cell \<Rightarrow> BudgetSpec option" where
  "as_CBudget c = (case c of CBudget x \<Rightarrow> Some x | _ \<Rightarrow> None)"

definition as_CRate :: "cell \<Rightarrow> RateLimitSpec option" where
  "as_CRate c = (case c of CRate x \<Rightarrow> Some x | _ \<Rightarrow> None)"

definition as_CStrings :: "cell \<Rightarrow> string list option" where
  "as_CStrings c = (case c of CStrings x \<Rightarrow> Some x | _ \<Rightarrow> None)"

definition as_CConditions :: "cell \<Rightarrow> Condition list option" where
  "as_CConditions c = (case c of CConditions x \<Rightarrow> Some x | _ \<Rightarrow> None)"

definition as_CVariables :: "cell \<Rightarrow> TemplateVariable list option" where
  "as_CVariables c = (case c of CVariables x \<Rightarrow> Some x | _ \<Rightarrow> None)"

definition as_CFilters :: "cell \<Rightarrow> ContentFilter list option" where
  "as_CFilters c = (case c of CFilters x \<Rightarrow> Some x | _ \<Rightarrow> None)"

definition as_CEntities :: "cell \<Rightarrow> PIIEntityConfig list option" where
  "as_CEntities c = (case c of CEntities x \<Rightarrow> Some x | _ \<Rightarrow> None)"

definition as_CTopics :: "cell \<Rightarrow> raw_topic list option" where
  "as_CTopics c = (case c of CTopics x \<Rightarrow> Some x | _ \<Rightarrow> None)"

definition as_CContentPolicy :: "cell \<Rightarrow> raw_filters option" where
  "as_CContentPolicy c = (case c of CContentPolicy x \<Rightarrow> Some x | _ \<Rightarrow> None)"

definition as_CSensitivePolicy :: "cell \<Rightarrow> raw_entities option" where
  "as_CSensitivePolicy c = (case c of CSensitivePolicy x \<Rightarrow> Some x | _ \<Rightarrow> None)"

definition as_CTopicPolicy :: "cell \<Rightarrow> raw_topics option" where
  "as_CTopicPolicy c = (case c of CTopicPolicy x \<Rightarrow> Some x | _ \<Rightarrow> None)"

definition as_CWordPolicy :: "cell \<Rightarrow> raw_words option" where
  "as_CWordPolicy c = (case c of CWordPolicy x \<Rightarrow> Some x | _ \<Rightarrow> None)"

definition as_CEndpoint :: "cell \<Rightarrow> raw_endpoint option" where
  "as_CEndpoint c = (case c of CEndpoint x \<Rightarrow> Some x | _ \<Rightarrow> None)"

definition as_CEndpoints :: "cell \<Rightarrow> raw_endpoint list option" where
  "as_CEndpoints c = (case c of CEndpoints x \<Rightarrow> Some x | _ \<Rightarrow> None)"

definition as_CEndpointList :: "cell \<Rightarrow> ModelEndpointList option" where
  "as_CEndpointList c = (case c of CEndpointList x \<Rightarrow> Some x | _ \<Rightarrow> None)"

definition as_CTemplate :: "cell \<Rightarrow> raw_template option" where
  "as_CTemplate c = (case c of CTemplate x \<Rightarrow> Some x | _ \<Rightarrow> None)"

definition as_CTemplates :: "cell \<Rightarrow> raw_template list option" where
  "as_CTemplates c = (case c of CTemplates x \<Rightarrow> Some x | _ \<Rightarrow> None)"

definition as_CTemplateList :: "cell \<Rightarrow> PromptTemplateList option" where
  "as_CTemplateList c = (case c of CTemplateList x \<Rightarrow> Some x | _ \<Rightarrow> None)"

definition as_CPolicy :: "cell \<Rightarrow> raw_policy option" where
  "as_CPolicy c = (case c of CPolicy x \<Rightarrow> Some x | _ \<Rightarrow> None)"

definition as_CPolicies :: "cell \<Rightarrow> raw_policy list option" where
  "as_CPolicies c = (case c of CPolicies x \<Rightarrow> Some x | _ \<Rightarrow> None)"

definition as_CPolicyList :: "cell \<Rightarrow> GuardrailPolicyList option" where
  "as_CPolicyList c = (case c of CPolicyList x \<Rightarrow> Some x | _ \<Rightarrow> None)"

lemmas as_defs = as_CInt_def as_CString_def as_CTime_def as_CBudget_def as_CRate_def as_CStrings_def as_CConditions_def as_CVariables_def as_CFilters_def as_CEntities_def as_CTopics_def as_CContentPolicy_def as_CSensitivePolicy_def as_CTopicPolicy_def as_CWordPolicy_def as_CEndpoint_def as_CEndpoints_def as_CEndpointList_def as_CTemplate_def as_CTemplates_def as_CTemplateList_def as_CPolicy_def as_CPolicies_def as_CPolicyList_def

lemma as_simps [simp]:
  "as_CInt (CInt xCInt) = Some xCInt"
  "as_CString (CString xCString) = Some xCString"
  "as_CTime (CTime xCTime) = Some xCTime"
  "as_CBudget (CBudget xCBudget) = Some xCBudget"
  "as_CRate (CRate xCRate) = Some xCRate"
  "as_CStrings (CStrings xCStrings) = Some xCStrings"
  "as_CConditions (CConditions xCConditions) = Some xCConditions"
  "as_CVariables (CVariables xCVariables) = Some xCVariables"
  "as_CFilters (CFilters xCFilters) = Some xCFilters"
  "as_CEntities (CEntities xCEntities) = Some xCEntities"
  "as_CTopics (CTopics xCTopics) = Some xCTopics"
  "as_CContentPolicy (CContentPolicy xCContentPolicy) = Some xCContentPolicy"
  "as_CSensitivePolicy (CSensitivePolicy xCSensitivePolicy) = Some xCSensitivePolicy"
  "as_CTopicPolicy (CTopicPolicy xCTopicPolicy) = Some xCTopicPolicy"
  "as_CWordPolicy (CWordPolicy xCWordPolicy) = Some xCWordPolicy"
  "as_CEndpoint (CEndpoint xCEndpoint) = Some xCEndpoint"
  "as_CEndpoints (CEndpoints xCEndpoints) = Some xCEndpoints"
  "as_CEndpointList (CEndpointList xCEndpointList) = Some xCEndpointList"
  "as_CTemplate (CTemplate xCTemplate) = Some xCTemplate"
  "as_CTemplates (CTemplates xCTemplates) = Some xCTemplates"
  "as_CTemplateList (CTemplateList xCTemplateList) = Some xCTemplateList"
  "as_CPolicy (CPolicy xCPolicy) = Some xCPolicy"
  "as_CPolicies (CPolicies xCPolicies) = Some xCPolicies"
  "as_CPolicyList (CPolicyList xCPolicyList) = Some xCPolicyList"
  by (simp_all add: as_defs)
subsection \<open>What they denote\<close>

text \<open>A nil slice reads as the empty list.\<close>

definition items :: "'a list option \<Rightarrow> 'a list" where
  "items xs = (case xs of None \<Rightarrow> [] | Some xs \<Rightarrow> xs)"

abbreviation val_slice :: "(cell \<Rightarrow> 'a list option) \<Rightarrow> ((loc \<rightharpoonup> cell) \<Rightarrow> 'a \<Rightarrow> 'v option) \<Rightarrow> (loc \<rightharpoonup> cell) \<Rightarrow> loc option \<Rightarrow> 'v list option option" where
  "val_slice dest val \<equiv> val_ptr dest (val_each val)"

definition val_meta :: "(loc \<rightharpoonup> cell) \<Rightarrow> raw_meta \<Rightarrow> ObjectMeta option" where
  "val_meta m r = map_option
     (\<lambda>(deleted, finalizers). \<lparr>Name = raw_Name r, Namespace = raw_Namespace r, Generation = raw_Generation r,
        DeletionTimestamp = deleted, Finalizers = items finalizers\<rparr>)
     (val_both (val_ptr as_CTime val_plain) (val_slice as_CStrings val_plain) m
        (raw_DeletionTimestamp r, raw_Finalizers r))"

record ListMeta =
  ResourceVersion :: string
  Continue :: string
  RemainingItemCount :: "int option"

definition val_list_meta :: "(loc \<rightharpoonup> cell) \<Rightarrow> raw_list_meta \<Rightarrow> ListMeta option" where
  "val_list_meta m r = map_option
     (\<lambda>n. \<lparr>ResourceVersion = raw_ResourceVersion r, Continue = raw_Continue r, RemainingItemCount = n\<rparr>)
     (val_ptr as_CInt val_plain m (raw_RemainingItemCount r))"

definition val_ep_spec :: "(loc \<rightharpoonup> cell) \<Rightarrow> raw_ep_spec \<Rightarrow> ModelEndpointSpec option" where
  "val_ep_spec m r = map_option
     (\<lambda>(mt, cb, rl, g). \<lparr>ModelId = raw_ModelId r, Region = raw_Region r, IRSARoleArn = raw_IRSARoleArn r,
        epMaxTokens = mt, CostBudget = cb, RateLimit = rl, GuardrailPolicyRef = g\<rparr>)
     (val_both (val_ptr as_CInt val_plain) (val_both (val_ptr as_CBudget val_plain)
        (val_both (val_ptr as_CRate val_plain) (val_ptr as_CString val_plain))) m
        (raw_epMaxTokens r, raw_CostBudget r, raw_RateLimit r, raw_GuardrailPolicyRef r))"

definition val_ep_status :: "(loc \<rightharpoonup> cell) \<Rightarrow> raw_ep_status \<Rightarrow> ModelEndpointStatus option" where
  "val_ep_status m r = map_option
     (\<lambda>cs. \<lparr>Available = raw_Available r, epConditions = items cs, CostThisMonth = raw_CostThisMonth r,
        CostToday = raw_CostToday r, InvocationsToday = raw_InvocationsToday r,
        TotalInputTokens = raw_TotalInputTokens r, TotalOutputTokens = raw_TotalOutputTokens r,
        ServiceName = raw_ServiceName r, epObservedGeneration = raw_epObservedGeneration r\<rparr>)
     (val_slice as_CConditions val_plain m (raw_epConditions r))"

definition val_pt_spec :: "(loc \<rightharpoonup> cell) \<Rightarrow> raw_pt_spec \<Rightarrow> PromptTemplateSpec option" where
  "val_pt_spec m r = map_option
     (\<lambda>(vs, mt). \<lparr>Template = raw_Template r, Variables = items vs, ptModelEndpointRef = raw_ptModelEndpointRef r,
        ptSystemPrompt = raw_ptSystemPrompt r, ptMaxTokens = mt\<rparr>)
     (val_both (val_slice as_CVariables val_plain) (val_ptr as_CInt val_plain) m
        (raw_Variables r, raw_ptMaxTokens r))"

definition val_pt_status :: "(loc \<rightharpoonup> cell) \<Rightarrow> raw_pt_status \<Rightarrow> PromptTemplateStatus option" where
  "val_pt_status m r = map_option
     (\<lambda>cs. \<lparr>ptConditions = items cs, RenderCount = raw_RenderCount r, ptObservedGeneration = raw_ptObservedGeneration r\<rparr>)
     (val_slice as_CConditions val_plain m (raw_ptConditions r))"

definition val_filters :: "(loc \<rightharpoonup> cell) \<Rightarrow> raw_filters \<Rightarrow> ContentPolicyConfig option" where
  "val_filters m r = map_option (\<lambda>fs. \<lparr>Filters = items fs\<rparr>) (val_slice as_CFilters val_plain m (raw_Filters r))"

definition val_entities :: "(loc \<rightharpoonup> cell) \<Rightarrow> raw_entities \<Rightarrow> SensitiveInformationPolicyConfig option" where
  "val_entities m r = map_option (\<lambda>es. \<lparr>PIIEntities = items es\<rparr>) (val_slice as_CEntities val_plain m (raw_PIIEntities r))"

definition val_topic :: "(loc \<rightharpoonup> cell) \<Rightarrow> raw_topic \<Rightarrow> DeniedTopic option" where
  "val_topic m r = map_option
     (\<lambda>xs. \<lparr>dtName = raw_dtName r, dtDefinition = raw_dtDefinition r, dtExamples = items xs\<rparr>)
     (val_slice as_CStrings val_plain m (raw_dtExamples r))"

definition val_topics :: "(loc \<rightharpoonup> cell) \<Rightarrow> raw_topics \<Rightarrow> TopicPolicyConfig option" where
  "val_topics m r = map_option (\<lambda>ts. \<lparr>Topics = items ts\<rparr>) (val_slice as_CTopics val_topic m (raw_Topics r))"

definition val_words :: "(loc \<rightharpoonup> cell) \<Rightarrow> raw_words \<Rightarrow> WordPolicyConfig option" where
  "val_words m r = map_option (\<lambda>(ws, ls). \<lparr>Words = items ws, ManagedWordLists = items ls\<rparr>)
     (val_both (val_slice as_CStrings val_plain) (val_slice as_CStrings val_plain) m
        (raw_Words r, raw_ManagedWordLists r))"

definition val_gp_spec :: "(loc \<rightharpoonup> cell) \<Rightarrow> raw_gp_spec \<Rightarrow> GuardrailPolicySpec option" where
  "val_gp_spec m r = map_option
     (\<lambda>(c, s, t, w). \<lparr>gpDescription = raw_gpDescription r, BlockedInputMessage = raw_BlockedInputMessage r,
        BlockedOutputsMessage = raw_BlockedOutputsMessage r, ContentPolicy = c, SensitiveInformationPolicy = s,
        TopicPolicy = t, WordPolicy = w\<rparr>)
     (val_both (val_ptr as_CContentPolicy val_filters) (val_both (val_ptr as_CSensitivePolicy val_entities)
        (val_both (val_ptr as_CTopicPolicy val_topics) (val_ptr as_CWordPolicy val_words))) m
        (raw_ContentPolicy r, raw_SensitiveInformationPolicy r, raw_TopicPolicy r, raw_WordPolicy r))"

definition val_gp_status :: "(loc \<rightharpoonup> cell) \<Rightarrow> raw_gp_status \<Rightarrow> GuardrailPolicyStatus option" where
  "val_gp_status m r = map_option
     (\<lambda>cs. \<lparr>GuardrailId = raw_GuardrailId r, GuardrailVersion = raw_GuardrailVersion r,
        gpConditions = items cs, gpObservedGeneration = raw_gpObservedGeneration r\<rparr>)
     (val_slice as_CConditions val_plain m (raw_gpConditions r))"

text \<open>Objects: the constructor of the resource is a parameter.\<close>

definition val_object :: "(ObjectMeta \<Rightarrow> 'a \<Rightarrow> 'b \<Rightarrow> 'o) \<Rightarrow> ((loc \<rightharpoonup> cell) \<Rightarrow> 's \<Rightarrow> 'a option) \<Rightarrow> ((loc \<rightharpoonup> cell) \<Rightarrow> 't \<Rightarrow> 'b option)
    \<Rightarrow> (loc \<rightharpoonup> cell) \<Rightarrow> ('s, 't) raw_object \<Rightarrow> 'o option" where
  "val_object mk vs vt m r = map_option (\<lambda>(md, s, t). mk md s t)
     (val_both val_meta (val_both vs vt) m (raw_Meta r, raw_Spec r, raw_Status r))"

definition val_endpoint :: "(loc \<rightharpoonup> cell) \<Rightarrow> raw_endpoint \<Rightarrow> ModelEndpoint option" where
  "val_endpoint = val_object (\<lambda>md s t. \<lparr>epMeta = md, epSpec = s, epStatus = t\<rparr>) val_ep_spec val_ep_status"

definition val_template :: "(loc \<rightharpoonup> cell) \<Rightarrow> raw_template \<Rightarrow> PromptTemplate option" where
  "val_template = val_object (\<lambda>md s t. \<lparr>ptMeta = md, ptSpec = s, ptStatus = t\<rparr>) val_pt_spec val_pt_status"

definition val_policy :: "(loc \<rightharpoonup> cell) \<Rightarrow> raw_policy \<Rightarrow> GuardrailPolicy option" where
  "val_policy = val_object (\<lambda>md s t. \<lparr>gpMeta = md, gpSpec = s, gpStatus = t\<rparr>) val_gp_spec val_gp_status"

definition val_list :: "(cell \<Rightarrow> 'r list option) \<Rightarrow> ((loc \<rightharpoonup> cell) \<Rightarrow> 'r \<Rightarrow> 'o option)
    \<Rightarrow> (loc \<rightharpoonup> cell) \<Rightarrow> raw_list \<Rightarrow> (ListMeta \<times> 'o list option) option" where
  "val_list dest val m r = val_both val_list_meta (val_slice dest val) m (raw_ListMeta r, raw_Items r)"

subsection \<open>The copy functions\<close>

record copy_lib =
  libMeta :: "raw_meta \<Rightarrow> cell heap \<Rightarrow> raw_meta \<times> cell heap"
  libListMeta :: "raw_list_meta \<Rightarrow> cell heap \<Rightarrow> raw_list_meta \<times> cell heap"
  libCondition :: "Condition \<Rightarrow> cell heap \<Rightarrow> Condition \<times> cell heap"

text \<open>
  Nil slices stay nil; a slice of plain values is copied as a whole, one of structs element by element.
  The structs of the last six functions of the file hold no pointer.
\<close>

definition copy_array :: "('a list \<Rightarrow> cell) \<Rightarrow> (cell \<Rightarrow> 'a list option) \<Rightarrow> loc option \<Rightarrow> cell heap \<Rightarrow> loc option \<times> cell heap" where
  "copy_array mk dest = copy_ptr mk dest (copy_each copy_plain)"

definition conditions_copy :: "copy_lib \<Rightarrow> loc option \<Rightarrow> cell heap \<Rightarrow> loc option \<times> cell heap" where
  "conditions_copy K = copy_ptr CConditions as_CConditions (copy_each (libCondition K))"

definition BudgetSpec_DeepCopyInto :: "BudgetSpec \<Rightarrow> cell heap \<Rightarrow> BudgetSpec \<times> cell heap" where
  "BudgetSpec_DeepCopyInto = copy_plain"

definition RateLimitSpec_DeepCopyInto :: "RateLimitSpec \<Rightarrow> cell heap \<Rightarrow> RateLimitSpec \<times> cell heap" where
  "RateLimitSpec_DeepCopyInto = copy_plain"

definition ModelEndpointSpec_DeepCopyInto :: "raw_ep_spec \<Rightarrow> cell heap \<Rightarrow> raw_ep_spec \<times> cell heap" where
  "ModelEndpointSpec_DeepCopyInto inp h =
     (let (mt, h) = copy_ptr CInt as_CInt copy_plain (raw_epMaxTokens inp) h;
          (cb, h) = copy_ptr CBudget as_CBudget BudgetSpec_DeepCopyInto (raw_CostBudget inp) h;
          (rl, h) = copy_ptr CRate as_CRate RateLimitSpec_DeepCopyInto (raw_RateLimit inp) h;
          (g, h) = copy_ptr CString as_CString copy_plain (raw_GuardrailPolicyRef inp) h
      in (inp\<lparr>raw_epMaxTokens := mt, raw_CostBudget := cb, raw_RateLimit := rl, raw_GuardrailPolicyRef := g\<rparr>, h))"

definition ModelEndpointStatus_DeepCopyInto :: "copy_lib \<Rightarrow> raw_ep_status \<Rightarrow> cell heap \<Rightarrow> raw_ep_status \<times> cell heap" where
  "ModelEndpointStatus_DeepCopyInto K inp h =
     (let (cs, h) = conditions_copy K (raw_epConditions inp) h in (inp\<lparr>raw_epConditions := cs\<rparr>, h))"

definition PromptTemplateSpec_DeepCopyInto :: "raw_pt_spec \<Rightarrow> cell heap \<Rightarrow> raw_pt_spec \<times> cell heap" where
  "PromptTemplateSpec_DeepCopyInto inp h =
     (let (vs, h) = copy_array CVariables as_CVariables (raw_Variables inp) h;
          (mt, h) = copy_ptr CInt as_CInt copy_plain (raw_ptMaxTokens inp) h
      in (inp\<lparr>raw_Variables := vs, raw_ptMaxTokens := mt\<rparr>, h))"

definition PromptTemplateStatus_DeepCopyInto :: "copy_lib \<Rightarrow> raw_pt_status \<Rightarrow> cell heap \<Rightarrow> raw_pt_status \<times> cell heap" where
  "PromptTemplateStatus_DeepCopyInto K inp h =
     (let (cs, h) = conditions_copy K (raw_ptConditions inp) h in (inp\<lparr>raw_ptConditions := cs\<rparr>, h))"

definition ContentPolicyConfig_DeepCopyInto :: "raw_filters \<Rightarrow> cell heap \<Rightarrow> raw_filters \<times> cell heap" where
  "ContentPolicyConfig_DeepCopyInto inp h =
     (let (fs, h) = copy_array CFilters as_CFilters (raw_Filters inp) h in (inp\<lparr>raw_Filters := fs\<rparr>, h))"

definition SensitiveInformationPolicyConfig_DeepCopyInto :: "raw_entities \<Rightarrow> cell heap \<Rightarrow> raw_entities \<times> cell heap" where
  "SensitiveInformationPolicyConfig_DeepCopyInto inp h =
     (let (es, h) = copy_array CEntities as_CEntities (raw_PIIEntities inp) h in (inp\<lparr>raw_PIIEntities := es\<rparr>, h))"

definition DeniedTopic_DeepCopyInto :: "raw_topic \<Rightarrow> cell heap \<Rightarrow> raw_topic \<times> cell heap" where
  "DeniedTopic_DeepCopyInto inp h =
     (let (xs, h) = copy_array CStrings as_CStrings (raw_dtExamples inp) h in (inp\<lparr>raw_dtExamples := xs\<rparr>, h))"

definition TopicPolicyConfig_DeepCopyInto :: "raw_topics \<Rightarrow> cell heap \<Rightarrow> raw_topics \<times> cell heap" where
  "TopicPolicyConfig_DeepCopyInto inp h =
     (let (ts, h) = copy_ptr CTopics as_CTopics (copy_each DeniedTopic_DeepCopyInto) (raw_Topics inp) h
      in (inp\<lparr>raw_Topics := ts\<rparr>, h))"

definition WordPolicyConfig_DeepCopyInto :: "raw_words \<Rightarrow> cell heap \<Rightarrow> raw_words \<times> cell heap" where
  "WordPolicyConfig_DeepCopyInto inp h =
     (let (ws, h) = copy_array CStrings as_CStrings (raw_Words inp) h;
          (ls, h) = copy_array CStrings as_CStrings (raw_ManagedWordLists inp) h
      in (inp\<lparr>raw_Words := ws, raw_ManagedWordLists := ls\<rparr>, h))"

definition GuardrailPolicySpec_DeepCopyInto :: "raw_gp_spec \<Rightarrow> cell heap \<Rightarrow> raw_gp_spec \<times> cell heap" where
  "GuardrailPolicySpec_DeepCopyInto inp h =
     (let (c, h) = copy_ptr CContentPolicy as_CContentPolicy ContentPolicyConfig_DeepCopyInto (raw_ContentPolicy inp) h;
          (s, h) = copy_ptr CSensitivePolicy as_CSensitivePolicy SensitiveInformationPolicyConfig_DeepCopyInto
                     (raw_SensitiveInformationPolicy inp) h;
          (t, h) = copy_ptr CTopicPolicy as_CTopicPolicy TopicPolicyConfig_DeepCopyInto (raw_TopicPolicy inp) h;
          (w, h) = copy_ptr CWordPolicy as_CWordPolicy WordPolicyConfig_DeepCopyInto (raw_WordPolicy inp) h
      in (inp\<lparr>raw_ContentPolicy := c, raw_SensitiveInformationPolicy := s, raw_TopicPolicy := t, raw_WordPolicy := w\<rparr>, h))"

definition GuardrailPolicyStatus_DeepCopyInto :: "copy_lib \<Rightarrow> raw_gp_status \<Rightarrow> cell heap \<Rightarrow> raw_gp_status \<times> cell heap" where
  "GuardrailPolicyStatus_DeepCopyInto K inp h =
     (let (cs, h) = conditions_copy K (raw_gpConditions inp) h in (inp\<lparr>raw_gpConditions := cs\<rparr>, h))"

definition ModelEndpoint_DeepCopyInto :: "copy_lib \<Rightarrow> raw_endpoint \<Rightarrow> cell heap \<Rightarrow> raw_endpoint \<times> cell heap" where
  "ModelEndpoint_DeepCopyInto K inp h =
     (let (md, h) = libMeta K (raw_Meta inp) h;
          (s, h) = ModelEndpointSpec_DeepCopyInto (raw_Spec inp) h;
          (t, h) = ModelEndpointStatus_DeepCopyInto K (raw_Status inp) h
      in (inp\<lparr>raw_Meta := md, raw_Spec := s, raw_Status := t\<rparr>, h))"

definition PromptTemplate_DeepCopyInto :: "copy_lib \<Rightarrow> raw_template \<Rightarrow> cell heap \<Rightarrow> raw_template \<times> cell heap" where
  "PromptTemplate_DeepCopyInto K inp h =
     (let (md, h) = libMeta K (raw_Meta inp) h;
          (s, h) = PromptTemplateSpec_DeepCopyInto (raw_Spec inp) h;
          (t, h) = PromptTemplateStatus_DeepCopyInto K (raw_Status inp) h
      in (inp\<lparr>raw_Meta := md, raw_Spec := s, raw_Status := t\<rparr>, h))"

definition GuardrailPolicy_DeepCopyInto :: "copy_lib \<Rightarrow> raw_policy \<Rightarrow> cell heap \<Rightarrow> raw_policy \<times> cell heap" where
  "GuardrailPolicy_DeepCopyInto K inp h =
     (let (md, h) = libMeta K (raw_Meta inp) h;
          (s, h) = GuardrailPolicySpec_DeepCopyInto (raw_Spec inp) h;
          (t, h) = GuardrailPolicyStatus_DeepCopyInto K (raw_Status inp) h
      in (inp\<lparr>raw_Meta := md, raw_Spec := s, raw_Status := t\<rparr>, h))"

definition ModelEndpointList_DeepCopyInto :: "copy_lib \<Rightarrow> ModelEndpointList \<Rightarrow> cell heap \<Rightarrow> ModelEndpointList \<times> cell heap" where
  "ModelEndpointList_DeepCopyInto K inp h =
     (let (md, h) = libListMeta K (raw_ListMeta inp) h;
          (xs, h) = copy_ptr CEndpoints as_CEndpoints (copy_each (ModelEndpoint_DeepCopyInto K)) (raw_Items inp) h
      in (inp\<lparr>raw_ListMeta := md, raw_Items := xs\<rparr>, h))"

definition PromptTemplateList_DeepCopyInto :: "copy_lib \<Rightarrow> PromptTemplateList \<Rightarrow> cell heap \<Rightarrow> PromptTemplateList \<times> cell heap" where
  "PromptTemplateList_DeepCopyInto K inp h =
     (let (md, h) = libListMeta K (raw_ListMeta inp) h;
          (xs, h) = copy_ptr CTemplates as_CTemplates (copy_each (PromptTemplate_DeepCopyInto K)) (raw_Items inp) h
      in (inp\<lparr>raw_ListMeta := md, raw_Items := xs\<rparr>, h))"

definition GuardrailPolicyList_DeepCopyInto :: "copy_lib \<Rightarrow> GuardrailPolicyList \<Rightarrow> cell heap \<Rightarrow> GuardrailPolicyList \<times> cell heap" where
  "GuardrailPolicyList_DeepCopyInto K inp h =
     (let (md, h) = libListMeta K (raw_ListMeta inp) h;
          (xs, h) = copy_ptr CPolicies as_CPolicies (copy_each (GuardrailPolicy_DeepCopyInto K)) (raw_Items inp) h
      in (inp\<lparr>raw_ListMeta := md, raw_Items := xs\<rparr>, h))"

text \<open>DeepCopy: nil for nil, else a new struct that DeepCopyInto fills; DeepCopyObject returns the
  same as an interface value, nil again for nil.\<close>

definition ModelEndpoint_DeepCopy :: "copy_lib \<Rightarrow> loc option \<Rightarrow> cell heap \<Rightarrow> loc option \<times> cell heap" where
  "ModelEndpoint_DeepCopy K = copy_ptr CEndpoint as_CEndpoint (ModelEndpoint_DeepCopyInto K)"

definition PromptTemplate_DeepCopy :: "copy_lib \<Rightarrow> loc option \<Rightarrow> cell heap \<Rightarrow> loc option \<times> cell heap" where
  "PromptTemplate_DeepCopy K = copy_ptr CTemplate as_CTemplate (PromptTemplate_DeepCopyInto K)"

definition GuardrailPolicy_DeepCopy :: "copy_lib \<Rightarrow> loc option \<Rightarrow> cell heap \<Rightarrow> loc option \<times> cell heap" where
  "GuardrailPolicy_DeepCopy K = copy_ptr CPolicy as_CPolicy (GuardrailPolicy_DeepCopyInto K)"

definition ModelEndpointList_DeepCopy :: "copy_lib \<Rightarrow> loc option \<Rightarrow> cell heap \<Rightarrow> loc option \<times> cell heap" where
  "ModelEndpointList_DeepCopy K = copy_ptr CEndpointList as_CEndpointList (ModelEndpointList_DeepCopyInto K)"

definition PromptTemplateList_DeepCopy :: "copy_lib \<Rightarrow> loc option \<Rightarrow> cell heap \<Rightarrow> loc option \<times> cell heap" where
  "PromptTemplateList_DeepCopy K = copy_ptr CTemplateList as_CTemplateList (PromptTemplateList_DeepCopyInto K)"

definition GuardrailPolicyList_DeepCopy :: "copy_lib \<Rightarrow> loc option \<Rightarrow> cell heap \<Rightarrow> loc option \<times> cell heap" where
  "GuardrailPolicyList_DeepCopy K = copy_ptr CPolicyList as_CPolicyList (GuardrailPolicyList_DeepCopyInto K)"

definition DeepCopyObject :: "(loc option \<Rightarrow> cell heap \<Rightarrow> loc option \<times> cell heap) \<Rightarrow> loc option \<Rightarrow> cell heap \<Rightarrow> loc option \<times> cell heap" where
  "DeepCopyObject DeepCopy inp h =
     (let (c, h) = DeepCopy inp h in case c of Some l \<Rightarrow> (Some l, h) | None \<Rightarrow> (None, h))"

subsection \<open>All of them are deep\<close>

lemmas deep_plain_array = deep_each [OF deep_plain]

lemmas deep_cell =
  deep_ptr [where mk = CInt and dest = as_CInt, OF _ as_simps(1)]
  deep_ptr [where mk = CString and dest = as_CString, OF _ as_simps(2)]
  deep_ptr [where mk = CTime and dest = as_CTime, OF _ as_simps(3)]
  deep_ptr [where mk = CBudget and dest = as_CBudget, OF _ as_simps(4)]
  deep_ptr [where mk = CRate and dest = as_CRate, OF _ as_simps(5)]
  deep_ptr [where mk = CStrings and dest = as_CStrings, OF _ as_simps(6)]
  deep_ptr [where mk = CConditions and dest = as_CConditions, OF _ as_simps(7)]
  deep_ptr [where mk = CVariables and dest = as_CVariables, OF _ as_simps(8)]
  deep_ptr [where mk = CFilters and dest = as_CFilters, OF _ as_simps(9)]
  deep_ptr [where mk = CEntities and dest = as_CEntities, OF _ as_simps(10)]
  deep_ptr [where mk = CTopics and dest = as_CTopics, OF _ as_simps(11)]
  deep_ptr [where mk = CContentPolicy and dest = as_CContentPolicy, OF _ as_simps(12)]
  deep_ptr [where mk = CSensitivePolicy and dest = as_CSensitivePolicy, OF _ as_simps(13)]
  deep_ptr [where mk = CTopicPolicy and dest = as_CTopicPolicy, OF _ as_simps(14)]
  deep_ptr [where mk = CWordPolicy and dest = as_CWordPolicy, OF _ as_simps(15)]
  deep_ptr [where mk = CEndpoint and dest = as_CEndpoint, OF _ as_simps(16)]
  deep_ptr [where mk = CEndpoints and dest = as_CEndpoints, OF _ as_simps(17)]
  deep_ptr [where mk = CEndpointList and dest = as_CEndpointList, OF _ as_simps(18)]
  deep_ptr [where mk = CTemplate and dest = as_CTemplate, OF _ as_simps(19)]
  deep_ptr [where mk = CTemplates and dest = as_CTemplates, OF _ as_simps(20)]
  deep_ptr [where mk = CTemplateList and dest = as_CTemplateList, OF _ as_simps(21)]
  deep_ptr [where mk = CPolicy and dest = as_CPolicy, OF _ as_simps(22)]
  deep_ptr [where mk = CPolicies and dest = as_CPolicies, OF _ as_simps(23)]
  deep_ptr [where mk = CPolicyList and dest = as_CPolicyList, OF _ as_simps(24)]

lemmas copy_parts = copy_both_def Let_def case_prod_unfold

lemma deep_ep_spec: "deep val_ep_spec ModelEndpointSpec_DeepCopyInto"
  by (rule deep_record [OF deep_both [OF deep_cell(1) [OF deep_plain] deep_both [OF deep_cell(4) [OF deep_plain]
        deep_both [OF deep_cell(5) [OF deep_plain] deep_cell(2) [OF deep_plain]]]],
      where parts = "\<lambda>r. (raw_epMaxTokens r, raw_CostBudget r, raw_RateLimit r, raw_GuardrailPolicyRef r)" and put = "\<lambda>r (mt, cb, rl, g). r\<lparr>raw_epMaxTokens := mt, raw_CostBudget := cb, raw_RateLimit := rl, raw_GuardrailPolicyRef := g\<rparr>"],
    simp add: ModelEndpointSpec_DeepCopyInto_def copy_parts copy_array_def BudgetSpec_DeepCopyInto_def RateLimitSpec_DeepCopyInto_def, unfold val_ep_spec_def, rule refl, simp_all add: case_prod_unfold)

lemma deep_pt_spec: "deep val_pt_spec PromptTemplateSpec_DeepCopyInto"
  by (rule deep_record [OF deep_both [OF deep_cell(8) [OF deep_plain_array] deep_cell(1) [OF deep_plain]],
      where parts = "\<lambda>r. (raw_Variables r, raw_ptMaxTokens r)" and put = "\<lambda>r (vs, mt). r\<lparr>raw_Variables := vs, raw_ptMaxTokens := mt\<rparr>"],
    simp add: PromptTemplateSpec_DeepCopyInto_def copy_parts copy_array_def, unfold val_pt_spec_def, rule refl, simp_all add: case_prod_unfold)

lemma deep_filters: "deep val_filters ContentPolicyConfig_DeepCopyInto"
  by (rule deep_record [OF deep_cell(9) [OF deep_plain_array],
      where parts = "raw_Filters" and put = "\<lambda>r x. r\<lparr>raw_Filters := x\<rparr>"],
    simp add: ContentPolicyConfig_DeepCopyInto_def copy_parts copy_array_def, unfold val_filters_def, rule refl, simp_all add: case_prod_unfold)

lemma deep_entities: "deep val_entities SensitiveInformationPolicyConfig_DeepCopyInto"
  by (rule deep_record [OF deep_cell(10) [OF deep_plain_array],
      where parts = "raw_PIIEntities" and put = "\<lambda>r x. r\<lparr>raw_PIIEntities := x\<rparr>"],
    simp add: SensitiveInformationPolicyConfig_DeepCopyInto_def copy_parts copy_array_def, unfold val_entities_def, rule refl, simp_all add: case_prod_unfold)

lemma deep_topic: "deep val_topic DeniedTopic_DeepCopyInto"
  by (rule deep_record [OF deep_cell(6) [OF deep_plain_array],
      where parts = "raw_dtExamples" and put = "\<lambda>r x. r\<lparr>raw_dtExamples := x\<rparr>"],
    simp add: DeniedTopic_DeepCopyInto_def copy_parts copy_array_def, unfold val_topic_def, rule refl, simp_all add: case_prod_unfold)

lemma deep_topics: "deep val_topics TopicPolicyConfig_DeepCopyInto"
  by (rule deep_record [OF deep_cell(11) [OF deep_each [OF deep_topic]],
      where parts = "raw_Topics" and put = "\<lambda>r x. r\<lparr>raw_Topics := x\<rparr>"],
    simp add: TopicPolicyConfig_DeepCopyInto_def copy_parts copy_array_def, unfold val_topics_def, rule refl, simp_all add: case_prod_unfold)

lemma deep_words: "deep val_words WordPolicyConfig_DeepCopyInto"
  by (rule deep_record [OF deep_both [OF deep_cell(6) [OF deep_plain_array] deep_cell(6) [OF deep_plain_array]],
      where parts = "\<lambda>r. (raw_Words r, raw_ManagedWordLists r)" and put = "\<lambda>r (ws, ls). r\<lparr>raw_Words := ws, raw_ManagedWordLists := ls\<rparr>"],
    simp add: WordPolicyConfig_DeepCopyInto_def copy_parts copy_array_def, unfold val_words_def, rule refl, simp_all add: case_prod_unfold)

lemma deep_gp_spec: "deep val_gp_spec GuardrailPolicySpec_DeepCopyInto"
  by (rule deep_record [OF deep_both [OF deep_cell(12) [OF deep_filters] deep_both [OF deep_cell(13) [OF deep_entities]
        deep_both [OF deep_cell(14) [OF deep_topics] deep_cell(15) [OF deep_words]]]],
      where parts = "\<lambda>r. (raw_ContentPolicy r, raw_SensitiveInformationPolicy r, raw_TopicPolicy r, raw_WordPolicy r)" and put = "\<lambda>r (c, s, t, w). r\<lparr>raw_ContentPolicy := c, raw_SensitiveInformationPolicy := s, raw_TopicPolicy := t, raw_WordPolicy := w\<rparr>"],
    simp add: GuardrailPolicySpec_DeepCopyInto_def copy_parts copy_array_def, unfold val_gp_spec_def, rule refl, simp_all add: case_prod_unfold)

text \<open>The copies that call apimachinery's.\<close>

locale apimachinery =
  fixes K :: copy_lib
  assumes deep_meta: "deep val_meta (libMeta K)"
    and deep_list_meta: "deep val_list_meta (libListMeta K)"
    and deep_condition: "deep val_plain (libCondition K)"
begin

lemma deep_conditions: "deep (val_slice as_CConditions val_plain) (conditions_copy K)"
  unfolding conditions_copy_def by (rule deep_cell(7) [OF deep_each [OF deep_condition]])

lemma deep_ep_status: "deep val_ep_status (ModelEndpointStatus_DeepCopyInto K)"
  by (rule deep_record [OF deep_conditions,
      where parts = "raw_epConditions" and put = "\<lambda>r x. r\<lparr>raw_epConditions := x\<rparr>"],
    simp add: ModelEndpointStatus_DeepCopyInto_def copy_parts copy_array_def, unfold val_ep_status_def, rule refl, simp_all add: case_prod_unfold)

lemma deep_pt_status: "deep val_pt_status (PromptTemplateStatus_DeepCopyInto K)"
  by (rule deep_record [OF deep_conditions,
      where parts = "raw_ptConditions" and put = "\<lambda>r x. r\<lparr>raw_ptConditions := x\<rparr>"],
    simp add: PromptTemplateStatus_DeepCopyInto_def copy_parts copy_array_def, unfold val_pt_status_def, rule refl, simp_all add: case_prod_unfold)

lemma deep_gp_status: "deep val_gp_status (GuardrailPolicyStatus_DeepCopyInto K)"
  by (rule deep_record [OF deep_conditions,
      where parts = "raw_gpConditions" and put = "\<lambda>r x. r\<lparr>raw_gpConditions := x\<rparr>"],
    simp add: GuardrailPolicyStatus_DeepCopyInto_def copy_parts copy_array_def, unfold val_gp_status_def, rule refl, simp_all add: case_prod_unfold)

lemma deep_endpoint: "deep val_endpoint (ModelEndpoint_DeepCopyInto K)"
  by (rule deep_record [OF deep_both [OF deep_meta deep_both [OF deep_ep_spec deep_ep_status]],
      where parts = "\<lambda>r. (raw_Meta r, raw_Spec r, raw_Status r)" and put = "\<lambda>r (md, s, t). r\<lparr>raw_Meta := md, raw_Spec := s, raw_Status := t\<rparr>"],
    simp add: ModelEndpoint_DeepCopyInto_def copy_parts copy_array_def, unfold val_endpoint_def val_object_def, rule refl, simp_all add: case_prod_unfold)

lemma deep_template: "deep val_template (PromptTemplate_DeepCopyInto K)"
  by (rule deep_record [OF deep_both [OF deep_meta deep_both [OF deep_pt_spec deep_pt_status]],
      where parts = "\<lambda>r. (raw_Meta r, raw_Spec r, raw_Status r)" and put = "\<lambda>r (md, s, t). r\<lparr>raw_Meta := md, raw_Spec := s, raw_Status := t\<rparr>"],
    simp add: PromptTemplate_DeepCopyInto_def copy_parts copy_array_def, unfold val_template_def val_object_def, rule refl, simp_all add: case_prod_unfold)

lemma deep_policy: "deep val_policy (GuardrailPolicy_DeepCopyInto K)"
  by (rule deep_record [OF deep_both [OF deep_meta deep_both [OF deep_gp_spec deep_gp_status]],
      where parts = "\<lambda>r. (raw_Meta r, raw_Spec r, raw_Status r)" and put = "\<lambda>r (md, s, t). r\<lparr>raw_Meta := md, raw_Spec := s, raw_Status := t\<rparr>"],
    simp add: GuardrailPolicy_DeepCopyInto_def copy_parts copy_array_def, unfold val_policy_def val_object_def, rule refl, simp_all add: case_prod_unfold)

lemma deep_endpoint_list: "deep (val_list as_CEndpoints val_endpoint) (ModelEndpointList_DeepCopyInto K)"
  by (rule deep_record [OF deep_both [OF deep_list_meta deep_cell(17) [OF deep_each [OF deep_endpoint]]],
      where parts = "\<lambda>r. (raw_ListMeta r, raw_Items r)" and put = "\<lambda>r (md, xs). r\<lparr>raw_ListMeta := md, raw_Items := xs\<rparr>"
        and build = "\<lambda>r x. x"],
    simp add: ModelEndpointList_DeepCopyInto_def copy_parts, simp add: val_list_def option.map_ident, simp_all add: case_prod_unfold)

lemma deep_template_list: "deep (val_list as_CTemplates val_template) (PromptTemplateList_DeepCopyInto K)"
  by (rule deep_record [OF deep_both [OF deep_list_meta deep_cell(20) [OF deep_each [OF deep_template]]],
      where parts = "\<lambda>r. (raw_ListMeta r, raw_Items r)" and put = "\<lambda>r (md, xs). r\<lparr>raw_ListMeta := md, raw_Items := xs\<rparr>"
        and build = "\<lambda>r x. x"],
    simp add: PromptTemplateList_DeepCopyInto_def copy_parts, simp add: val_list_def option.map_ident, simp_all add: case_prod_unfold)

lemma deep_policy_list: "deep (val_list as_CPolicies val_policy) (GuardrailPolicyList_DeepCopyInto K)"
  by (rule deep_record [OF deep_both [OF deep_list_meta deep_cell(23) [OF deep_each [OF deep_policy]]],
      where parts = "\<lambda>r. (raw_ListMeta r, raw_Items r)" and put = "\<lambda>r (md, xs). r\<lparr>raw_ListMeta := md, raw_Items := xs\<rparr>"
        and build = "\<lambda>r x. x"],
    simp add: GuardrailPolicyList_DeepCopyInto_def copy_parts, simp add: val_list_def option.map_ident, simp_all add: case_prod_unfold)

text \<open>The pointers that DeepCopy and DeepCopyObject take and return.\<close>

lemma DeepCopyObject_DeepCopy: "DeepCopyObject f p h = f p h"
  by (simp add: DeepCopyObject_def case_prod_unfold Let_def split: option.split) (metis prod.collapse)

lemma deep_copy_endpoint: "deep (val_ptr as_CEndpoint val_endpoint) (ModelEndpoint_DeepCopy K)"
  unfolding ModelEndpoint_DeepCopy_def by (rule deep_cell(16) [OF deep_endpoint])

lemma deep_copy_endpoint_list: "deep (val_ptr as_CEndpointList (val_list as_CEndpoints val_endpoint)) (ModelEndpointList_DeepCopy K)"
  unfolding ModelEndpointList_DeepCopy_def by (rule deep_cell(18) [OF deep_endpoint_list])

lemma deep_copy_template: "deep (val_ptr as_CTemplate val_template) (PromptTemplate_DeepCopy K)"
  unfolding PromptTemplate_DeepCopy_def by (rule deep_cell(19) [OF deep_template])

lemma deep_copy_template_list: "deep (val_ptr as_CTemplateList (val_list as_CTemplates val_template)) (PromptTemplateList_DeepCopy K)"
  unfolding PromptTemplateList_DeepCopy_def by (rule deep_cell(21) [OF deep_template_list])

lemma deep_copy_policy: "deep (val_ptr as_CPolicy val_policy) (GuardrailPolicy_DeepCopy K)"
  unfolding GuardrailPolicy_DeepCopy_def by (rule deep_cell(22) [OF deep_policy])

lemma deep_copy_policy_list: "deep (val_ptr as_CPolicyList (val_list as_CPolicies val_policy)) (GuardrailPolicyList_DeepCopy K)"
  unfolding GuardrailPolicyList_DeepCopy_def by (rule deep_cell(24) [OF deep_policy_list])

end

text \<open>An apimachinery to run the copies with.\<close>

definition plain_lib :: copy_lib where
  "plain_lib =
     \<lparr>libMeta = (\<lambda>r h. let (d, h) = copy_ptr CTime as_CTime copy_plain (raw_DeletionTimestamp r) h;
                           (f, h) = copy_array CStrings as_CStrings (raw_Finalizers r) h
                       in (r\<lparr>raw_DeletionTimestamp := d, raw_Finalizers := f\<rparr>, h)),
      libListMeta = (\<lambda>r h. let (n, h) = copy_ptr CInt as_CInt copy_plain (raw_RemainingItemCount r) h
                           in (r\<lparr>raw_RemainingItemCount := n\<rparr>, h)),
      libCondition = copy_plain\<rparr>"

interpretation plain: apimachinery plain_lib
proof (rule apimachinery.intro)
  show "deep val_meta (libMeta plain_lib)"
    by (rule deep_record [OF deep_both [OF deep_cell(3) [OF deep_plain] deep_cell(6) [OF deep_plain_array]],
        where parts = "\<lambda>r. (raw_DeletionTimestamp r, raw_Finalizers r)"
          and put = "\<lambda>r (d, f). r\<lparr>raw_DeletionTimestamp := d, raw_Finalizers := f\<rparr>"],
      simp add: plain_lib_def copy_parts copy_array_def, unfold val_meta_def, rule refl, simp_all add: case_prod_unfold)
  show "deep val_list_meta (libListMeta plain_lib)"
    by (rule deep_record [OF deep_cell(1) [OF deep_plain], where parts = raw_RemainingItemCount
          and put = "\<lambda>r n. r\<lparr>raw_RemainingItemCount := n\<rparr>"],
      simp add: plain_lib_def copy_parts, unfold val_list_meta_def, rule refl, simp_all add: case_prod_unfold)
  show "deep val_plain (libCondition plain_lib)" by (simp add: plain_lib_def deep_plain)
qed

text \<open>The contract holds of the copies of the specs as they are, and of the copies of whole objects on the
  instance.\<close>

interpretation endpoint_spec: deep val_ep_spec ModelEndpointSpec_DeepCopyInto by (rule deep_ep_spec)

interpretation template_spec: deep val_pt_spec PromptTemplateSpec_DeepCopyInto by (rule deep_pt_spec)

interpretation policy_spec: deep val_gp_spec GuardrailPolicySpec_DeepCopyInto by (rule deep_gp_spec)

interpretation endpoint: deep "val_ptr as_CEndpoint val_endpoint" "ModelEndpoint_DeepCopy plain_lib"
  by (rule plain.deep_copy_endpoint)

subsection \<open>What the controllers rely on\<close>

text \<open>The object behind q has the value v of the object behind p, and whatever is written to cells of
  one of the two later does not show in the other.\<close>

definition independent :: "((loc \<rightharpoonup> cell) \<Rightarrow> loc option \<Rightarrow> 'v option) \<Rightarrow> cell heap \<Rightarrow> loc option \<Rightarrow> cell heap \<Rightarrow> loc option \<Rightarrow> 'v \<Rightarrow> bool" where
  "independent val h p h' q v \<longleftrightarrow> val (cells h') q = Some v
     \<and> (\<forall>m. (\<forall>l. l \<notin> dom (cells h) \<longrightarrow> m l = cells h' l) \<longrightarrow> val m q = Some v)
     \<and> (\<forall>m. (\<forall>l \<in> dom (cells h). m l = cells h l) \<longrightarrow> val m p = Some v)"

lemma deep_independent:
  assumes "deep val copy" "heap_ok h" "val (cells h) p = Some v"
  shows "case DeepCopyObject copy p h of (q, h') \<Rightarrow> independent val h p h' q v"
  using deep.isolated [OF assms, of "fst (copy p h)" "snd (copy p h)"]
  by (simp add: apimachinery.DeepCopyObject_DeepCopy [OF plain.apimachinery_axioms] independent_def case_prod_unfold)

text \<open>C35: a copy by the generated functions is a copy: for each of the three resources and their lists,
  DeepCopyObject gives an object of the same value (nil for nil), and no later write to any cell of the
  original shows in the copy, nor the other way round. So the base of a status patch keeps the old status
  while the reconciler changes conditions in place.\<close>

theorem DeepCopy_independent:
  assumes "apimachinery K" "heap_ok h"
  shows "(val_ptr as_CEndpoint val_endpoint (cells h) p = Some ep \<longrightarrow>
      (case DeepCopyObject (ModelEndpoint_DeepCopy K) p h of (q, h') \<Rightarrow>
         independent (val_ptr as_CEndpoint val_endpoint) h p h' q ep))
    \<and> (val_ptr as_CTemplate val_template (cells h) p = Some pt \<longrightarrow>
      (case DeepCopyObject (PromptTemplate_DeepCopy K) p h of (q, h') \<Rightarrow>
         independent (val_ptr as_CTemplate val_template) h p h' q pt))
    \<and> (val_ptr as_CPolicy val_policy (cells h) p = Some gp \<longrightarrow>
      (case DeepCopyObject (GuardrailPolicy_DeepCopy K) p h of (q, h') \<Rightarrow>
         independent (val_ptr as_CPolicy val_policy) h p h' q gp))
    \<and> (val_ptr as_CEndpointList (val_list as_CEndpoints val_endpoint) (cells h) p = Some eps \<longrightarrow>
      (case DeepCopyObject (ModelEndpointList_DeepCopy K) p h of (q, h') \<Rightarrow>
         independent (val_ptr as_CEndpointList (val_list as_CEndpoints val_endpoint)) h p h' q eps))
    \<and> (val_ptr as_CTemplateList (val_list as_CTemplates val_template) (cells h) p = Some pts \<longrightarrow>
      (case DeepCopyObject (PromptTemplateList_DeepCopy K) p h of (q, h') \<Rightarrow>
         independent (val_ptr as_CTemplateList (val_list as_CTemplates val_template)) h p h' q pts))
    \<and> (val_ptr as_CPolicyList (val_list as_CPolicies val_policy) (cells h) p = Some gps \<longrightarrow>
      (case DeepCopyObject (GuardrailPolicyList_DeepCopy K) p h of (q, h') \<Rightarrow>
         independent (val_ptr as_CPolicyList (val_list as_CPolicies val_policy)) h p h' q gps))"
  by (intro conjI impI,
      erule deep_independent [OF apimachinery.deep_copy_endpoint [OF assms(1)] assms(2)],
      erule deep_independent [OF apimachinery.deep_copy_template [OF assms(1)] assms(2)],
      erule deep_independent [OF apimachinery.deep_copy_policy [OF assms(1)] assms(2)],
      erule deep_independent [OF apimachinery.deep_copy_endpoint_list [OF assms(1)] assms(2)],
      erule deep_independent [OF apimachinery.deep_copy_template_list [OF assms(1)] assms(2)],
      erule deep_independent [OF apimachinery.deep_copy_policy_list [OF assms(1)] assms(2)])

text \<open>An endpoint at cell 3 whose rate limit, conditions and finalizers are at the cells before it.\<close>

definition demo_heap :: "cell heap" where
  "demo_heap =
     \<lparr>cells = [0 \<mapsto> CRate \<lparr>RequestsPerMinute = 60\<rparr>, 1 \<mapsto> CConditions [], 2 \<mapsto> CStrings [''keep''],
        3 \<mapsto> CEndpoint
          \<lparr>raw_Meta = \<lparr>raw_Name = ''haiku'', raw_Namespace = ''team-a'', raw_Generation = 1,
             raw_DeletionTimestamp = None, raw_Finalizers = Some 2\<rparr>,
           raw_Spec = \<lparr>raw_ModelId = ''amazon.nova-lite-v1:0'', raw_Region = ''eu-west-1'', raw_IRSARoleArn = [],
             raw_epMaxTokens = None, raw_CostBudget = None, raw_RateLimit = Some 0, raw_GuardrailPolicyRef = None\<rparr>,
           raw_Status = \<lparr>raw_Available = True, raw_epConditions = Some 1, raw_CostThisMonth = [], raw_CostToday = [],
             raw_InvocationsToday = 0, raw_TotalInputTokens = 0, raw_TotalOutputTokens = 0, raw_ServiceName = [],
             raw_epObservedGeneration = 1\<rparr>\<rparr>], nextLoc = 4\<rparr>"

lemma demo_heap_ok: "heap_ok demo_heap"
  by (auto simp: heap_ok_def demo_heap_def split: if_splits)

lemma demo_value: "\<exists>ep. val_ptr as_CEndpoint val_endpoint (cells demo_heap) (Some 3) = Some (Some ep)
    \<and> RateLimit (epSpec ep) = Some \<lparr>RequestsPerMinute = 60\<rparr>"
  by (simp add: demo_heap_def val_ptr_def val_endpoint_def val_object_def val_both_def val_meta_def val_ep_spec_def
      val_ep_status_def val_plain_def items_def)

theorem DeepCopy_independent_witness:
  "\<exists>ep q h'. RateLimit (epSpec ep) = Some \<lparr>RequestsPerMinute = 60\<rparr>
    \<and> DeepCopyObject (ModelEndpoint_DeepCopy plain_lib) (Some 3) demo_heap = (q, h')
    \<and> independent (val_ptr as_CEndpoint val_endpoint) demo_heap (Some 3) h' q (Some ep)"
proof -
  obtain ep where ep: "val_ptr as_CEndpoint val_endpoint (cells demo_heap) (Some 3) = Some (Some ep)"
    "RateLimit (epSpec ep) = Some \<lparr>RequestsPerMinute = 60\<rparr>"
    using demo_value by blast
  obtain q h' where run: "DeepCopyObject (ModelEndpoint_DeepCopy plain_lib) (Some 3) demo_heap = (q, h')"
    by fastforce
  have "independent (val_ptr as_CEndpoint val_endpoint) demo_heap (Some 3) h' q (Some ep)"
    using DeepCopy_independent [OF plain.apimachinery_axioms demo_heap_ok] ep(1) run by fastforce
  then show ?thesis using ep(2) run by blast
qed

end
