(* ===== verification/Setup.thy ===== *)
theory Setup
  imports Prelude
begin

section \<open>Scheme, watches and webhook paths\<close>

text \<open>
  What the packages declare before the manager runs: the group version and the types that
  api/v1alpha1 registers in its init functions, the scheme that cmd/manager/main.go builds from them,
  the watches that each SetupWithManager asks for, and the paths of the webhooks. The scheme
  (apimachinery), the builder of controllers and the registration functions of the core types are
  libraries: \<open>scheme_lib\<close> has their operations, the locale \<open>scheme_api\<close> what they promise.
\<close>

subsection \<open>The group version (api/v1alpha1/groupversion\_info.go)\<close>

record group_version =
  gvGroup :: string
  gvVersion :: string

definition GroupVersion :: group_version where
  "GroupVersion = \<lparr>gvGroup = ''ai.kernelpanic09.io'', gvVersion = ''v1alpha1''\<rparr>"

text \<open>A Go type by its package and name; its kind is the name.\<close>

record go_type =
  gtPackage :: string
  gtName :: string

record group_version_kind =
  gkGroupVersion :: group_version
  gkKind :: string

definition api_type :: "string \<Rightarrow> go_type" where
  "api_type name = \<lparr>gtPackage = ''api/v1alpha1'', gtName = name\<rparr>"

definition core_type :: "string \<Rightarrow> go_type" where
  "core_type name = \<lparr>gtPackage = ''k8s.io/api/core/v1'', gtName = name\<rparr>"

record 's scheme_lib =
  slNew :: 's
  slAddKnownTypes :: "group_version \<Rightarrow> go_type list \<Rightarrow> 's \<Rightarrow> go_error + 's"
  slObjectKinds :: "'s \<Rightarrow> go_type \<Rightarrow> group_version_kind list"
  slClientGo :: "'s \<Rightarrow> go_error + 's" \<comment> \<open>AddToScheme of client-go's scheme package\<close>
  slCoreV1 :: "'s \<Rightarrow> go_error + 's" \<comment> \<open>AddToScheme of k8s.io/api/core/v1\<close>

text \<open>The init functions run in the order of their files.\<close>

definition policy_types :: "go_type list" where
  "policy_types = [api_type ''GuardrailPolicy'', api_type ''GuardrailPolicyList'']"

definition endpoint_types :: "go_type list" where
  "endpoint_types = [api_type ''ModelEndpoint'', api_type ''ModelEndpointList'']"

definition template_types :: "go_type list" where
  "template_types = [api_type ''PromptTemplate'', api_type ''PromptTemplateList'']"

definition SchemeBuilder :: "go_type list list" where
  "SchemeBuilder = [policy_types, endpoint_types, template_types]"

definition AddToScheme :: "'s scheme_lib \<Rightarrow> 's \<Rightarrow> go_error + 's" where
  "AddToScheme S sc = foldE (\<lambda>sc ts. slAddKnownTypes S GroupVersion ts sc) sc SchemeBuilder"

text \<open>init of cmd/manager: utilruntime.Must panics with the first error.\<close>

definition init_scheme :: "'s scheme_lib \<Rightarrow> go_error + 's" where
  "init_scheme S =
     (case slClientGo S (slNew S) of
        Inl err \<Rightarrow> Inl err
      | Inr sc \<Rightarrow>
          (case AddToScheme S sc of
             Inl err \<Rightarrow> Inl err
           | Inr sc \<Rightarrow> slCoreV1 S sc))"

subsection \<open>Watches (SetupWithManager of the controllers)\<close>

text \<open>What a controller is built for, and the types whose objects it owns.\<close>

record watches =
  wFor :: go_type
  wOwns :: "go_type list"

definition ModelEndpoint_watches :: watches where
  "ModelEndpoint_watches = \<lparr>wFor = api_type ''ModelEndpoint'', wOwns = [core_type ''Service'']\<rparr>"

definition PromptTemplate_watches :: watches where
  "PromptTemplate_watches = \<lparr>wFor = api_type ''PromptTemplate'', wOwns = []\<rparr>"

definition GuardrailPolicy_watches :: watches where
  "GuardrailPolicy_watches = \<lparr>wFor = api_type ''GuardrailPolicy'', wOwns = []\<rparr>"

subsection \<open>Webhook paths (SetupWithManager of the webhooks)\<close>

datatype hook = ValidatorHook | DefaulterHook

text \<open>The entry in the webhook server; neither registration returns an error.\<close>

definition Validator_SetupWithManager :: "(string \<times> hook) \<times> go_error option" where
  "Validator_SetupWithManager = ((''/validate-ai-kernelpanic09-io-v1alpha1-modelendpoint'', ValidatorHook), None)"

definition Defaulter_SetupWithManager :: "(string \<times> hook) \<times> go_error option" where
  "Defaulter_SetupWithManager = ((''/mutate-ai-kernelpanic09-io-v1alpha1-modelendpoint'', DefaulterHook), None)"

text \<open>The path that kubebuilder derives for the webhook of a kind.\<close>

definition to_lower_ascii :: "char \<Rightarrow> char" where
  "to_lower_ascii c = (if byte_in CHR ''A'' CHR ''Z'' c then char_of ((of_char c :: nat) + 32) else c)"

definition webhook_path :: "string \<Rightarrow> group_version \<Rightarrow> string \<Rightarrow> string" where
  "webhook_path verb gv kind =
     ''/'' @ verb @ ''-'' @ map (\<lambda>c. if c = CHR ''.'' then CHR ''-'' else c) (gvGroup gv) @ ''-'' @ gvVersion gv
       @ ''-'' @ map to_lower_ascii kind"

lemma webhook_paths:
  "fst (fst Validator_SetupWithManager) = webhook_path ''validate'' GroupVersion ''ModelEndpoint''"
  "fst (fst Defaulter_SetupWithManager) = webhook_path ''mutate'' GroupVersion ''ModelEndpoint''"
  by code_simp+

subsection \<open>What a scheme promises\<close>

text \<open>
  AddKnownTypes gives each type the kind of its name and keeps what is there; it panics only when a
  kind of the same group version already stands for another type. The core registrations know Services
  and do not touch the group of this program.
\<close>

locale scheme_api =
  fixes S :: "'s scheme_lib"
  assumes add_known: "slAddKnownTypes S gv ts sc = Inr sc' \<Longrightarrow> slObjectKinds S sc' t =
      (if t \<in> set ts \<and> \<lparr>gkGroupVersion = gv, gkKind = gtName t\<rparr> \<notin> set (slObjectKinds S sc t)
       then slObjectKinds S sc t @ [\<lparr>gkGroupVersion = gv, gkKind = gtName t\<rparr>] else slObjectKinds S sc t)"
    and add_fails: "slAddKnownTypes S gv ts sc = Inl err \<Longrightarrow>
      \<exists>t \<in> set ts. \<exists>t'. t' \<noteq> t \<and> (t' \<in> set ts \<and> gtName t' = gtName t
        \<or> \<lparr>gkGroupVersion = gv, gkKind = gtName t\<rparr> \<in> set (slObjectKinds S sc t'))"
    and new_empty: "slObjectKinds S (slNew S) t = []"
    and client_go: "\<exists>sc'. slClientGo S sc = Inr sc' \<and> (\<forall>name. slObjectKinds S sc' (api_type name) = slObjectKinds S sc (api_type name))
      \<and> (\<forall>t k. k \<in> set (slObjectKinds S sc' t) \<longrightarrow> gkGroupVersion k = GroupVersion \<longrightarrow> k \<in> set (slObjectKinds S sc t))"
    and core_v1: "\<exists>sc'. slCoreV1 S sc = Inr sc' \<and> (\<forall>name. slObjectKinds S sc' (api_type name) = slObjectKinds S sc (api_type name))
      \<and> slObjectKinds S sc' (core_type ''Service'') \<noteq> []"
begin

text \<open>Registering lists of types with different names, none of which is known, succeeds.\<close>

lemma add_types:
  assumes "distinct (map gtName (concat tss))"
    and "\<forall>t k. k \<in> set (slObjectKinds S sc t) \<longrightarrow> gkGroupVersion k = gv \<longrightarrow> gkKind k \<notin> gtName ` set (concat tss)"
  shows "\<exists>sc'. foldE (\<lambda>sc ts. slAddKnownTypes S gv ts sc) sc tss = Inr sc'
    \<and> (\<forall>t. slObjectKinds S sc' t = slObjectKinds S sc t
        @ (if t \<in> set (concat tss) then [\<lparr>gkGroupVersion = gv, gkKind = gtName t\<rparr>] else []))"
  using assms
proof (induction tss arbitrary: sc)
  case (Cons ts tss)
  have dts: "distinct (map gtName ts)" and dis: "gtName ` set ts \<inter> gtName ` set (concat tss) = {}"
    using Cons.prems(1) by auto
  have inj: "t \<in> set ts \<Longrightarrow> t' \<in> set ts \<Longrightarrow> gtName t' = gtName t \<Longrightarrow> t' = t" for t t'
    using dts by (metis distinct_map inj_onD)
  obtain sc1 where sc1: "slAddKnownTypes S gv ts sc = Inr sc1"
  proof (cases "slAddKnownTypes S gv ts sc")
    case (Inl err)
    obtain t t' where t: "t \<in> set ts" "t' \<noteq> t"
      "t' \<in> set ts \<and> gtName t' = gtName t \<or> \<lparr>gkGroupVersion = gv, gkKind = gtName t\<rparr> \<in> set (slObjectKinds S sc t')"
      using add_fails [OF Inl] by blast
    then have "\<lparr>gkGroupVersion = gv, gkKind = gtName t\<rparr> \<in> set (slObjectKinds S sc t')" using inj by blast
    then show ?thesis using Cons.prems(2) t(1) by force
  qed (use that in blast)
  have kinds: "slObjectKinds S sc1 t = slObjectKinds S sc t
      @ (if t \<in> set ts then [\<lparr>gkGroupVersion = gv, gkKind = gtName t\<rparr>] else [])" for t
  proof -
    have "t \<in> set ts \<Longrightarrow> \<lparr>gkGroupVersion = gv, gkKind = gtName t\<rparr> \<notin> set (slObjectKinds S sc t)"
      using Cons.prems(2) by force
    then show ?thesis using add_known [OF sc1, of t] by simp
  qed
  have free: "\<forall>t k. k \<in> set (slObjectKinds S sc1 t) \<longrightarrow> gkGroupVersion k = gv \<longrightarrow> gkKind k \<notin> gtName ` set (concat tss)"
  proof (intro allI impI)
    fix t k
    assume k: "k \<in> set (slObjectKinds S sc1 t)" "gkGroupVersion k = gv"
    show "gkKind k \<notin> gtName ` set (concat tss)"
    proof (cases "k \<in> set (slObjectKinds S sc t)")
      case True
      then show ?thesis using Cons.prems(2) k(2) by (metis UnI2 concat.simps(2) image_Un set_append)
    next
      case False
      then have "gkKind k \<in> gtName ` set ts" using k(1) by (auto simp: kinds split: if_splits)
      then show ?thesis using dis by blast
    qed
  qed
  obtain sc2 where "foldE (\<lambda>sc ts. slAddKnownTypes S gv ts sc) sc1 tss = Inr sc2"
    "\<forall>t. slObjectKinds S sc2 t = slObjectKinds S sc1 t
        @ (if t \<in> set (concat tss) then [\<lparr>gkGroupVersion = gv, gkKind = gtName t\<rparr>] else [])"
    using Cons.IH [OF _ free] Cons.prems(1) by auto
  moreover have "t \<in> set ts \<Longrightarrow> t \<notin> set (concat tss)" for t using dis by blast
  ultimately show ?case using sc1 kinds by (intro exI [of _ sc2]) auto
qed simp

lemma scheme_known:
  "\<exists>sc. init_scheme S = Inr sc
    \<and> (\<forall>t \<in> set (concat SchemeBuilder). slObjectKinds S sc t = [\<lparr>gkGroupVersion = GroupVersion, gkKind = gtName t\<rparr>])
    \<and> slObjectKinds S sc (core_type ''Service'') \<noteq> []"
proof -
  obtain sc1 where sc1: "slClientGo S (slNew S) = Inr sc1" "slObjectKinds S sc1 (api_type name) = []"
    "k \<in> set (slObjectKinds S sc1 t) \<Longrightarrow> gkGroupVersion k \<noteq> GroupVersion" for name t k
    using client_go [of "slNew S"] new_empty by auto
  have "distinct (map gtName (concat SchemeBuilder))"
    by (simp add: SchemeBuilder_def policy_types_def endpoint_types_def template_types_def api_type_def)
  then obtain sc2 where sc2: "AddToScheme S sc1 = Inr sc2"
    "\<And>t. slObjectKinds S sc2 t = slObjectKinds S sc1 t
        @ (if t \<in> set (concat SchemeBuilder) then [\<lparr>gkGroupVersion = GroupVersion, gkKind = gtName t\<rparr>] else [])"
    using add_types [of SchemeBuilder sc1 GroupVersion] sc1(3) unfolding AddToScheme_def by blast
  obtain sc3 where sc3: "slCoreV1 S sc2 = Inr sc3" "slObjectKinds S sc3 (core_type ''Service'') \<noteq> []"
    "slObjectKinds S sc3 (api_type name) = slObjectKinds S sc2 (api_type name)" for name
    using core_v1 [of sc2] by blast
  have "\<forall>t \<in> set (concat SchemeBuilder). slObjectKinds S sc3 t = [\<lparr>gkGroupVersion = GroupVersion, gkKind = gtName t\<rparr>]"
  proof
    fix t assume t: "t \<in> set (concat SchemeBuilder)"
    then obtain name where "t = api_type name"
      by (auto simp: SchemeBuilder_def policy_types_def endpoint_types_def template_types_def)
    then show "slObjectKinds S sc3 t = [\<lparr>gkGroupVersion = GroupVersion, gkKind = gtName t\<rparr>]"
      using sc3(3) sc2(2) [of t] sc1(2) t by simp
  qed
  then show ?thesis using sc1(1) sc2(1) sc3 by (simp add: init_scheme_def)
qed

end

text \<open>A scheme as a list of kinds with their types.\<close>

definition table_add :: "group_version \<Rightarrow> go_type list \<Rightarrow> (group_version_kind \<times> go_type) list
    \<Rightarrow> go_error + (group_version_kind \<times> go_type) list" where
  "table_add gv ts sc =
     foldE (\<lambda>sc t. let k = \<lparr>gkGroupVersion = gv, gkKind = gtName t\<rparr>
        in if \<exists>x \<in> set sc. fst x = k \<and> snd x \<noteq> t then Inl (ErrMsg (''Double registration of different types for '' @ gtName t))
           else if (k, t) \<in> set sc then Inr sc else Inr (sc @ [(k, t)])) sc ts"

definition table_kinds :: "(group_version_kind \<times> go_type) list \<Rightarrow> go_type \<Rightarrow> group_version_kind list" where
  "table_kinds sc t = map fst (filter (\<lambda>x. snd x = t) sc)"

definition core_entry :: "group_version_kind \<times> go_type" where
  "core_entry = (\<lparr>gkGroupVersion = \<lparr>gvGroup = [], gvVersion = ''v1''\<rparr>, gkKind = ''Service''\<rparr>, core_type ''Service'')"

definition table_scheme :: "(group_version_kind \<times> go_type) list scheme_lib" where
  "table_scheme =
     \<lparr>slNew = [], slAddKnownTypes = table_add, slObjectKinds = table_kinds,
      slClientGo = (\<lambda>sc. Inr (sc @ [core_entry])), slCoreV1 = (\<lambda>sc. Inr (sc @ [core_entry]))\<rparr>"

lemma table_add_Inr:
  assumes "table_add gv ts sc = Inr sc'"
  shows "table_kinds sc' t = (if t \<in> set ts \<and> \<lparr>gkGroupVersion = gv, gkKind = gtName t\<rparr> \<notin> set (table_kinds sc t)
    then table_kinds sc t @ [\<lparr>gkGroupVersion = gv, gkKind = gtName t\<rparr>] else table_kinds sc t)"
  using assms
proof (induction ts arbitrary: sc)
  case (Cons u ts)
  let ?k = "\<lparr>gkGroupVersion = gv, gkKind = gtName u\<rparr>"
  define sc1 where "sc1 = (if (?k, u) \<in> set sc then sc else sc @ [(?k, u)])"
  have "table_add gv ts sc1 = Inr sc'" using Cons.prems by (auto simp: table_add_def sc1_def Let_def split: if_splits)
  note IH = Cons.IH [OF this]
  have "table_kinds sc1 t = (if t = u \<and> ?k \<notin> set (table_kinds sc u) then table_kinds sc u @ [?k] else table_kinds sc t)"
    by (auto simp: sc1_def table_kinds_def image_iff)
  then show ?case using IH by auto
qed (simp add: table_add_def)

lemma table_add_Inl:
  assumes "table_add gv ts sc = Inl err"
  shows "\<exists>t \<in> set ts. \<exists>t'. t' \<noteq> t \<and> (t' \<in> set ts \<and> gtName t' = gtName t
    \<or> \<lparr>gkGroupVersion = gv, gkKind = gtName t\<rparr> \<in> set (table_kinds sc t'))"
  using assms
proof (induction ts arbitrary: sc)
  case (Cons u ts)
  let ?k = "\<lparr>gkGroupVersion = gv, gkKind = gtName u\<rparr>"
  show ?case
  proof (cases "\<exists>x \<in> set sc. fst x = ?k \<and> snd x \<noteq> u")
    case True
    then obtain t' where "(?k, t') \<in> set sc" "t' \<noteq> u" by force
    then have "?k \<in> set (table_kinds sc t')" by (force simp: table_kinds_def)
    with \<open>t' \<noteq> u\<close> show ?thesis by auto
  next
    case False
    define sc1 where "sc1 = (if (?k, u) \<in> set sc then sc else sc @ [(?k, u)])"
    have "table_add gv ts sc1 = Inl err"
      using Cons.prems False by (auto simp: table_add_def sc1_def Let_def split: if_splits)
    then obtain t t' where t: "t \<in> set ts" "t' \<noteq> t" "t' \<in> set ts \<and> gtName t' = gtName t
        \<or> \<lparr>gkGroupVersion = gv, gkKind = gtName t\<rparr> \<in> set (table_kinds sc1 t')"
      using Cons.IH by blast
    moreover have "\<lparr>gkGroupVersion = gv, gkKind = gtName t\<rparr> \<in> set (table_kinds sc1 t') \<Longrightarrow>
        \<lparr>gkGroupVersion = gv, gkKind = gtName t\<rparr> \<in> set (table_kinds sc t') \<or> t' = u \<and> gtName t = gtName u"
      by (auto simp: table_kinds_def sc1_def split: if_splits)
    ultimately show ?thesis by (metis list.set_intros(1,2))
  qed
qed (simp add: table_add_def)

interpretation table_scheme: scheme_api table_scheme
proof unfold_locales
  show "\<exists>sc'. slClientGo table_scheme sc = Inr sc'
      \<and> (\<forall>name. slObjectKinds table_scheme sc' (api_type name) = slObjectKinds table_scheme sc (api_type name))
      \<and> (\<forall>t k. k \<in> set (slObjectKinds table_scheme sc' t) \<longrightarrow> gkGroupVersion k = GroupVersion \<longrightarrow>
           k \<in> set (slObjectKinds table_scheme sc t))" for sc
    by (auto simp: table_scheme_def table_kinds_def core_entry_def core_type_def api_type_def GroupVersion_def)
  show "\<exists>sc'. slCoreV1 table_scheme sc = Inr sc'
      \<and> (\<forall>name. slObjectKinds table_scheme sc' (api_type name) = slObjectKinds table_scheme sc (api_type name))
      \<and> slObjectKinds table_scheme sc' (core_type ''Service'') \<noteq> []" for sc
    by (auto simp: table_scheme_def table_kinds_def core_entry_def core_type_def api_type_def)
qed (use table_add_Inr table_add_Inl in \<open>simp_all add: table_scheme_def table_kinds_def\<close>)

end
