(* ===== verification/Watch_Loop.thy ===== *)
theory Watch_Loop
  imports ModelEndpoint_Controller Setup
begin

section \<open>Watches and the work queue\<close>

text \<open>
  A change of a watched object puts requests into the work queue of a controller: the object itself
  for the type that the controller is built for, and the controlling owner for the types it owns. No
  predicate filters the events, so that the status which a reconciliation writes wakes the controller
  again. This theory shows when that loop comes to rest, and whom the loss of a Service wakes. The
  handlers of the events are controller-runtime's: the locale \<open>watch_api\<close> states them.
\<close>

subsection \<open>Events\<close>

datatype kobject =
    OEndpoint ModelEndpoint
  | OTemplate PromptTemplate
  | OPolicy GuardrailPolicy
  | OService Service

fun object_type :: "kobject \<Rightarrow> go_type" where
  "object_type (OEndpoint x) = api_type ''ModelEndpoint''"
| "object_type (OTemplate x) = api_type ''PromptTemplate''"
| "object_type (OPolicy x) = api_type ''GuardrailPolicy''"
| "object_type (OService x) = core_type ''Service''"

fun object_key :: "kobject \<Rightarrow> NamespacedName" where
  "object_key (OEndpoint x) = keyOf (epMeta x)"
| "object_key (OTemplate x) = keyOf (ptMeta x)"
| "object_key (OPolicy x) = keyOf (gpMeta x)"
| "object_key (OService x) = svcKey x"

text \<open>The owners of a kind that control an object; only Services have owners here.\<close>

fun controllers_of :: "string \<Rightarrow> kobject \<Rightarrow> NamespacedName set" where
  "controllers_of kind (OService s) =
     (\<lambda>r. \<lparr>nnNamespace = svcNamespace s, nnName = orName r\<rparr>) ` {r \<in> set (svcOwners s). orController r \<and> orKind r = kind}"
| "controllers_of kind x = {}"

locale watch_api =
  fixes W :: "watches \<Rightarrow> kobject \<Rightarrow> NamespacedName set"
  assumes wakes_self: "object_type x = wFor b \<Longrightarrow> object_type x \<notin> set (wOwns b) \<Longrightarrow> W b x = {object_key x}"
    and wakes_owner: "object_type x \<in> set (wOwns b) \<Longrightarrow> object_type x \<noteq> wFor b \<Longrightarrow>
      W b x = controllers_of (gtName (wFor b)) x"
    and wakes_none: "object_type x \<notin> set (wFor b # wOwns b) \<Longrightarrow> W b x = {}"

definition table_watch :: "watches \<Rightarrow> kobject \<Rightarrow> NamespacedName set" where
  "table_watch b x =
     (if object_type x = wFor b then {object_key x} else {})
     \<union> (if object_type x \<in> set (wOwns b) then controllers_of (gtName (wFor b)) x else {})"

interpretation table_watch: watch_api table_watch
  by unfold_locales (auto simp: table_watch_def)

text \<open>The objects that a step creates, changes or deletes, before and after.\<close>

definition table_changes :: "('k \<Rightarrow> 'o option) \<Rightarrow> ('k \<Rightarrow> 'o option) \<Rightarrow> 'o set" where
  "table_changes t t' = {x. \<exists>k. t k \<noteq> t' k \<and> (t k = Some x \<or> t' k = Some x)}"

definition changed :: "Store \<Rightarrow> Store \<Rightarrow> kobject set" where
  "changed st st' =
     OEndpoint ` table_changes (stEndpoints st) (stEndpoints st') \<union> OTemplate ` table_changes (stTemplates st) (stTemplates st')
     \<union> OPolicy ` table_changes (stPolicies st) (stPolicies st') \<union> OService ` table_changes (stServices st) (stServices st')"

definition woken :: "(watches \<Rightarrow> kobject \<Rightarrow> NamespacedName set) \<Rightarrow> watches \<Rightarrow> Store \<Rightarrow> Store \<Rightarrow> NamespacedName set" where
  "woken W b st st' = (\<Union>x \<in> changed st st'. W b x)"

lemma table_changes_same [simp]: "table_changes t t = {}"
  by (simp add: table_changes_def)

lemma table_changes_update:
  "table_changes t (t(k := v)) = (if t k = v then {} else set_option (t k) \<union> set_option v)"
  by (auto simp: table_changes_def split: if_splits)

lemma table_changes_drop: "table_changes (t(k \<mapsto> x)) (t(k := None)) = {x}"
  by (auto simp: table_changes_def)

context watch_api begin

lemma W_types [simp]:
  "W ModelEndpoint_watches (OEndpoint x) = {keyOf (epMeta x)}"
  "W ModelEndpoint_watches (OService s) = controllers_of ''ModelEndpoint'' (OService s)"
  "W ModelEndpoint_watches (OTemplate y) = {}" "W ModelEndpoint_watches (OPolicy z) = {}"
  using wakes_self [of _ ModelEndpoint_watches] wakes_owner [of _ ModelEndpoint_watches] wakes_none [of _ ModelEndpoint_watches]
  by (simp_all add: ModelEndpoint_watches_def api_type_def core_type_def)

lemma woken_endpoint:
  "woken W ModelEndpoint_watches st st' =
     (\<lambda>x. keyOf (epMeta x)) ` table_changes (stEndpoints st) (stEndpoints st')
     \<union> (\<Union>s \<in> table_changes (stServices st) (stServices st'). controllers_of ''ModelEndpoint'' (OService s))"
  by (auto simp: woken_def changed_def simp del: controllers_of.simps)

end

subsection \<open>Statuses that do not change\<close>

lemma setCondition_keep:
  assumes "condition_of (cType c) cs = Some d" "d = c\<lparr>LastTransitionTime := LastTransitionTime d\<rparr>"
  shows "setCondition cs c = cs"
  using assms(1)
proof (induction cs)
  case (Cons e cs)
  show ?case
  proof (cases "cType e = cType c")
    case True
    then have "e = d" using Cons.prems by simp
    then have "cStatus e = cStatus c" "c\<lparr>LastTransitionTime := LastTransitionTime e\<rparr> = e"
      using assms(2) by (metis Condition.select_convs(2) Condition.surjective Condition.update_convs(5), metis assms(2))
    then show ?thesis using True by simp
  qed (use Cons in auto)
qed simp

text \<open>A condition that says the same again leaves the list as it is.\<close>

lemma setCondition_again:
  assumes "condition_of (cType c) cs = Some d" "cStatus d = cStatus c" "cReason d = cReason c" "cMessage d = cMessage c"
  shows "setCondition cs c = cs"
proof (rule setCondition_keep [OF assms(1)])
  have "cType d = cType c" using find_key_Some [OF assms(1)] by simp
  then show "d = c\<lparr>LastTransitionTime := LastTransitionTime d\<rparr>" using assms(2-4) by (cases c; cases d) simp
qed

lemma endpoint_status_again:
  fixes ep :: ModelEndpoint
  assumes "ep' = ep\<lparr>epStatus := endpoint_status ep h svc t1 t2\<rparr>"
  shows "endpoint_status ep' h svc t3 t4 = epStatus ep'"
proof -
  let ?cs = "epConditions (epStatus ep')"
  have st: "epStatus ep' = endpoint_status ep h svc t1 t2" "epMeta ep' = epMeta ep" using assms by simp_all
  have keep: "setCondition ?cs (endpoint_condition ty h t) = ?cs" if ty: "ty \<in> {ConditionBedrockReachable, ConditionReady}" for ty t
  proof -
    obtain c where "condition_of ty ?cs = Some c" "cStatus c = conditionStatus (hrAvailable h)"
      "cReason c = hrReason h" "cMessage c = hrMessage h"
      using endpoint_status_condition [OF ty, of ep h svc t1 t2] st(1) by auto
    then show ?thesis by (intro setCondition_again) simp_all
  qed
  have "epStatus ep'\<lparr>Available := hrAvailable h, ServiceName := svc, epObservedGeneration := Generation (epMeta ep')\<rparr> = epStatus ep'"
    unfolding st by (simp add: endpoint_status_def Let_def)
  then show ?thesis
    unfolding endpoint_status_def Let_def by (simp add: keep)
qed

text \<open>A different verdict always shows in the conditions.\<close>

lemma endpoint_status_differs:
  "endpoint_status ep h svc t1 t2 = endpoint_status ep' h' svc' t3 t4 \<Longrightarrow> h = h'"
proof -
  assume eq: "endpoint_status ep h svc t1 t2 = endpoint_status ep' h' svc' t3 t4"
  have "hrAvailable h = hrAvailable h'" using eq endpoint_status_fields(1) by metis
  moreover have "hrReason h = hrReason h' \<and> hrMessage h = hrMessage h'"
    using endpoint_status_condition [of ConditionReady ep h svc t1 t2] endpoint_status_condition [of ConditionReady ep' h' svc' t3 t4]
      eq by auto
  ultimately show ?thesis by (cases h; cases h') simp
qed

locale watched_endpoints = endpoint_env K store C cached + watch_api W
  for K :: "'w kube" and store :: "'w \<Rightarrow> Store" and C :: "'w checker" and cached :: "'w \<Rightarrow> EndpointKey \<Rightarrow> bool"
    and W :: "watches \<Rightarrow> kobject \<Rightarrow> NamespacedName set"
begin

text \<open>The second of two reconciliations of an endpoint with nothing in between.\<close>

lemma second_run:
  assumes r: "epClient r = K" "epBedrock r = C"
    and ep: "stEndpoints (store w) req = Some ep" "IsZero (DeletionTimestamp (epMeta ep))"
      "FinalizerName \<in> set (Finalizers (epMeta ep))"
    and run1: "ModelEndpoint_Reconcile r req w = ((res1, None), ops1, w1)"
    and run2: "store v = store w1" "ModelEndpoint_Reconcile r req v = ((res2, None), ops2, v')"
    and h1: "h1 = fst (cHealthCheck C (endpoint_key ep) (ModelId (epSpec ep)) (snd (rGet (epAPI K) req w)))"
    and h2: "h2 = fst (cHealthCheck C (endpoint_key ep) (ModelId (epSpec ep)) (snd (rGet (epAPI K) req v)))"
  shows "woken W ModelEndpoint_watches (store v) (store v') = (if h2 = h1 then {} else {req})"
    "stServices (store v') = stServices (store v)"
proof -
  obtain t1 t2 where e1: "stEndpoints (store w1) = (stEndpoints (store w))(req \<mapsto>
      ep\<lparr>epStatus := endpoint_status ep h1 (service_name ep) t1 t2\<rparr>)"
    using synced_state [OF run1 r ep] unfolding h1 by blast
  note s1 = synced_store [OF run1 r ep]
  define ep1 where "ep1 = ep\<lparr>epStatus := endpoint_status ep h1 (service_name ep) t1 t2\<rparr>"
  have ep1: "stEndpoints (store v) req = Some ep1" "IsZero (DeletionTimestamp (epMeta ep1))"
    "FinalizerName \<in> set (Finalizers (epMeta ep1))" using e1 run2(1) ep(2,3) by (simp_all add: ep1_def)
  have same: "endpoint_key ep1 = endpoint_key ep" "ModelId (epSpec ep1) = ModelId (epSpec ep)" "service_name ep1 = service_name ep"
    "epMeta ep1 = epMeta ep" by (simp_all add: ep1_def endpoint_key_def service_name_def)
  obtain t3 t4 where e2: "stEndpoints (store v') = (stEndpoints (store v))(req \<mapsto>
      ep1\<lparr>epStatus := endpoint_status ep1 h2 (service_name ep) t3 t4\<rparr>)"
    using synced_state [OF run2(2) r ep1] unfolding h2 same by blast
  let ?s = "endpoint_service r ep (stServices (store w) (service_key ep))"
  have "endpoint_service r ep1 = endpoint_service r ep"
    by (simp add: fun_eq_iff endpoint_service_def ep1_def desired_service_def service_name_def split: option.split)
  then have "stServices (store v') = (stServices (store v))(service_key ep \<mapsto> ?s)"
    using synced_store(2) [OF run2(2) r ep1] s1(2) run2(1) by (simp add: same endpoint_service_again)
  then show svc: "stServices (store v') = stServices (store v)" using s1(2) run2(1) by simp
  have key: "keyOf (epMeta ep1) = req" using s1(1) by (simp add: ep1_def)
  have "ep1\<lparr>epStatus := endpoint_status ep1 h2 (service_name ep) t3 t4\<rparr> = ep1 \<longleftrightarrow> h2 = h1"
  proof
    assume "ep1\<lparr>epStatus := endpoint_status ep1 h2 (service_name ep) t3 t4\<rparr> = ep1"
    then have "endpoint_status ep1 h2 (service_name ep) t3 t4 = epStatus ep1"
      by (metis ModelEndpoint.select_convs(3) ModelEndpoint.surjective ModelEndpoint.update_convs(3))
    then show "h2 = h1" using endpoint_status_differs [of ep1 h2] by (simp add: ep1_def)
  next
    assume "h2 = h1"
    then show "ep1\<lparr>epStatus := endpoint_status ep1 h2 (service_name ep) t3 t4\<rparr> = ep1"
      using endpoint_status_again [OF ep1_def] by simp
  qed
  then show "woken W ModelEndpoint_watches (store v) (store v') = (if h2 = h1 then {} else {req})"
    using ep1(1) key unfolding woken_endpoint svc e2 table_changes_update by auto
qed

text \<open>The loss of the endpoint's Service.\<close>

lemma service_loss:
  assumes r: "epClient r = K" "epBedrock r = C"
    and ep: "stEndpoints (store w) req = Some ep" "IsZero (DeletionTimestamp (epMeta ep))"
      "FinalizerName \<in> set (Finalizers (epMeta ep))"
    and keys: "\<forall>s. stServices (store w) (service_key ep) = Some s \<longrightarrow> svcKey s = service_key ep"
    and run: "ModelEndpoint_Reconcile r req w = ((res, None), ops, w1)"
    and lost: "lost = (store w1)\<lparr>stServices := (stServices (store w1))(service_key ep := None)\<rparr>"
  shows "woken W ModelEndpoint_watches (store w1) lost =
      (case stServices (store w) (service_key ep) of None \<Rightarrow> {req} | Some s \<Rightarrow> controllers_of ''ModelEndpoint'' (OService s))"
    "store v = lost \<Longrightarrow> ModelEndpoint_Reconcile r req v = ((res2, None), ops2, v') \<Longrightarrow>
      stServices (store v') (service_key ep) = Some (endpoint_service r ep None)"
proof -
  let ?old = "stServices (store w) (service_key ep)"
  let ?s = "endpoint_service r ep ?old"
  note s1 = synced_store [OF run r ep]
  have req: "req = \<lparr>nnNamespace = Namespace (epMeta ep), nnName = Name (epMeta ep)\<rparr>" using s1(1) by (simp add: keyOf_def)
  have "woken W ModelEndpoint_watches (store w1) lost = controllers_of ''ModelEndpoint'' (OService ?s)"
    unfolding woken_endpoint by (simp add: lost table_changes_drop s1(2) del: controllers_of.simps)
  also have "\<dots> = (case ?old of None \<Rightarrow> {req} | Some s \<Rightarrow> controllers_of ''ModelEndpoint'' (OService s))"
  proof (cases ?old)
    case None
    have "{r \<in> {\<lparr>orKind = ''ModelEndpoint'', orName = n, orController = True\<rparr>}. orController r \<and> orKind r = ''ModelEndpoint''}
        = {\<lparr>orKind = ''ModelEndpoint'', orName = n, orController = True\<rparr>}" for n by auto
    then show ?thesis using None by (simp add: endpoint_service_def desired_service_def req del: Collect_conv_if)
  qed (simp add: endpoint_service_def)
  finally show "woken W ModelEndpoint_watches (store w1) lost = (case ?old of None \<Rightarrow> {req}
      | Some s \<Rightarrow> controllers_of ''ModelEndpoint'' (OService s))" .
  assume v: "store v = lost" "ModelEndpoint_Reconcile r req v = ((res2, None), ops2, v')"
  obtain st where "stEndpoints (store w1) = (stEndpoints (store w))(req \<mapsto> ep\<lparr>epStatus := st\<rparr>)"
    using synced_state [OF run r ep] by blast
  then have ep1: "stEndpoints (store v) req = Some (ep\<lparr>epStatus := st\<rparr>)" using v(1) lost by simp
  have "stServices (store v') = (stServices (store v))(service_key ep \<mapsto>
      endpoint_service r (ep\<lparr>epStatus := st\<rparr>) (stServices (store v) (service_key ep)))"
    using synced_store(2) [OF v(2) r ep1] ep(2,3) by (simp add: service_name_def)
  then show "stServices (store v') (service_key ep) = Some (endpoint_service r ep None)"
    using v(1) lost by (simp add: endpoint_service_def desired_service_def service_name_def)
qed

end

interpretation watched: watched_endpoints "cluster_kube :: 'w operator_world kube" objects "bedrock_checker sdk" has_client table_watch
  for sdk :: "'w aws"
  by unfold_locales

subsection \<open>The operator without faults\<close>

lemma operator_run_ok:
  assumes "faults w = []" "stEndpoints (objects w) req = Some ep" "keyOf (epMeta ep) = req"
    "IsZero (DeletionTimestamp (epMeta ep))" "FinalizerName \<in> set (Finalizers (epMeta ep))"
  shows "\<exists>res ops w'. ModelEndpoint_Reconcile (operator_reconciler sdk ns svc) req w = ((res, None), ops, w') \<and> faults w' = []"
proof -
  obtain h c a where h: "HealthCheck sdk (endpoint_key ep) (ModelId (epSpec ep)) (bedrockClient w) (awsWorld w) = (h, c, a)"
    by (metis prod.collapse)
  let ?w2 = "w\<lparr>bedrockClient := c, awsWorld := a\<rparr>"
  have get: "rGet (epAPI cluster_kube) req w = (Inr ep, w)" using assms(1-3) by (simp add: mem_get_def next_fault_def)
  have check: "cHealthCheck (bedrock_checker sdk) (endpoint_key ep) (ModelId (epSpec ep)) w = (h, ?w2)"
    using h by (simp add: bedrock_checker_def)
  obtain w3 where svc: "reconcileService (operator_reconciler sdk ns svc) ep ?w2 = (Inr (service_name ep), w3)"
    "faults w3 = []" "stEndpoints (objects w3) = stEndpoints (objects w)"
    using assms(1) by (simp add: reconcileService_def operator_reconciler_def cluster_kube_def mem_set_owner_def
        desired_service_def mem_create_or_update_def next_fault_def Let_def)
  show ?thesis using assms get check svc
    by (simp add: ModelEndpoint_Reconcile_def mem_patch_def next_fault_def Let_def)
qed

text \<open>Two good verdicts on one model are the same verdict: the message names the model and the region.\<close>

lemma available_verdict:
  "cHealthCheck (bedrock_checker sdk) key m w = (h, w') \<Longrightarrow> hrAvailable h \<Longrightarrow>
   h = \<lparr>hrAvailable = True, hrReason = ''ModelAvailable'',
     hrMessage = ''model '' @ go_quote m @ '' is available in '' @ ekRegion key\<rparr>"
  by (auto simp: bedrock_checker_def HealthCheck_def split: prod.splits option.splits)

subsection \<open>Properties\<close>

text \<open>C23: the status that a reconciliation writes wakes the endpoint's controller again, and the loop
  rests exactly when the health check repeats itself: of two successful reconciliations of a live endpoint
  with nothing in between, the second changes no Service, and it puts the endpoint back into the work
  queue if and only if its verdict differs from the first one in availability, reason or message. With the
  same verdict nothing is written and only the timer runs it again; with a message that differs every time
  (an error of AWS names the request) the interval of ten seconds has no effect and the controller calls
  Bedrock without pause.\<close>

theorem endpoint_loop_rests:
  assumes "endpoint_env (epClient r) store (epBedrock r) cached" "watch_api W"
    and "stEndpoints (store w) req = Some ep" "IsZero (DeletionTimestamp (epMeta ep))"
      "FinalizerName \<in> set (Finalizers (epMeta ep))"
    and "ModelEndpoint_Reconcile r req w = ((res1, None), ops1, w1)"
    and "store v = store w1" "ModelEndpoint_Reconcile r req v = ((res2, None), ops2, v')"
    and "h1 = fst (cHealthCheck (epBedrock r) (endpoint_key ep) (ModelId (epSpec ep)) (snd (rGet (epAPI (epClient r)) req w)))"
    and "h2 = fst (cHealthCheck (epBedrock r) (endpoint_key ep) (ModelId (epSpec ep)) (snd (rGet (epAPI (epClient r)) req v)))"
  shows "stServices (store v') = stServices (store v)
    \<and> woken W ModelEndpoint_watches (store v) (store v') = (if h2 = h1 then {} else {req})
    \<and> \<not> Requeue res2 \<and> RequeueAfter res2 = (if hrAvailable h2 then 300 * 10 ^ 9 else 10 * 10 ^ 9)"
proof -
  have env: "watched_endpoints (epClient r) store (epBedrock r) cached W"
    by (rule watched_endpoints.intro [OF assms(1,2)])
  obtain st where e: "stEndpoints (store w1) = (stEndpoints (store w))(req \<mapsto> ep\<lparr>epStatus := st\<rparr>)"
    using endpoint_env.synced_state [OF assms(1,6) refl refl assms(3-5)] by blast
  have ep1: "stEndpoints (store v) req = Some (ep\<lparr>epStatus := st\<rparr>)" using e assms(7) by simp
  have "res2 = zero_result\<lparr>RequeueAfter := (if hrAvailable h2 then requeueSteadyState else requeueTransient)\<rparr>"
    using endpoint_env.synced_state [OF assms(1,8) refl refl ep1] assms(4,5) unfolding assms(10) by (auto simp: endpoint_key_def)
  then show ?thesis using watched_endpoints.second_run [OF env refl refl assms(3-10)] by (simp add: requeue_defs)
qed

theorem endpoint_loop_rests_witness:
  "\<exists>w1 w2. snd (snd (ModelEndpoint_Reconcile demo_operator demo_req (demo_world (demo_endpoint [FinalizerName] None) []))) = w1
    \<and> snd (snd (ModelEndpoint_Reconcile demo_operator demo_req w1)) = w2
    \<and> woken table_watch ModelEndpoint_watches (objects w1) (objects w2) = {}"
proof -
  let ?w = "demo_world (demo_endpoint [FinalizerName] None) []" and ?ep = "demo_endpoint [FinalizerName] None"
  let ?h = "\<lambda>w. fst (cHealthCheck (epBedrock demo_operator) (endpoint_key ?ep) (ModelId (epSpec ?ep))
      (snd (rGet (epAPI (epClient demo_operator)) demo_req w)))"
  have ep: "stEndpoints (objects ?w) demo_req = Some ?ep" "IsZero (DeletionTimestamp (epMeta ?ep))"
    "FinalizerName \<in> set (Finalizers (epMeta ?ep))" "keyOf (epMeta ?ep) = demo_req" "faults ?w = []"
    by (simp_all add: demo_defs)
  obtain res1 ops1 w1 where run1: "ModelEndpoint_Reconcile demo_operator demo_req ?w = ((res1, None), ops1, w1)" "faults w1 = []"
    using operator_run_ok [OF ep(5,1,4,2,3)] unfolding demo_operator_def by blast
  obtain st where e1: "stEndpoints (objects w1) demo_req = Some (?ep\<lparr>epStatus := st\<rparr>)"
    using endpoint_env.synced_state [OF demo_env run1(1) refl refl ep(1-3)] by auto
  obtain res2 ops2 w2 where run2: "ModelEndpoint_Reconcile demo_operator demo_req w1 = ((res2, None), ops2, w2)"
    using operator_run_ok [OF run1(2) e1, of sample_aws "''ai-system''" "''k8s-ai-operator''"] ep(2-4)
    unfolding demo_operator_def by auto
  have "hrAvailable (?h w)" for w
    using checker_up [OF demo_up] unfolding demo_operator_def by (metis fst_conv operator_reconciler_sel(2))
  then have "?h w1 = ?h ?w"
    unfolding demo_operator_def operator_reconciler_sel by (metis available_verdict prod.collapse)
  with endpoint_loop_rests [OF demo_env table_watch.watch_api_axioms ep(1-3) run1(1) refl run2 refl refl]
  show ?thesis using run1 run2 by auto
qed

text \<open>C24: the loss of an endpoint's Service is noticed and repaired only if the controller created it.
  After a successful reconciliation of a live endpoint the deletion of its Service wakes the endpoint
  when there was no Service of the name before; the next successful reconciliation then creates it again,
  with its labels, owner and target. A Service that was there before is taken over without an owner, and
  its deletion wakes only the endpoints that controlled it already, if any.\<close>

theorem service_loss_noticed:
  assumes "endpoint_env (epClient r) store (epBedrock r) cached" "watch_api W"
    and "stEndpoints (store w) req = Some ep" "IsZero (DeletionTimestamp (epMeta ep))"
      "FinalizerName \<in> set (Finalizers (epMeta ep))"
    and "\<forall>s. stServices (store w) \<lparr>nnNamespace = Namespace (epMeta ep), nnName = service_name ep\<rparr> = Some s \<longrightarrow>
      svcKey s = \<lparr>nnNamespace = Namespace (epMeta ep), nnName = service_name ep\<rparr>"
    and "ModelEndpoint_Reconcile r req w = ((res, None), ops, w1)"
    and "lost = (store w1)\<lparr>stServices := (stServices (store w1))
      (\<lparr>nnNamespace = Namespace (epMeta ep), nnName = service_name ep\<rparr> := None)\<rparr>"
  shows "woken W ModelEndpoint_watches (store w1) lost =
      (case stServices (store w) \<lparr>nnNamespace = Namespace (epMeta ep), nnName = service_name ep\<rparr> of
         None \<Rightarrow> {req}
       | Some s \<Rightarrow> {\<lparr>nnNamespace = svcNamespace s, nnName = orName o'\<rparr> | o'.
           o' \<in> set (svcOwners s) \<and> orController o' \<and> orKind o' = ''ModelEndpoint''})
    \<and> (\<forall>v res2 ops2 v'. store v = lost \<longrightarrow> ModelEndpoint_Reconcile r req v = ((res2, None), ops2, v') \<longrightarrow>
        (\<exists>s. stServices (store v') \<lparr>nnNamespace = Namespace (epMeta ep), nnName = service_name ep\<rparr> = Some s
          \<and> svcLabels s = svcLabels (desired_service ep) \<and> svcSpec s = proxy_service_spec r
          \<and> svcOwners s = [\<lparr>orKind = ''ModelEndpoint'', orName = Name (epMeta ep), orController = True\<rparr>]))"
proof -
  have env: "watched_endpoints (epClient r) store (epBedrock r) cached W"
    by (rule watched_endpoints.intro [OF assms(1,2)])
  note loss = watched_endpoints.service_loss [OF env refl refl assms(3-8)]
  have owners: "controllers_of ''ModelEndpoint'' (OService s) = {\<lparr>nnNamespace = svcNamespace s, nnName = orName o'\<rparr> | o'.
           o' \<in> set (svcOwners s) \<and> orController o' \<and> orKind o' = ''ModelEndpoint''}" for s by auto
  have new: "svcLabels (endpoint_service r ep None) = svcLabels (desired_service ep)"
    "svcSpec (endpoint_service r ep None) = proxy_service_spec r"
    "svcOwners (endpoint_service r ep None) = [\<lparr>orKind = ''ModelEndpoint'', orName = Name (epMeta ep), orController = True\<rparr>]"
    by (simp_all add: endpoint_service_def)
  show ?thesis using loss(1) loss(2) new unfolding owners by blast
qed

theorem service_loss_noticed_witness:
  "\<exists>w1. snd (snd (ModelEndpoint_Reconcile demo_operator demo_req (demo_world (demo_endpoint [FinalizerName] None) []))) = w1
    \<and> woken table_watch ModelEndpoint_watches (objects w1)
        ((objects w1)\<lparr>stServices := (stServices (objects w1))(\<lparr>nnNamespace = ''team-a'', nnName = ''model-haiku''\<rparr> := None)\<rparr>) = {demo_req}"
proof -
  let ?w = "demo_world (demo_endpoint [FinalizerName] None) []" and ?ep = "demo_endpoint [FinalizerName] None"
  have ep: "stEndpoints (objects ?w) demo_req = Some ?ep" "IsZero (DeletionTimestamp (epMeta ?ep))"
    "FinalizerName \<in> set (Finalizers (epMeta ?ep))" "keyOf (epMeta ?ep) = demo_req" "faults ?w = []"
    by (simp_all add: demo_defs)
  have key: "\<lparr>nnNamespace = Namespace (epMeta ?ep), nnName = service_name ?ep\<rparr> = \<lparr>nnNamespace = ''team-a'', nnName = ''model-haiku''\<rparr>"
    by (simp add: demo_endpoint_def service_name_def)
  have none: "stServices (objects ?w) = Map.empty" by (simp add: demo_world_def)
  obtain res1 ops1 w1 where run1: "ModelEndpoint_Reconcile demo_operator demo_req ?w = ((res1, None), ops1, w1)" "faults w1 = []"
    using operator_run_ok [OF ep(5,1,4,2,3)] unfolding demo_operator_def by blast
  have "\<forall>s. stServices (objects ?w) \<lparr>nnNamespace = Namespace (epMeta ?ep), nnName = service_name ?ep\<rparr> = Some s \<longrightarrow>
      svcKey s = \<lparr>nnNamespace = Namespace (epMeta ?ep), nnName = service_name ?ep\<rparr>" using none by simp
  from service_loss_noticed [OF demo_env table_watch.watch_api_axioms ep(1-3) this run1(1) refl] run1(1) show ?thesis
    unfolding key none by auto
qed

end
