(* ===== verification/Api_Json.thy ===== *)
theory Api_Json
  imports Api_Types Json Setup
begin

section \<open>ModelEndpoints as JSON documents (api/v1alpha1/*\_types.go, struct tags)\<close>

text \<open>
  How a ModelEndpoint is written by json.Marshal and read by the decoder of the API machinery, both
  driven by the struct tags. The decoder of the API machinery matches keys exactly, unlike
  encoding/json. ObjectMeta and Condition are library types: \<open>meta_codec\<close> has their encoding, the locale
  \<open>meta_api\<close> its laws. TypeMeta is not part of the model's records: a document of an endpoint carries the
  kind and version under which it was decoded.
\<close>

subsection \<open>Encoding structs\<close>

text \<open>A field is written with its tag, unless it is empty and tagged omitempty.\<close>

definition enc_struct :: "(string \<times> json option) list \<Rightarrow> json" where
  "enc_struct fs = JObj (List.map_filter (\<lambda>(k, v). map_option (Pair k) v) fs)"

definition omit_string :: "string \<Rightarrow> json option" where
  "omit_string s = (if s = [] then None else Some (JStr s))"

definition omit_int :: "int \<Rightarrow> json option" where
  "omit_int n = (if n = 0 then None else Some (JInt n))"

definition omit_slice :: "('a \<Rightarrow> json) \<Rightarrow> 'a list \<Rightarrow> json option" where
  "omit_slice enc xs = (if xs = [] then None else Some (JArr (map enc xs)))"

subsection \<open>Decoding structs\<close>

fun dec_exact :: "string \<Rightarrow> (string \<times> 'a decoder) list \<Rightarrow> 'a decoder" where
  "dec_exact ty fs JNull old = Inr old"
| "dec_exact ty fs (JObj kvs) old =
     foldE (\<lambda>s (k, v). case map_of fs k of None \<Rightarrow> Inr s | Some d \<Rightarrow> d v s) old kvs"
| "dec_exact ty fs j old = Inl (JsonMismatch j ty)"

fun dec_bool :: "bool decoder" where
  "dec_bool (JBool b) old = Inr b"
| "dec_bool JNull old = Inr old"
| "dec_bool j old = Inl (JsonMismatch j ''bool'')"

text \<open>A pointer: null sets it to nil, anything else goes to its target, a zero value if it was nil.\<close>

fun dec_ptr :: "'a \<Rightarrow> 'a decoder \<Rightarrow> 'a option decoder" where
  "dec_ptr z d JNull old = Inr None"
| "dec_ptr z d j old = map_sum id Some (d j (case old of None \<Rightarrow> z | Some x \<Rightarrow> x))"

lemma dec_ptr_value: "j \<noteq> JNull \<Longrightarrow> dec_ptr z d j None = map_sum id Some (d j z)"
  by (cases j) simp_all

text \<open>One field of an encoded struct, written or omitted.\<close>

lemma enc_struct_Nil [simp]: "dec_exact ty fs (enc_struct []) s = Inr s"
  by (simp add: enc_struct_def map_filter_simps)

lemma enc_struct_skip:
  "map_of fs k = None \<Longrightarrow> dec_exact ty fs (enc_struct ((k, v) # ps)) s = dec_exact ty fs (enc_struct ps) s"
  by (cases v) (simp_all add: enc_struct_def map_filter_simps)

lemma enc_struct_written:
  assumes "map_of fs k = Some (into get upd d)" "d v (get s) = Inr x"
  shows "dec_exact ty fs (enc_struct ((k, Some v) # ps)) s = dec_exact ty fs (enc_struct ps) (upd (\<lambda>_. x) s)"
  using assms by (simp add: enc_struct_def map_filter_simps into_def)

lemma enc_struct_omitted: "dec_exact ty fs (enc_struct ((k, None) # ps)) s = dec_exact ty fs (enc_struct ps) s"
  by (simp add: enc_struct_def map_filter_simps)

lemma enc_struct_field:
  assumes "map_of fs k = Some (into get upd d)" "\<And>v. ov = Some v \<Longrightarrow> d v (get s) = Inr x" "ov = None \<Longrightarrow> upd (\<lambda>_. x) s = s"
  shows "dec_exact ty fs (enc_struct ((k, ov) # ps)) s = dec_exact ty fs (enc_struct ps) (upd (\<lambda>_. x) s)"
  using assms by (cases ov) (simp_all add: enc_struct_omitted enc_struct_written)

lemma enc_struct_string:
  assumes "map_of fs k = Some (into get upd dec_string)" "upd (\<lambda>_. []) s = s"
  shows "dec_exact ty fs (enc_struct ((k, omit_string x) # ps)) s = dec_exact ty fs (enc_struct ps) (upd (\<lambda>_. x) s)"
  by (rule enc_struct_field [OF assms(1)]) (use assms(2) in \<open>auto simp: omit_string_def split: if_splits\<close>)

lemma enc_struct_int:
  assumes "map_of fs k = Some (into get upd (dec_int b t))" "upd (\<lambda>_. 0) s = s" "- (2 ^ (b - 1)) \<le> x \<and> x < 2 ^ (b - 1)"
  shows "dec_exact ty fs (enc_struct ((k, omit_int x) # ps)) s = dec_exact ty fs (enc_struct ps) (upd (\<lambda>_. x) s)"
  by (rule enc_struct_field [OF assms(1)]) (use assms(2,3) in \<open>auto simp: omit_int_def split: if_splits\<close>)

lemma enc_struct_slice:
  assumes "map_of fs k = Some (into get upd (dec_slice z d t))" "upd (\<lambda>_. []) s = s" "\<forall>x \<in> set xs. d (enc x) z = Inr x"
  shows "dec_exact ty fs (enc_struct ((k, omit_slice enc xs) # ps)) s = dec_exact ty fs (enc_struct ps) (upd (\<lambda>_. xs) s)"
proof (rule enc_struct_field [OF assms(1)])
  show "upd (\<lambda>_. xs) s = s" if "omit_slice enc xs = None" using that assms(2) by (simp add: omit_slice_def split: if_splits)
  have "mapE (\<lambda>j. d j z) (map enc xs) = Inr xs" using assms(3) by (induction xs) simp_all
  then show "dec_slice z d t v (get s) = Inr xs" if "omit_slice enc xs = Some v" for v
    using that by (auto simp: omit_slice_def split: if_splits)
qed

lemma enc_struct_ptr:
  assumes "map_of fs k = Some (into get upd (dec_ptr z d))" "get s = None" "upd (\<lambda>_. None) s = s"
    and "\<forall>y. x = Some y \<longrightarrow> enc y \<noteq> JNull \<and> d (enc y) z = Inr y"
  shows "dec_exact ty fs (enc_struct ((k, map_option enc x) # ps)) s = dec_exact ty fs (enc_struct ps) (upd (\<lambda>_. x) s)"
  by (rule enc_struct_field [OF assms(1)]) (use assms in \<open>auto simp: dec_ptr_value\<close>)

lemma enc_struct_not_null [simp]: "enc_struct fs \<noteq> JNull"
  by (simp add: enc_struct_def)

lemmas enc_steps = enc_struct_written enc_struct_skip enc_struct_string enc_struct_int enc_struct_slice enc_struct_ptr

lemma dec_exact_invariant:
  assumes "dec_exact ty fs j s = Inr s'" "P s"
    and "\<And>n d v t t'. (n, d) \<in> set fs \<Longrightarrow> d v t = Inr t' \<Longrightarrow> P t \<Longrightarrow> P t'"
  shows "P s'"
proof (cases j)
  case (JObj kvs)
  have "foldE (\<lambda>s (k, v). case map_of fs k of None \<Rightarrow> Inr s | Some d \<Rightarrow> d v s) s kvs = Inr s' \<Longrightarrow> P s \<Longrightarrow> P s'" for s
  proof (induction kvs arbitrary: s)
    case (Cons kv kvs)
    obtain k v where kv: "kv = (k, v)" by fastforce
    show ?case
    proof (cases "map_of fs k")
      case (Some d)
      with Cons.prems kv obtain t where t: "d v s = Inr t"
        "foldE (\<lambda>s (k, v). case map_of fs k of None \<Rightarrow> Inr s | Some d \<Rightarrow> d v s) t kvs = Inr s'"
        by (auto split: sum.splits)
      have "P t" using assms(3) [OF map_of_SomeD [OF Some] t(1)] Cons.prems(2) by simp
      with Cons.IH t(2) show ?thesis by blast
    qed (use Cons kv in simp)
  qed simp
  with assms JObj show ?thesis by simp
qed (use assms in auto)

lemma dec_ptr_invariant:
  assumes "dec_ptr z d j old = Inr (Some x)" "P z" "\<And>v t t'. d v t = Inr t' \<Longrightarrow> P t \<Longrightarrow> P t'" "\<And>y. old = Some y \<Longrightarrow> P y"
  shows "P x"
  using assms by (cases j) (auto simp: map_sum_def split: sum.splits option.splits)

subsection \<open>Library types\<close>

record meta_codec =
  mcEncMeta :: "ObjectMeta \<Rightarrow> json"
  mcDecMeta :: "ObjectMeta decoder"
  mcZeroMeta :: ObjectMeta
  mcMetaOk :: "ObjectMeta \<Rightarrow> bool"
  mcEncCondition :: "Condition \<Rightarrow> json"
  mcDecCondition :: "Condition decoder"
  mcZeroCondition :: Condition

locale meta_api =
  fixes M :: meta_codec
  assumes meta_roundtrip: "mcMetaOk M m \<Longrightarrow> mcDecMeta M (mcEncMeta M m) (mcZeroMeta M) = Inr m"
    and meta_typed: "mcMetaOk M (mcZeroMeta M)" "mcDecMeta M j old = Inr m \<Longrightarrow> mcMetaOk M old \<Longrightarrow> mcMetaOk M m"
    and condition_roundtrip: "mcDecCondition M (mcEncCondition M c) (mcZeroCondition M) = Inr c"

subsection \<open>shared\_types.go\<close>

definition zero_budget :: BudgetSpec where
  "zero_budget = \<lparr>Daily = [], Monthly = []\<rparr>"

definition enc_budget :: "BudgetSpec \<Rightarrow> json" where
  "enc_budget b = enc_struct [(''daily'', omit_string (Daily b)), (''monthly'', omit_string (Monthly b))]"

definition dec_budget :: "BudgetSpec decoder" where
  "dec_budget = dec_exact ''v1alpha1.BudgetSpec''
     [(''daily'', into Daily Daily_update dec_string), (''monthly'', into Monthly Monthly_update dec_string)]"

definition zero_rate :: RateLimitSpec where
  "zero_rate = \<lparr>RequestsPerMinute = 0\<rparr>"

definition enc_rate :: "RateLimitSpec \<Rightarrow> json" where
  "enc_rate rl = enc_struct [(''requestsPerMinute'', Some (JInt (RequestsPerMinute rl)))]"

definition dec_rate :: "RateLimitSpec decoder" where
  "dec_rate = dec_exact ''v1alpha1.RateLimitSpec''
     [(''requestsPerMinute'', into RequestsPerMinute RequestsPerMinute_update dec_int32)]"

subsection \<open>modelendpoint\_types.go\<close>

definition zero_spec :: ModelEndpointSpec where
  "zero_spec = \<lparr>ModelId = [], Region = [], IRSARoleArn = [], epMaxTokens = None, CostBudget = None, RateLimit = None,
     GuardrailPolicyRef = None\<rparr>"

definition enc_spec :: "ModelEndpointSpec \<Rightarrow> json" where
  "enc_spec s = enc_struct
     [(''modelId'', Some (JStr (ModelId s))), (''region'', Some (JStr (Region s))),
      (''irsaRoleArn'', Some (JStr (IRSARoleArn s))), (''maxTokens'', map_option JInt (epMaxTokens s)),
      (''costBudget'', map_option enc_budget (CostBudget s)), (''rateLimit'', map_option enc_rate (RateLimit s)),
      (''guardrailPolicyRef'', map_option JStr (GuardrailPolicyRef s))]"

definition dec_spec :: "ModelEndpointSpec decoder" where
  "dec_spec = dec_exact ''v1alpha1.ModelEndpointSpec''
     [(''modelId'', into ModelId ModelId_update dec_string), (''region'', into Region Region_update dec_string),
      (''irsaRoleArn'', into IRSARoleArn IRSARoleArn_update dec_string),
      (''maxTokens'', into epMaxTokens epMaxTokens_update (dec_ptr 0 dec_int32)),
      (''costBudget'', into CostBudget CostBudget_update (dec_ptr zero_budget dec_budget)),
      (''rateLimit'', into RateLimit RateLimit_update (dec_ptr zero_rate dec_rate)),
      (''guardrailPolicyRef'', into GuardrailPolicyRef GuardrailPolicyRef_update (dec_ptr [] dec_string))]"

definition zero_status :: ModelEndpointStatus where
  "zero_status = \<lparr>Available = False, epConditions = [], CostThisMonth = [], CostToday = [], InvocationsToday = 0,
     TotalInputTokens = 0, TotalOutputTokens = 0, ServiceName = [], epObservedGeneration = 0\<rparr>"

definition enc_status :: "meta_codec \<Rightarrow> ModelEndpointStatus \<Rightarrow> json" where
  "enc_status M s = enc_struct
     [(''available'', Some (JBool (Available s))), (''conditions'', omit_slice (mcEncCondition M) (epConditions s)),
      (''costThisMonth'', omit_string (CostThisMonth s)), (''costToday'', omit_string (CostToday s)),
      (''invocationsToday'', omit_int (InvocationsToday s)), (''totalInputTokens'', omit_int (TotalInputTokens s)),
      (''totalOutputTokens'', omit_int (TotalOutputTokens s)), (''serviceName'', omit_string (ServiceName s)),
      (''observedGeneration'', omit_int (epObservedGeneration s))]"

definition dec_status :: "meta_codec \<Rightarrow> ModelEndpointStatus decoder" where
  "dec_status M = dec_exact ''v1alpha1.ModelEndpointStatus''
     [(''available'', into Available Available_update dec_bool),
      (''conditions'', into epConditions epConditions_update (dec_slice (mcZeroCondition M) (mcDecCondition M) ''[]v1.Condition'')),
      (''costThisMonth'', into CostThisMonth CostThisMonth_update dec_string),
      (''costToday'', into CostToday CostToday_update dec_string),
      (''invocationsToday'', into InvocationsToday InvocationsToday_update dec_int64),
      (''totalInputTokens'', into TotalInputTokens TotalInputTokens_update dec_int64),
      (''totalOutputTokens'', into TotalOutputTokens TotalOutputTokens_update dec_int64),
      (''serviceName'', into ServiceName ServiceName_update dec_string),
      (''observedGeneration'', into epObservedGeneration epObservedGeneration_update dec_int64)]"

definition zero_endpoint :: "meta_codec \<Rightarrow> ModelEndpoint" where
  "zero_endpoint M = \<lparr>epMeta = mcZeroMeta M, epSpec = zero_spec, epStatus = zero_status\<rparr>"

text \<open>The version as it is written: group, slash, version.\<close>

definition api_version :: "group_version \<Rightarrow> string" where
  "api_version gv = gvGroup gv @ ''/'' @ gvVersion gv"

definition enc_endpoint :: "meta_codec \<Rightarrow> ModelEndpoint \<Rightarrow> json" where
  "enc_endpoint M ep = enc_struct
     [(''kind'', Some (JStr ''ModelEndpoint'')), (''apiVersion'', Some (JStr (api_version GroupVersion))),
      (''metadata'', Some (mcEncMeta M (epMeta ep))), (''spec'', Some (enc_spec (epSpec ep))),
      (''status'', Some (enc_status M (epStatus ep)))]"

definition dec_endpoint :: "meta_codec \<Rightarrow> ModelEndpoint decoder" where
  "dec_endpoint M = dec_exact ''v1alpha1.ModelEndpoint''
     [(''metadata'', into epMeta epMeta_update (mcDecMeta M)), (''spec'', into epSpec epSpec_update dec_spec),
      (''status'', into epStatus epStatus_update (dec_status M))]"

subsection \<open>Numbers within their Go types\<close>

definition fits :: "nat \<Rightarrow> int \<Rightarrow> bool" where
  "fits bits n \<longleftrightarrow> - (2 ^ (bits - 1)) \<le> n \<and> n < 2 ^ (bits - 1)"

definition typed_spec :: "ModelEndpointSpec \<Rightarrow> bool" where
  "typed_spec s \<longleftrightarrow> (\<forall>n. epMaxTokens s = Some n \<longrightarrow> fits 32 n)
     \<and> (\<forall>rl. RateLimit s = Some rl \<longrightarrow> fits 32 (RequestsPerMinute rl))"

definition typed_status :: "ModelEndpointStatus \<Rightarrow> bool" where
  "typed_status s \<longleftrightarrow> fits 64 (InvocationsToday s) \<and> fits 64 (TotalInputTokens s) \<and> fits 64 (TotalOutputTokens s)
     \<and> fits 64 (epObservedGeneration s)"

definition typed_endpoint :: "meta_codec \<Rightarrow> ModelEndpoint \<Rightarrow> bool" where
  "typed_endpoint M ep \<longleftrightarrow> mcMetaOk M (epMeta ep) \<and> typed_spec (epSpec ep) \<and> typed_status (epStatus ep)"

lemma dec_int_fits: "dec_int b ty j old = Inr n \<Longrightarrow> fits b old \<Longrightarrow> fits b n"
  using dec_int_range [of b ty j old n] by (auto simp: fits_def)

lemma dec_int_value: "fits b n \<Longrightarrow> dec_int b ty (JInt n) old = Inr n"
  by (simp add: fits_def)

lemma fits_zero [simp]: "fits 32 0" "fits 64 0"
  by (simp_all add: fits_def)

subsection \<open>Round trips\<close>

lemma budget_roundtrip: "dec_budget (enc_budget b) zero_budget = Inr b"
  by (cases b) (simp add: dec_budget_def enc_budget_def zero_budget_def enc_steps)

lemma rate_roundtrip: "fits 32 (RequestsPerMinute rl) \<Longrightarrow> dec_rate (enc_rate rl) zero_rate = Inr rl"
  by (cases rl) (simp add: dec_rate_def enc_rate_def zero_rate_def enc_steps fits_def)

lemma not_null [simp]: "enc_budget b \<noteq> JNull" "enc_rate rl \<noteq> JNull" "enc_spec s \<noteq> JNull"
  by (simp_all add: enc_budget_def enc_rate_def enc_spec_def)

lemma spec_roundtrip: "typed_spec s \<Longrightarrow> dec_spec (enc_spec s) zero_spec = Inr s"
  by (cases s) (simp add: dec_spec_def enc_spec_def zero_spec_def typed_spec_def enc_steps budget_roundtrip
      rate_roundtrip fits_def)

context meta_api begin

lemma status_roundtrip: "typed_status s \<Longrightarrow> dec_status M (enc_status M s) zero_status = Inr s"
  by (cases s) (simp add: dec_status_def enc_status_def zero_status_def typed_status_def enc_steps condition_roundtrip fits_def)

lemma endpoint_roundtrip: "typed_endpoint M ep \<Longrightarrow> dec_endpoint M (enc_endpoint M ep) (zero_endpoint M) = Inr ep"
  by (cases ep) (simp add: dec_endpoint_def enc_endpoint_def zero_endpoint_def typed_endpoint_def enc_steps
      meta_roundtrip spec_roundtrip status_roundtrip)

end

subsection \<open>Decoded numbers fit\<close>

lemma dec_rate_typed:
  assumes "dec_rate j old = Inr rl" "fits 32 (RequestsPerMinute old)"
  shows "fits 32 (RequestsPerMinute rl)"
  using assms(1) [unfolded dec_rate_def] assms(2)
  by (rule dec_exact_invariant) (auto dest!: into_InrD intro: dec_int_fits)

lemma dec_spec_typed:
  assumes "dec_spec j old = Inr s" "typed_spec old"
  shows "typed_spec s"
  using assms(1) [unfolded dec_spec_def] assms(2)
proof (rule dec_exact_invariant)
  fix n d v and t t' :: ModelEndpointSpec
  assume field: "(n, d) \<in> set [(''modelId'', into ModelId ModelId_update dec_string), (''region'', into Region Region_update dec_string),
      (''irsaRoleArn'', into IRSARoleArn IRSARoleArn_update dec_string),
      (''maxTokens'', into epMaxTokens epMaxTokens_update (dec_ptr 0 dec_int32)),
      (''costBudget'', into CostBudget CostBudget_update (dec_ptr zero_budget dec_budget)),
      (''rateLimit'', into RateLimit RateLimit_update (dec_ptr zero_rate dec_rate)),
      (''guardrailPolicyRef'', into GuardrailPolicyRef GuardrailPolicyRef_update (dec_ptr [] dec_string))]"
    and run: "d v t = Inr t'" and t: "typed_spec t"
  have tokens: "fits 32 m" if "dec_ptr 0 dec_int32 v (epMaxTokens t) = Inr (Some m)" for m
    by (rule dec_ptr_invariant [OF that]) (use t in \<open>auto simp: typed_spec_def intro: dec_int_fits\<close>)
  have rate: "fits 32 (RequestsPerMinute rl)" if "dec_ptr zero_rate dec_rate v (RateLimit t) = Inr (Some rl)" for rl
    by (rule dec_ptr_invariant [OF that]) (use t in \<open>auto simp: typed_spec_def zero_rate_def intro: dec_rate_typed\<close>)
  show "typed_spec t'" using field run t tokens rate
    by (auto simp: typed_spec_def dest!: into_InrD)
qed

lemma dec_status_typed:
  assumes "dec_status M j old = Inr s" "typed_status old"
  shows "typed_status s"
  using assms(1) [unfolded dec_status_def] assms(2)
  by (rule dec_exact_invariant) (auto simp: typed_status_def dest!: into_InrD intro: dec_int_fits)

context meta_api begin

lemma zero_typed: "typed_endpoint M (zero_endpoint M)"
  using meta_typed(1) by (simp add: typed_endpoint_def zero_endpoint_def typed_spec_def zero_spec_def typed_status_def zero_status_def)

lemma dec_endpoint_typed:
  assumes "dec_endpoint M j old = Inr ep" "typed_endpoint M old"
  shows "typed_endpoint M ep"
  using assms(1) [unfolded dec_endpoint_def] assms(2)
  by (rule dec_exact_invariant)
    (auto simp: typed_endpoint_def dest!: into_InrD intro: meta_typed(2) dec_spec_typed dec_status_typed)

end

subsection \<open>A codec of the modelled metadata\<close>

definition enc_meta :: "ObjectMeta \<Rightarrow> json" where
  "enc_meta m = enc_struct
     [(''name'', omit_string (Name m)), (''namespace'', omit_string (Namespace m)), (''generation'', omit_int (Generation m)),
      (''deletionTimestamp'', map_option JInt (DeletionTimestamp m)), (''finalizers'', omit_slice JStr (Finalizers m))]"

definition dec_meta :: "ObjectMeta decoder" where
  "dec_meta = dec_exact ''v1.ObjectMeta''
     [(''name'', into Name Name_update dec_string), (''namespace'', into Namespace Namespace_update dec_string),
      (''generation'', into Generation Generation_update dec_int64),
      (''deletionTimestamp'', into DeletionTimestamp DeletionTimestamp_update (dec_ptr 0 dec_int64)),
      (''finalizers'', into Finalizers Finalizers_update (dec_slice [] dec_string ''[]string''))]"

definition meta_fits :: "ObjectMeta \<Rightarrow> bool" where
  "meta_fits m \<longleftrightarrow> fits 64 (Generation m) \<and> (\<forall>t. DeletionTimestamp m = Some t \<longrightarrow> fits 64 t)"

definition zero_meta :: ObjectMeta where
  "zero_meta = \<lparr>Name = [], Namespace = [], Generation = 0, DeletionTimestamp = None, Finalizers = []\<rparr>"

fun status_text :: "ConditionStatus \<Rightarrow> string" where
  "status_text ConditionTrue = ''True''"
| "status_text ConditionFalse = ''False''"
| "status_text ConditionUnknown = ''Unknown''"

fun dec_condition_status :: "ConditionStatus decoder" where
  "dec_condition_status (JStr s) old =
     (if s = ''True'' then Inr ConditionTrue else if s = ''False'' then Inr ConditionFalse
      else if s = ''Unknown'' then Inr ConditionUnknown else Inl (JsonMismatch (JStr s) ''v1.ConditionStatus''))"
| "dec_condition_status JNull old = Inr old"
| "dec_condition_status j old = Inl (JsonMismatch j ''v1.ConditionStatus'')"

text \<open>Times of conditions as numbers of any size.\<close>

definition enc_condition :: "Condition \<Rightarrow> json" where
  "enc_condition c = enc_struct
     [(''type'', Some (JStr (cType c))), (''status'', Some (JStr (status_text (cStatus c)))),
      (''lastTransitionTime'', Some (JInt (LastTransitionTime c))), (''reason'', Some (JStr (cReason c))),
      (''message'', Some (JStr (cMessage c)))]"

fun dec_time :: "time decoder" where
  "dec_time (JInt n) old = Inr n"
| "dec_time JNull old = Inr old"
| "dec_time j old = Inl (JsonMismatch j ''v1.Time'')"

definition dec_condition :: "Condition decoder" where
  "dec_condition = dec_exact ''v1.Condition''
     [(''type'', into cType cType_update dec_string), (''status'', into cStatus cStatus_update dec_condition_status),
      (''lastTransitionTime'', into LastTransitionTime LastTransitionTime_update dec_time),
      (''reason'', into cReason cReason_update dec_string), (''message'', into cMessage cMessage_update dec_string)]"

definition plain_codec :: meta_codec where
  "plain_codec =
     \<lparr>mcEncMeta = enc_meta, mcDecMeta = dec_meta, mcZeroMeta = zero_meta, mcMetaOk = meta_fits,
      mcEncCondition = enc_condition, mcDecCondition = dec_condition,
      mcZeroCondition = \<lparr>cType = [], cStatus = ConditionUnknown, cReason = [], cMessage = [], LastTransitionTime = 0\<rparr>\<rparr>"


interpretation plain: meta_api plain_codec
proof unfold_locales
  fix m and c :: Condition and j old
  show "mcMetaOk plain_codec m \<Longrightarrow> mcDecMeta plain_codec (mcEncMeta plain_codec m) (mcZeroMeta plain_codec) = Inr m"
    by (cases m) (simp add: plain_codec_def dec_meta_def enc_meta_def zero_meta_def meta_fits_def enc_steps fits_def)
  show "mcMetaOk plain_codec (mcZeroMeta plain_codec)" by (simp add: plain_codec_def meta_fits_def zero_meta_def)
  show "mcDecCondition plain_codec (mcEncCondition plain_codec c) (mcZeroCondition plain_codec) = Inr c"
    by (cases c; cases "cStatus c") (simp_all add: plain_codec_def dec_condition_def enc_condition_def enc_steps)
  assume run: "mcDecMeta plain_codec j old = Inr m" and ok: "mcMetaOk plain_codec old"
  have "meta_fits m"
  proof (rule dec_exact_invariant [where P = meta_fits])
    show "dec_exact ''v1.ObjectMeta''
     [(''name'', into Name Name_update dec_string), (''namespace'', into Namespace Namespace_update dec_string),
      (''generation'', into Generation Generation_update dec_int64),
      (''deletionTimestamp'', into DeletionTimestamp DeletionTimestamp_update (dec_ptr 0 dec_int64)),
      (''finalizers'', into Finalizers Finalizers_update (dec_slice [] dec_string ''[]string''))] j old = Inr m"
      using run by (simp add: plain_codec_def dec_meta_def)
    show "meta_fits old" using ok by (simp add: plain_codec_def)
    fix n d v and t t' :: ObjectMeta
    assume field: "(n, d) \<in> set [(''name'', into Name Name_update dec_string), (''namespace'', into Namespace Namespace_update dec_string),
      (''generation'', into Generation Generation_update dec_int64),
      (''deletionTimestamp'', into DeletionTimestamp DeletionTimestamp_update (dec_ptr 0 dec_int64)),
      (''finalizers'', into Finalizers Finalizers_update (dec_slice [] dec_string ''[]string''))]"
      and step: "d v t = Inr t'" and t: "meta_fits t"
    have "fits 64 x" if "dec_ptr 0 dec_int64 v (DeletionTimestamp t) = Inr (Some x)" for x
      by (rule dec_ptr_invariant [OF that]) (use t in \<open>auto simp: meta_fits_def intro: dec_int_fits\<close>)
    then show "meta_fits t'" using field step t by (auto simp: meta_fits_def dest!: into_InrD intro: dec_int_fits)
  qed
  then show "mcMetaOk plain_codec m" by (simp add: plain_codec_def)
qed

end
