(* ===== verification/Status_Patch.thy ===== *)
theory Status_Patch
  imports Watch_Loop Api_Json "HOL-Library.AList"
begin

section \<open>Status patches among concurrent writers\<close>

text \<open>
  A reconciliation reads an endpoint, waits for Bedrock and then sends the fields of the status that it
  changed as a JSON merge patch (client.MergeFrom). Others may write the endpoint between the read and
  the patch. The first part shows that \<open>merge_endpoint_status\<close> of the API server's contract is what a
  merge patch does to the documents of the struct tags; the library's merge is a parameter with the
  locale \<open>merge_patch_api\<close>, which is interpreted on the algorithm of RFC 7386. The second part shows what
  of such writes survives a reconciliation.
\<close>

subsection \<open>Merge patches of flat documents\<close>

fun flat_value :: "json \<Rightarrow> bool" where
  "flat_value JNull = False"
| "flat_value (JObj kvs) = False"
| "flat_value j = True"

definition flat_doc :: "(string \<times> json) list \<Rightarrow> bool" where
  "flat_doc kvs \<longleftrightarrow> distinct (map fst kvs) \<and> (\<forall>(k, v) \<in> set kvs. flat_value v)"

locale merge_patch_api =
  fixes mp :: "json \<Rightarrow> json \<Rightarrow> json \<Rightarrow> json" \<comment> \<open>the base, the object, the stored document\<close>
  assumes merge_members: "flat_doc b \<Longrightarrow> flat_doc n \<Longrightarrow> flat_doc s \<Longrightarrow>
    \<exists>kvs. mp (JObj b) (JObj n) (JObj s) = JObj kvs \<and> distinct (map fst kvs)
      \<and> (\<forall>k. map_of kvs k = (if map_of n k = map_of b k then map_of s k else map_of n k))"

text \<open>RFC 7386: a null deletes a member, an object is merged into the member, anything else replaces it.\<close>

fun merge_apply :: "json \<Rightarrow> json \<Rightarrow> json" where
  "merge_apply (JObj ps) t = JObj (fold (\<lambda>p acc.
     if snd p = JNull then AList.delete (fst p) acc
     else AList.update (fst p) (merge_apply (snd p) (case map_of acc (fst p) of Some u \<Rightarrow> u | None \<Rightarrow> JNull)) acc)
     ps (case t of JObj kvs \<Rightarrow> kvs | _ \<Rightarrow> []))"
| "merge_apply v t = v"

text \<open>The patch that leads from one document to another: the members that differ, nulls for those gone.\<close>

fun merge_diff :: "json \<Rightarrow> json \<Rightarrow> json option" where
  "merge_diff (JObj b) (JObj n) =
     (let changed = concat (map (\<lambda>p. case map_of b (fst p) of
              None \<Rightarrow> [p]
            | Some u \<Rightarrow> (case merge_diff u (snd p) of None \<Rightarrow> [] | Some d \<Rightarrow> [(fst p, d)])) n);
          gone = map (\<lambda>p. (fst p, JNull)) (filter (\<lambda>p. map_of n (fst p) = None) b)
      in if changed @ gone = [] then None else Some (JObj (changed @ gone)))"
| "merge_diff u v = (if u = v then None else Some v)"

definition rfc_merge :: "json \<Rightarrow> json \<Rightarrow> json \<Rightarrow> json" where
  "rfc_merge b n s = (case merge_diff b n of None \<Rightarrow> s | Some d \<Rightarrow> merge_apply d s)"


text \<open>On flat documents the algorithm works member by member.\<close>

lemma merge_diff_flat: "flat_value u \<Longrightarrow> flat_value v \<Longrightarrow> merge_diff u v = (if u = v then None else Some v)"
  by (cases u; cases v) simp_all

lemma merge_apply_flat: "flat_value v \<Longrightarrow> merge_apply v t = v"
  by (cases v) simp_all

lemma flat_doc_Cons: "flat_doc (p # kvs) \<longleftrightarrow> fst p \<notin> fst ` set kvs \<and> flat_value (snd p) \<and> flat_doc kvs"
  by (auto simp: flat_doc_def split: prod.splits)

lemma flat_doc_member: "flat_doc kvs \<Longrightarrow> map_of kvs k = Some v \<Longrightarrow> flat_value v"
  using map_of_SomeD by (fastforce simp: flat_doc_def)

definition changed_members :: "(string \<times> json) list \<Rightarrow> (string \<times> json) list \<Rightarrow> (string \<times> json) list" where
  "changed_members b n = filter (\<lambda>p. map_of b (fst p) \<noteq> Some (snd p)) n"

lemma merge_diff_members:
  assumes "flat_doc b" "flat_doc n"
  shows "concat (map (\<lambda>p. case map_of b (fst p) of None \<Rightarrow> [p]
      | Some u \<Rightarrow> (case merge_diff u (snd p) of None \<Rightarrow> [] | Some d \<Rightarrow> [(fst p, d)])) n) = changed_members b n"
  using assms(2)
  by (induction n) (auto simp: changed_members_def flat_doc_Cons merge_diff_flat flat_doc_member [OF assms(1)]
      split: option.splits)

lemma map_of_changed:
  assumes "distinct (map fst n)"
  shows "map_of (changed_members b n) k = (if map_of n k = map_of b k then None else map_of n k)"
proof (cases "map_of n k")
  case None
  then have "k \<notin> fst ` set (changed_members b n)" by (auto simp: changed_members_def map_of_eq_None_iff)
  then have "map_of (changed_members b n) k = None" by (simp add: map_of_eq_None_iff)
  with None show ?thesis by simp
next
  case (Some v)
  have d: "distinct (map fst (changed_members b n))"
    using assms by (simp add: changed_members_def distinct_map_filter)
  have "(k, v) \<in> set n" using Some by (rule map_of_SomeD)
  show ?thesis
  proof (cases "map_of b k = Some v")
    case True
    have "u = v" if "(k, u) \<in> set n" for u using that assms Some by (metis map_of_eq_Some_iff option.inject)
    then have "k \<notin> fst ` set (changed_members b n)" using True by (force simp: changed_members_def)
    with True Some show ?thesis by (simp add: map_of_eq_None_iff [THEN iffD2])
  next
    case False
    with \<open>(k, v) \<in> set n\<close> have "(k, v) \<in> set (changed_members b n)" by (simp add: changed_members_def)
    with d have "map_of (changed_members b n) k = Some v" by simp
    with False Some show ?thesis by auto
  qed
qed

definition apply_member :: "string \<times> json \<Rightarrow> (string \<times> json) list \<Rightarrow> (string \<times> json) list" where
  "apply_member p acc = (if snd p = JNull then AList.delete (fst p) acc
     else AList.update (fst p) (merge_apply (snd p) (case map_of acc (fst p) of Some u \<Rightarrow> u | None \<Rightarrow> JNull)) acc)"

lemma merge_apply_members: "merge_apply (JObj ps) (JObj kvs) = JObj (fold apply_member ps kvs)"
  by (simp add: apply_member_def [abs_def])

lemma apply_members:
  assumes "distinct (map fst ps)" "\<forall>p \<in> set ps. snd p = JNull \<or> flat_value (snd p)" "distinct (map fst acc)"
  shows "distinct (map fst (fold apply_member ps acc))
    \<and> map_of (fold apply_member ps acc) k = (case map_of ps k of
        None \<Rightarrow> map_of acc k | Some v \<Rightarrow> if v = JNull then None else Some v)"
  using assms
proof (induction ps arbitrary: acc)
  case (Cons p ps)
  have d: "distinct (map fst (apply_member p acc))"
    using Cons.prems(3) by (simp add: apply_member_def distinct_update distinct_delete)
  have m: "map_of (apply_member p acc) k = (if k = fst p then (if snd p = JNull then None else Some (snd p)) else map_of acc k)"
    using Cons.prems(2) by (auto simp: apply_member_def merge_apply_flat delete_conv' update_conv')
  have "fst p \<notin> fst ` set ps" using Cons.prems(1) by simp
  then have "map_of ps (fst p) = None" by (simp add: map_of_eq_None_iff)
  with Cons.IH [OF _ _ d] Cons.prems m show ?case by (cases p) (auto split: option.splits)
qed simp

interpretation rfc: merge_patch_api rfc_merge
proof
  fix b n s :: "(string \<times> json) list"
  assume flat: "flat_doc b" "flat_doc n" "flat_doc s"
  let ?gone = "map (\<lambda>p. (fst p, JNull)) (filter (\<lambda>p. map_of n (fst p) = None) b)"
  let ?ps = "changed_members b n @ ?gone"
  have diff: "merge_diff (JObj b) (JObj n) = (if ?ps = [] then None else Some (JObj ?ps))"
    using flat by (simp only: merge_diff.simps merge_diff_members Let_def)
  have run: "rfc_merge (JObj b) (JObj n) (JObj s) = JObj (fold apply_member ?ps s)"
    by (cases "?ps = []") (simp_all only: rfc_merge_def diff merge_apply_members if_True if_False option.case fold.simps id_apply refl)
  have gone: "map_of ?gone k = (if map_of n k = None \<and> map_of b k \<noteq> None then Some JNull else None)" for k
    by (induction b) auto
  have ps: "map_of ?ps k = (if map_of n k = map_of b k then None
      else case map_of n k of Some v \<Rightarrow> Some v | None \<Rightarrow> Some JNull)" for k
    using flat(2) gone [of k] by (auto simp: map_add_def map_of_changed flat_doc_def split: option.splits)
  have "distinct (map fst ?ps)"
    using flat by (auto simp: flat_doc_def changed_members_def distinct_map_filter comp_def map_of_eq_None_iff image_iff)
  moreover have "\<forall>p \<in> set ?ps. snd p = JNull \<or> flat_value (snd p)"
    using flat(2) by (auto simp: changed_members_def flat_doc_def)
  moreover have "distinct (map fst s)" using flat(3) by (simp add: flat_doc_def)
  ultimately have "distinct (map fst (fold apply_member ?ps s))
      \<and> map_of (fold apply_member ?ps s) k = (case map_of ?ps k of
          None \<Rightarrow> map_of s k | Some v \<Rightarrow> if v = JNull then None else Some v)" for k
    by (rule apply_members)
  moreover have "flat_value v" if "map_of n k = Some v" for k v using flat_doc_member [OF flat(2) that] .
  ultimately show "\<exists>kvs. rfc_merge (JObj b) (JObj n) (JObj s) = JObj kvs \<and> distinct (map fst kvs)
      \<and> (\<forall>k. map_of kvs k = (if map_of n k = map_of b k then map_of s k else map_of n k))"
    unfolding run ps by (intro exI conjI) (fastforce split: option.splits)+
qed


subsection \<open>The status of an endpoint under a merge patch\<close>

text \<open>The members of an encoded status, by their tags.\<close>

definition status_members :: "meta_codec \<Rightarrow> ModelEndpointStatus \<Rightarrow> (string \<times> json option) list" where
  "status_members M s =
     [(''available'', Some (JBool (Available s))), (''conditions'', omit_slice (mcEncCondition M) (epConditions s)),
      (''costThisMonth'', omit_string (CostThisMonth s)), (''costToday'', omit_string (CostToday s)),
      (''invocationsToday'', omit_int (InvocationsToday s)), (''totalInputTokens'', omit_int (TotalInputTokens s)),
      (''totalOutputTokens'', omit_int (TotalOutputTokens s)), (''serviceName'', omit_string (ServiceName s)),
      (''observedGeneration'', omit_int (epObservedGeneration s))]"

lemma enc_status_members: "enc_status M s = enc_struct (status_members M s)"
  by (simp add: enc_status_def status_members_def)

lemma status_tags: "map fst (status_members M s) = [''available'', ''conditions'', ''costThisMonth'', ''costToday'',
    ''invocationsToday'', ''totalInputTokens'', ''totalOutputTokens'', ''serviceName'', ''observedGeneration'']"
  by (simp add: status_members_def)

definition written :: "(string \<times> json option) list \<Rightarrow> (string \<times> json) list" where
  "written fs = List.map_filter (\<lambda>(k, v). map_option (Pair k) v) fs"

lemma written_keys: "set (map fst (written fs)) \<subseteq> set (map fst fs)"
  by (induction fs) (auto simp: written_def map_filter_simps split: option.splits)

lemma written_distinct: "distinct (map fst fs) \<Longrightarrow> distinct (map fst (written fs))"
proof (induction fs)
  case (Cons f fs)
  then show ?case using written_keys [of fs]
    by (cases f) (auto simp: written_def map_filter_simps split: option.splits)
qed (simp add: written_def map_filter_simps)

lemma map_of_written: "distinct (map fst fs) \<Longrightarrow> map_of (written fs) k = Option.bind (map_of fs k) id"
proof (induction fs)
  case (Cons f fs)
  obtain l v where f: "f = (l, v)" by fastforce
  have "map_of (written fs) l = None" using Cons.prems f written_keys [of fs] by (auto simp: map_of_eq_None_iff)
  then show ?case using Cons f by (cases v) (auto simp: written_def map_filter_simps)
qed (simp add: written_def map_filter_simps)

lemma status_written_flat: "flat_doc (written (status_members M s))"
proof -
  have "distinct (map fst (status_members M s))" by (simp add: status_tags)
  then have "distinct (map fst (written (status_members M s)))" by (rule written_distinct)
  moreover have "\<forall>(k, v) \<in> set (written (status_members M s)). flat_value v"
    by (auto simp: written_def status_members_def map_filter_simps omit_string_def omit_int_def omit_slice_def)
  ultimately show ?thesis by (simp add: flat_doc_def)
qed

text \<open>Each field can be told from its member, so that equal members are equal fields.\<close>

lemma omit_eq [simp]: "omit_string x = omit_string y \<longleftrightarrow> x = y" "omit_int m = omit_int n \<longleftrightarrow> m = n"
  by (auto simp: omit_string_def omit_int_def)

context meta_api begin

lemma condition_eq: "mcEncCondition M c = mcEncCondition M d \<longleftrightarrow> c = d"
  using condition_roundtrip by (metis sum.inject(2))

lemma omit_conditions_eq: "omit_slice (mcEncCondition M) xs = omit_slice (mcEncCondition M) ys \<longleftrightarrow> xs = ys"
  using inj_map_eq_map [of "mcEncCondition M" xs ys] by (auto simp: omit_slice_def inj_def condition_eq)

lemma merged_members:
  "Option.bind (map_of (status_members M (merge_endpoint_status b n s)) k) id =
   (if Option.bind (map_of (status_members M n) k) id = Option.bind (map_of (status_members M b) k) id
    then Option.bind (map_of (status_members M s) k) id else Option.bind (map_of (status_members M n) k) id)"
  by (simp add: status_members_def merge_endpoint_status_def merge_field_def omit_conditions_eq)

end


text \<open>Decoding a document whose members are those of a status gives that status, in whatever order.\<close>

lemma dec_exact_fold:
  assumes "\<And>k v d s. (k, v) \<in> set kvs \<Longrightarrow> map_of fs k = Some d \<Longrightarrow> d v s = Inr (A k s)"
    and "\<And>k s. map_of fs k = None \<Longrightarrow> A k s = s"
  shows "dec_exact ty fs (JObj kvs) s = Inr (fold A (map fst kvs) s)"
  using assms(1)
proof (induction kvs arbitrary: s)
  case (Cons kv kvs)
  obtain k v where kv: "kv = (k, v)" by fastforce
  have IH: "dec_exact ty fs (JObj kvs) s' = Inr (fold A (map fst kvs) s')" for s'
    by (rule Cons.IH, rule Cons.prems) simp_all
  show ?case
  proof (cases "map_of fs k")
    case None
    then show ?thesis using IH assms(2) kv by simp
  next
    case (Some d)
    then have "d v s = Inr (A k s)" using Cons.prems kv by simp
    then show ?thesis using IH Some kv by simp
  qed
qed simp

lemma fold_field:
  assumes "\<And>k s. get (A k s) = (if k = key then c else get s)"
  shows "get (fold A ks s) = (if key \<in> set ks then c else get s)"
  by (induction ks arbitrary: s) (auto simp: assms)

definition copy_field :: "ModelEndpointStatus \<Rightarrow> string \<Rightarrow> ModelEndpointStatus \<Rightarrow> ModelEndpointStatus" where
  "copy_field t k s =
     (if k = ''available'' then s\<lparr>Available := Available t\<rparr>
      else if k = ''conditions'' then s\<lparr>epConditions := epConditions t\<rparr>
      else if k = ''costThisMonth'' then s\<lparr>CostThisMonth := CostThisMonth t\<rparr>
      else if k = ''costToday'' then s\<lparr>CostToday := CostToday t\<rparr>
      else if k = ''invocationsToday'' then s\<lparr>InvocationsToday := InvocationsToday t\<rparr>
      else if k = ''totalInputTokens'' then s\<lparr>TotalInputTokens := TotalInputTokens t\<rparr>
      else if k = ''totalOutputTokens'' then s\<lparr>TotalOutputTokens := TotalOutputTokens t\<rparr>
      else if k = ''serviceName'' then s\<lparr>ServiceName := ServiceName t\<rparr>
      else if k = ''observedGeneration'' then s\<lparr>epObservedGeneration := epObservedGeneration t\<rparr>
      else s)"

context meta_api begin

lemma dec_conditions: "mapE (\<lambda>j. mcDecCondition M j (mcZeroCondition M)) (map (mcEncCondition M) xs) = Inr xs"
  by (induction xs) (simp_all add: condition_roundtrip)

lemma copied_field:
  assumes "distinct (map fst kvs)" "\<And>k. map_of kvs k = Option.bind (map_of (status_members M t) k) id"
    and "\<And>k s. get (copy_field t k s) = (if k = key then get t else get s)"
    and "Option.bind (map_of (status_members M t) key) id = None \<Longrightarrow> get zero_status = get t"
  shows "get (fold (copy_field t) (map fst kvs) zero_status) = get t"
proof -
  have "get (fold (copy_field t) (map fst kvs) zero_status) =
      (if key \<in> set (map fst kvs) then get t else get zero_status)"
    by (rule fold_field) (rule assms(3))
  moreover have "key \<notin> set (map fst kvs) \<Longrightarrow> map_of kvs key = None" by (simp add: map_of_eq_None_iff)
  ultimately show ?thesis using assms(2) [of key] assms(4) by auto
qed

lemma dec_status_members:
  assumes "distinct (map fst kvs)" "\<And>k. map_of kvs k = Option.bind (map_of (status_members M t) k) id" "typed_status t"
  shows "dec_status M (JObj kvs) zero_status = Inr t"
proof -
  let ?s = "fold (copy_field t) (map fst kvs) zero_status"
  note field = copied_field [OF assms(1,2)]
  have "dec_status M (JObj kvs) zero_status = Inr ?s"
    unfolding dec_status_def
  proof (rule dec_exact_fold)
    fix k v and d :: "ModelEndpointStatus decoder" and s
    assume "(k, v) \<in> set kvs"
      and d: "map_of [(''available'', into Available Available_update dec_bool),
      (''conditions'', into epConditions epConditions_update (dec_slice (mcZeroCondition M) (mcDecCondition M) ''[]v1.Condition'')),
      (''costThisMonth'', into CostThisMonth CostThisMonth_update dec_string),
      (''costToday'', into CostToday CostToday_update dec_string),
      (''invocationsToday'', into InvocationsToday InvocationsToday_update dec_int64),
      (''totalInputTokens'', into TotalInputTokens TotalInputTokens_update dec_int64),
      (''totalOutputTokens'', into TotalOutputTokens TotalOutputTokens_update dec_int64),
      (''serviceName'', into ServiceName ServiceName_update dec_string),
      (''observedGeneration'', into epObservedGeneration epObservedGeneration_update dec_int64)] k = Some d"
    then have "Option.bind (map_of (status_members M t) k) id = Some v"
      using assms(1,2) by (metis map_of_eq_Some_iff)
    with d assms(3) show "d v s = Inr (copy_field t k s)"
      by (auto simp: status_members_def copy_field_def into_def typed_status_def fits_def omit_string_def omit_int_def
          omit_slice_def dec_conditions split: if_splits)
  qed (drule map_of_eq_None_iff [THEN iffD1], simp add: copy_field_def)
  moreover have "?s = t"
    by (intro ModelEndpointStatus.equality
        field [where get = Available and key = "''available''"]
        field [where get = epConditions and key = "''conditions''"]
        field [where get = CostThisMonth and key = "''costThisMonth''"]
        field [where get = CostToday and key = "''costToday''"]
        field [where get = InvocationsToday and key = "''invocationsToday''"]
        field [where get = TotalInputTokens and key = "''totalInputTokens''"]
        field [where get = TotalOutputTokens and key = "''totalOutputTokens''"]
        field [where get = ServiceName and key = "''serviceName''"]
        field [where get = epObservedGeneration and key = "''observedGeneration''"])
      (simp_all add: copy_field_def status_members_def zero_status_def omit_string_def omit_int_def omit_slice_def split: if_splits)
  ultimately show ?thesis by simp
qed

end


context meta_api begin

text \<open>What the merge patch does to the stored document is \<open>merge_endpoint_status\<close> on the status it denotes.\<close>

lemma merge_patch_status:
  assumes "merge_patch_api mp" "typed_status n" "typed_status s"
  shows "dec_status M (mp (enc_status M b) (enc_status M n) (enc_status M s)) zero_status = Inr (merge_endpoint_status b n s)"
proof -
  have doc: "enc_status M x = JObj (written (status_members M x))" for x
    by (simp add: enc_status_members enc_struct_def written_def)
  have tags: "distinct (map fst (status_members M x))" for x by (simp add: status_tags)
  obtain kvs where kvs: "mp (enc_status M b) (enc_status M n) (enc_status M s) = JObj kvs" "distinct (map fst kvs)"
    and members: "\<And>k. map_of kvs k = (if map_of (written (status_members M n)) k = map_of (written (status_members M b)) k
      then map_of (written (status_members M s)) k else map_of (written (status_members M n)) k)"
    using merge_patch_api.merge_members [OF assms(1) status_written_flat status_written_flat status_written_flat] doc by metis
  have "map_of kvs k = Option.bind (map_of (status_members M (merge_endpoint_status b n s)) k) id" for k
    using members [of k] by (simp only: map_of_written [OF tags] merged_members)
  moreover have "typed_status (merge_endpoint_status b n s)"
    using assms(2,3) by (simp add: typed_status_def merge_endpoint_status_def merge_field_def)
  ultimately show ?thesis using dec_status_members [OF kvs(2)] kvs(1) by simp
qed

end


subsection \<open>A cluster in which others write meanwhile\<close>

definition busy_checker :: "(Store \<Rightarrow> Store) \<Rightarrow> 'w aws \<Rightarrow> 'w operator_world checker" where
  "busy_checker others sdk =
     \<lparr>cHealthCheck = (\<lambda>key m w.
        let (h, w') = cHealthCheck (bedrock_checker sdk) key m w in (h, w'\<lparr>objects := others (objects w')\<rparr>)),
      cInvalidateCache = cInvalidateCache (bedrock_checker sdk)\<rparr>"

lemma has_client_objects [simp]: "has_client (w\<lparr>objects := x\<rparr>) = has_client w"
  by (simp add: has_client_def fun_eq_iff)

interpretation busy: endpoint_calls "cluster_kube :: 'w operator_world kube" objects "busy_checker others sdk" has_client
  for others :: "Store \<Rightarrow> Store" and sdk :: "'w aws"
proof (intro endpoint_calls.intro endpoint_calls_axioms.intro)
  show "kube_api (cluster_kube :: 'w operator_world kube) objects" by unfold_locales
  fix key k m obj and w :: "'w operator_world"
  show "objects (cInvalidateCache (busy_checker others sdk) key w) = objects w"
    by (simp add: busy_checker_def memory.evict_frame)
  show "hrAvailable (fst (cHealthCheck (busy_checker others sdk) key m w)) \<longleftrightarrow>
      hrReason (fst (cHealthCheck (busy_checker others sdk) key m w)) = ''ModelAvailable''"
    using memory.health_reason [of sdk key m w] by (simp add: busy_checker_def case_prod_beta Let_def)
  show "has_client (cInvalidateCache (busy_checker others sdk) key w) = (has_client w)(key := False)"
    by (simp add: busy_checker_def memory.evict_cached)
  show "has_client (snd (rGet (epAPI cluster_kube) k w)) = has_client w" by (rule memory.get_cached)
  show "has_client (snd (rUpdate (epAPI cluster_kube) obj w)) = has_client w" by (rule memory.update_cached)
qed

text \<open>A cost reporter and the owner of the endpoint, who both write while Bedrock is asked.\<close>

definition reporter :: "Store \<Rightarrow> Store" where
  "reporter st = st\<lparr>stEndpoints := (\<lambda>k. map_option (\<lambda>ep. ep\<lparr>
     epMeta := (epMeta ep)\<lparr>Generation := Generation (epMeta ep) + 1\<rparr>,
     epSpec := (epSpec ep)\<lparr>epMaxTokens := Some 64\<rparr>,
     epStatus := (epStatus ep)\<lparr>CostToday := ''1.50''\<rparr>\<rparr>) (stEndpoints st k))\<rparr>"

definition busy_operator :: "nat operator_world ModelEndpointReconciler" where
  "busy_operator = demo_operator\<lparr>epBedrock := busy_checker reporter sample_aws\<rparr>"

text \<open>C27: a reconciliation does not undo what others write while it waits for Bedrock. Whatever
  endpoint is stored when the health check returns, a successful call leaves it with its spec and
  metadata and with its cost and token figures, and adds to the status what was found for the endpoint
  as it was read: its generation, and, unless somebody else wrote these fields too, the verdict and
  both conditions. The conditions are one field: of a condition of another type that somebody writes
  meanwhile, the one that was read survives if the call changes its own conditions.\<close>

theorem foreign_writes_survive:
  assumes "endpoint_calls (epClient r) store (epBedrock r) cached"
    and "stEndpoints (store w) req = Some ep" "IsZero (DeletionTimestamp (epMeta ep))"
      "FinalizerName \<in> set (Finalizers (epMeta ep))"
    and "ModelEndpoint_Reconcile r req w = ((res, None), ops, w')"
    and "cHealthCheck (epBedrock r) (endpoint_key ep) (ModelId (epSpec ep)) (snd (rGet (epAPI (epClient r)) req w)) = (h, w2)"
    and "stEndpoints (store w2) req = Some cur"
  shows "\<exists>st. stEndpoints (store w') = (stEndpoints (store w2))(req \<mapsto> cur\<lparr>epStatus := st\<rparr>)
    \<and> CostThisMonth st = CostThisMonth (epStatus cur) \<and> CostToday st = CostToday (epStatus cur)
    \<and> InvocationsToday st = InvocationsToday (epStatus cur)
    \<and> TotalInputTokens st = TotalInputTokens (epStatus cur) \<and> TotalOutputTokens st = TotalOutputTokens (epStatus cur)
    \<and> (Available (epStatus cur) = Available (epStatus ep) \<longrightarrow> Available st = hrAvailable h)
    \<and> (ServiceName (epStatus cur) = ServiceName (epStatus ep) \<longrightarrow> ServiceName st = ''model-'' @ Name (epMeta ep))
    \<and> (epObservedGeneration (epStatus cur) = epObservedGeneration (epStatus ep) \<longrightarrow>
        epObservedGeneration st = Generation (epMeta ep))
    \<and> (epConditions (epStatus cur) = epConditions (epStatus ep) \<longrightarrow>
        (\<forall>ty \<in> {ConditionBedrockReachable, ConditionReady}. \<exists>c. condition_of ty (epConditions st) = Some c
          \<and> cStatus c = conditionStatus (hrAvailable h) \<and> cReason c = hrReason h))
    \<and> (epConditions st = epConditions (epStatus cur) \<or>
        (\<forall>ty. condition_of ty (epConditions st) = condition_of ty (epConditions (epStatus ep))
          \<or> ty = ConditionBedrockReachable \<or> ty = ConditionReady))"
proof -
  obtain t1 t2 where st: "stEndpoints (store w') = (stEndpoints (store w2))(req \<mapsto> cur\<lparr>epStatus :=
      merge_endpoint_status (epStatus ep) (endpoint_status ep h (service_name ep) t1 t2) (epStatus cur)\<rparr>)"
    using endpoint_calls.synced_calls [OF assms(1,5) refl refl assms(2-4,6,7)] by blast
  have conds: "\<exists>c. condition_of ty (epConditions (endpoint_status ep h (service_name ep) t1 t2)) = Some c
      \<and> cStatus c = conditionStatus (hrAvailable h) \<and> cReason c = hrReason h"
    if "ty \<in> {ConditionBedrockReachable, ConditionReady}" for ty
    using endpoint_status_condition [OF that] by blast
  have rest: "condition_of ty (epConditions (endpoint_status ep h (service_name ep) t1 t2)) = condition_of ty (epConditions (epStatus ep))
      \<or> ty = ConditionBedrockReachable \<or> ty = ConditionReady" for ty
    using endpoint_status_other [of ty ep h] by blast
  let ?st = "merge_endpoint_status (epStatus ep) (endpoint_status ep h (service_name ep) t1 t2) (epStatus cur)"
  have list: "epConditions ?st = epConditions (epStatus cur)
      \<or> epConditions ?st = epConditions (endpoint_status ep h (service_name ep) t1 t2)"
    by (simp add: merge_endpoint_status_def merge_field_def)
  show ?thesis
  proof (rule exI, intro conjI)
    show "stEndpoints (store w') = (stEndpoints (store w2))(req \<mapsto> cur\<lparr>epStatus := ?st\<rparr>)" by (rule st)
    show "epConditions ?st = epConditions (epStatus cur) \<or>
        (\<forall>ty. condition_of ty (epConditions ?st) = condition_of ty (epConditions (epStatus ep))
          \<or> ty = ConditionBedrockReachable \<or> ty = ConditionReady)"
      using list rest by metis
  qed (use conds in \<open>simp_all add: merge_endpoint_status_def service_name_def\<close>)
qed

lemma busy_run:
  fixes w :: "nat operator_world"
  assumes "w = demo_world (demo_endpoint [FinalizerName] None) []"
  shows "fst (ModelEndpoint_Reconcile busy_operator demo_req w) = (zero_result\<lparr>RequeueAfter := requeueSteadyState\<rparr>, None)"
    "hrAvailable (fst (cHealthCheck (epBedrock busy_operator) (endpoint_key (demo_endpoint [FinalizerName] None))
      (ModelId (epSpec (demo_endpoint [FinalizerName] None))) (snd (rGet (epAPI (epClient busy_operator)) demo_req w))))"
    "\<exists>cur. stEndpoints (objects (snd (cHealthCheck (epBedrock busy_operator) (endpoint_key (demo_endpoint [FinalizerName] None))
      (ModelId (epSpec (demo_endpoint [FinalizerName] None))) (snd (rGet (epAPI (epClient busy_operator)) demo_req w))))) demo_req
       = Some cur \<and> CostToday (epStatus cur) = ''1.50'' \<and> Generation (epMeta cur) = 3
      \<and> Available (epStatus cur) = False \<and> epObservedGeneration (epStatus cur) = 0"
  unfolding assms
  by (simp_all add: busy_operator_def busy_checker_def reporter_def demo_operator_def demo_run_defs)

theorem foreign_writes_survive_witness:
  "\<exists>e. stEndpoints (objects (snd (snd (ModelEndpoint_Reconcile busy_operator demo_req
      (demo_world (demo_endpoint [FinalizerName] None) []))))) demo_req = Some e
    \<and> CostToday (epStatus e) = ''1.50'' \<and> Generation (epMeta e) = 3
    \<and> Available (epStatus e) \<and> epObservedGeneration (epStatus e) = 2"
proof -
  let ?w = "demo_world (demo_endpoint [FinalizerName] None) []" and ?ep = "demo_endpoint [FinalizerName] None"
  obtain ops w' where run: "ModelEndpoint_Reconcile busy_operator demo_req ?w =
      ((zero_result\<lparr>RequeueAfter := requeueSteadyState\<rparr>, None), ops, w')"
    using busy_run(1) [OF refl] by (metis prod.collapse)
  obtain h w2 where check: "cHealthCheck (epBedrock busy_operator) (endpoint_key ?ep) (ModelId (epSpec ?ep))
      (snd (rGet (epAPI (epClient busy_operator)) demo_req ?w)) = (h, w2)"
    by fastforce
  obtain cur where cur: "stEndpoints (objects w2) demo_req = Some cur" "CostToday (epStatus cur) = ''1.50''"
    "Generation (epMeta cur) = 3" "Available (epStatus cur) = False" "epObservedGeneration (epStatus cur) = 0"
    and h: "hrAvailable h"
    using busy_run(2,3) [OF refl] unfolding check by auto
  have env: "endpoint_calls (epClient busy_operator) objects (epBedrock busy_operator) has_client"
    by (simp add: busy_operator_def demo_operator_def operator_reconciler_def busy.endpoint_calls_axioms)
  have ep: "stEndpoints (objects ?w) demo_req = Some ?ep" "IsZero (DeletionTimestamp (epMeta ?ep))"
    "FinalizerName \<in> set (Finalizers (epMeta ?ep))" "Available (epStatus ?ep) = False" "epObservedGeneration (epStatus ?ep) = 0"
    "Generation (epMeta ?ep) = 2"
    by (simp_all add: demo_defs)
  from foreign_writes_survive [OF env ep(1-3) run check cur(1)] show ?thesis
    using run cur h ep(4-6) by auto
qed

end
