(* ===== verification/Resync_Loops.thy ===== *)
theory Resync_Loops
  imports Watch_Loop Guardrail_Controller PromptTemplate_Controller
begin

section \<open>The loops of the policy and the template controllers\<close>

text \<open>
  The other two controllers watch their own type only, without a predicate, as SetupWithManager builds
  them: their status writes wake them again, and nothing else does but the owner's edits and the timer.
  This theory shows when they rest, what a policy's loop sends to Bedrock meanwhile, and that a template
  does not notice what becomes of its endpoint.
\<close>

context watch_api begin

lemma W_policies [simp]:
  "W GuardrailPolicy_watches (OPolicy z) = {keyOf (gpMeta z)}" "W GuardrailPolicy_watches (OEndpoint x) = {}"
  "W GuardrailPolicy_watches (OTemplate y) = {}" "W GuardrailPolicy_watches (OService s) = {}"
  using wakes_self [of _ GuardrailPolicy_watches] wakes_none [of _ GuardrailPolicy_watches]
  by (simp_all add: GuardrailPolicy_watches_def api_type_def core_type_def)

lemma W_templates [simp]:
  "W PromptTemplate_watches (OTemplate y) = {keyOf (ptMeta y)}" "W PromptTemplate_watches (OEndpoint x) = {}"
  "W PromptTemplate_watches (OPolicy z) = {}" "W PromptTemplate_watches (OService s) = {}"
  using wakes_self [of _ PromptTemplate_watches] wakes_none [of _ PromptTemplate_watches]
  by (simp_all add: PromptTemplate_watches_def api_type_def core_type_def)

lemma woken_policies:
  "woken W GuardrailPolicy_watches st st' = (\<lambda>x. keyOf (gpMeta x)) ` table_changes (stPolicies st) (stPolicies st')"
  by (auto simp: woken_def changed_def)

lemma woken_templates:
  "woken W PromptTemplate_watches st st' = (\<lambda>x. keyOf (ptMeta x)) ` table_changes (stTemplates st) (stTemplates st')"
  by (auto simp: woken_def changed_def)

end

subsection \<open>Policies\<close>

text \<open>What the status tells of a sync: the text of its error, or identifier and version.\<close>

definition sync_report :: "go_error + string \<times> string \<Rightarrow> string + string \<times> string" where
  "sync_report = map_sum error_text id"

lemma synced_condition_type [simp]: "cType (synced_condition synced t) = ConditionGuardrailSynced"
  by (simp add: synced_condition_def split: sum.split prod.split)

lemma guardrail_status_condition:
  "\<exists>c. condition_of ConditionGuardrailSynced (gpConditions (guardrail_status gp synced now)) = Some c
    \<and> cStatus c = cStatus (synced_condition synced now) \<and> cReason c = cReason (synced_condition synced now)
    \<and> cMessage c = cMessage (synced_condition synced now)"
proof -
  let ?n = "synced_condition synced now"
  have "gpConditions (guardrail_status gp synced now) = setCondition (gpConditions (gpStatus gp)) ?n"
    by (simp add: guardrail_status_def Let_def split: sum.split prod.split)
  then show ?thesis using conds.put_same [of ?n "gpConditions (gpStatus gp)"]
    by (auto simp: merge_condition_def split: option.splits)
qed

lemma sync_report_condition:
  assumes "sync_report synced' = sync_report synced"
  shows "cStatus (synced_condition synced' t') = cStatus (synced_condition synced t)"
    "cReason (synced_condition synced' t') = cReason (synced_condition synced t)"
    "cMessage (synced_condition synced' t') = cMessage (synced_condition synced t)"
  using assms by (cases synced; cases synced'; simp add: synced_condition_def sync_report_def split: prod.split)+

lemma guardrail_status_again:
  assumes "gp' = gp\<lparr>gpStatus := guardrail_status gp synced t\<rparr>" "sync_report synced' = sync_report synced"
  shows "guardrail_status gp' synced' t' = gpStatus gp'"
proof -
  let ?cs = "gpConditions (gpStatus gp')"
  obtain c where c: "condition_of ConditionGuardrailSynced ?cs = Some c"
    "cStatus c = cStatus (synced_condition synced t)" "cReason c = cReason (synced_condition synced t)"
    "cMessage c = cMessage (synced_condition synced t)"
    using guardrail_status_condition [of gp synced t] assms(1) by auto
  have keep: "setCondition ?cs (synced_condition synced' t') = ?cs"
    by (rule setCondition_again [where d = c]) (use c sync_report_condition [OF assms(2), of t' t] in simp_all)
  have "gpObservedGeneration (gpStatus gp') = Generation (gpMeta gp')"
    using assms(1) by (simp add: guardrail_status_def Let_def split: sum.split prod.split)
  moreover have "synced' = Inr (g, v) \<Longrightarrow> GuardrailId (gpStatus gp') = g \<and> GuardrailVersion (gpStatus gp') = v" for g v
    using assms by (cases synced) (auto simp: guardrail_status_def sync_report_def Let_def)
  ultimately show ?thesis using keep
    by (cases synced') (auto simp: guardrail_status_def Let_def)
qed

lemma guardrail_status_differs:
  assumes "guardrail_status gp synced t = guardrail_status gp' synced' t'"
  shows "sync_report synced = sync_report synced'"
proof -
  have cond: "cStatus (synced_condition synced t) = cStatus (synced_condition synced' t')"
    "cMessage (synced_condition synced t) = cMessage (synced_condition synced' t')"
    using guardrail_status_condition [of gp synced t] guardrail_status_condition [of gp' synced' t'] assms by auto
  have ids: "GuardrailId (guardrail_status gp synced t) = GuardrailId (guardrail_status gp' synced' t')"
    "GuardrailVersion (guardrail_status gp synced t) = GuardrailVersion (guardrail_status gp' synced' t')"
    using assms by simp_all
  show ?thesis using cond ids
    by (cases synced; cases synced')
      (auto simp: sync_report_def synced_condition_def guardrail_status_def condition_types Let_def split: prod.splits)
qed


locale watched_policies = guardrail_env K store S remote + watch_api W
  for K :: "'w kube" and store :: "'w \<Rightarrow> Store" and S :: "'w creator"
    and remote :: "'w \<Rightarrow> string \<Rightarrow> GuardrailInput option" and W :: "watches \<Rightarrow> kobject \<Rightarrow> NamespacedName set"
begin

text \<open>One reconciliation of a live policy, and whom its status write wakes.\<close>

lemma policy_run:
  assumes run: "GuardrailPolicy_Reconcile r req w = ((res, None), ops, w')"
    and r: "gpClient r = K" "gpBedrock r = S"
    and gp: "stPolicies (store w) req = Some gp" "IsZero (DeletionTimestamp (gpMeta gp))"
      "FinalizerName \<in> set (Finalizers (gpMeta gp))"
    and synced: "synced = fst (syncGuardrail r gp (snd (rGet (gpAPI K) req w)))"
  shows "\<exists>now. stPolicies (store w') req = Some (gp\<lparr>gpStatus := guardrail_status gp synced now\<rparr>)
    \<and> woken W GuardrailPolicy_watches (store w) (store w') = (if guardrail_status gp synced now = gpStatus gp then {} else {req})
    \<and> (\<forall>gid v. synced = Inr (gid, v) \<longrightarrow> gid \<noteq> [] \<and> remote w' gid = Some (wanted_guardrail gp))"
proof -
  obtain now where st: "stPolicies (store w') = (stPolicies (store w))(req \<mapsto> gp\<lparr>gpStatus := guardrail_status gp synced now\<rparr>)"
    and ok: "case synced of Inl err \<Rightarrow> True | Inr (gid, v) \<Rightarrow> gid \<noteq> [] \<and> remote w' = (remote w)(gid \<mapsto> wanted_guardrail gp)"
    using guardrail_synced [OF run r gp] unfolding synced [symmetric] by (auto split: sum.splits)
  obtain g w1 where get: "rGet (gpAPI K) req w = (g, w1)" by fastforce
  have key: "keyOf (gpMeta gp) = req"
  proof (cases g)
    case (Inl e)
    then show ?thesis using run r get policy_get [OF gp(1) get] by (auto simp: GuardrailPolicy_Reconcile_def split: if_splits)
  qed (use policy_get [OF gp(1) get] in auto)
  have same: "gp\<lparr>gpStatus := s\<rparr> = gp \<longleftrightarrow> s = gpStatus gp" for s
    by (metis GuardrailPolicy.select_convs(3) GuardrailPolicy.surjective GuardrailPolicy.update_convs(3))
  have "woken W GuardrailPolicy_watches (store w) (store w') =
      (if guardrail_status gp synced now = gpStatus gp then {} else {req})"
    using key gp(1) unfolding woken_policies st table_changes_update by (auto simp: same eq_commute [of gp])
  then show ?thesis using st ok by (auto split: sum.splits)
qed

lemma policy_second_run:
  assumes r: "gpClient r = K" "gpBedrock r = S"
    and gp: "stPolicies (store w) req = Some gp" "IsZero (DeletionTimestamp (gpMeta gp))"
      "FinalizerName \<in> set (Finalizers (gpMeta gp))"
    and run1: "GuardrailPolicy_Reconcile r req w = ((res1, None), ops1, w1)" "stPolicies (store w1) req = Some gp1"
    and run2: "store v = store w1" "GuardrailPolicy_Reconcile r req v = ((res2, None), ops2, v')"
    and s1: "synced1 = fst (syncGuardrail r gp (snd (rGet (gpAPI K) req w)))"
    and s2: "synced2 = fst (syncGuardrail r gp1 (snd (rGet (gpAPI K) req v)))"
  shows "woken W GuardrailPolicy_watches (store v) (store v') = (if sync_report synced2 = sync_report synced1 then {} else {req})"
    "synced1 = Inr (gid, ver) \<Longrightarrow> GuardrailId (gpStatus gp1) = gid \<and> wanted_guardrail gp1 = wanted_guardrail gp
      \<and> gid \<noteq> [] \<and> remote w1 gid = Some (wanted_guardrail gp)"
    "woken W GuardrailPolicy_watches (store w) (store w1) = (if gpStatus gp1 = gpStatus gp then {} else {req})"
proof -
  obtain t where gp1: "gp1 = gp\<lparr>gpStatus := guardrail_status gp synced1 t\<rparr>"
    and first: "woken W GuardrailPolicy_watches (store w) (store w1) =
        (if guardrail_status gp synced1 t = gpStatus gp then {} else {req})"
      "\<forall>gid v. synced1 = Inr (gid, v) \<longrightarrow> gid \<noteq> [] \<and> remote w1 gid = Some (wanted_guardrail gp)"
    using policy_run [OF run1(1) r gp s1] run1(2) by auto
  have stored: "stPolicies (store v) req = Some gp1" "IsZero (DeletionTimestamp (gpMeta gp1))"
    "FinalizerName \<in> set (Finalizers (gpMeta gp1))" using run1(2) run2(1) gp gp1 by simp_all
  obtain t' where "woken W GuardrailPolicy_watches (store v) (store v') =
      (if guardrail_status gp1 synced2 t' = gpStatus gp1 then {} else {req})"
    using policy_run [OF run2(2) r stored s2] by blast
  moreover have "guardrail_status gp1 synced2 t' = gpStatus gp1 \<longleftrightarrow> sync_report synced2 = sync_report synced1"
  proof
    assume "guardrail_status gp1 synced2 t' = gpStatus gp1"
    then have "guardrail_status gp1 synced2 t' = guardrail_status gp synced1 t" by (simp add: gp1)
    then show "sync_report synced2 = sync_report synced1" by (rule guardrail_status_differs)
  qed (rule guardrail_status_again [OF gp1])
  ultimately show "woken W GuardrailPolicy_watches (store v) (store v') =
      (if sync_report synced2 = sync_report synced1 then {} else {req})" by simp
  show "woken W GuardrailPolicy_watches (store w) (store w1) = (if gpStatus gp1 = gpStatus gp then {} else {req})"
    using first(1) gp1 by simp
  show "GuardrailId (gpStatus gp1) = gid \<and> wanted_guardrail gp1 = wanted_guardrail gp
      \<and> gid \<noteq> [] \<and> remote w1 gid = Some (wanted_guardrail gp)" if "synced1 = Inr (gid, ver)"
    using first(2) that gp1 by (simp add: guardrail_status_def Let_def)
qed

end

interpretation policies: watched_policies "cluster_kube :: guardrail_world kube" objects mem_bedrock remote_guardrail table_watch
  by unfold_locales


subsection \<open>Templates\<close>

lemma template_status_again:
  assumes "pt' = pt\<lparr>ptStatus := template_status pt tv ev t1 t2\<rparr>"
  shows "template_status pt' tv ev t3 t4 = ptStatus pt'"
proof -
  obtain ok msg ready reason emsg where v: "tv = (ok, msg)" "ev = (ready, reason, emsg)" by (metis prod.collapse)
  let ?cs = "ptConditions (ptStatus pt')"
  let ?a = "\<lambda>t. \<lparr>cType = ''TemplateValid'', cStatus = conditionStatus ok, cReason = ''ParseCheck'', cMessage = msg, LastTransitionTime = t\<rparr>"
  let ?b = "\<lambda>t. \<lparr>cType = ConditionReady, cStatus = conditionStatus (ok \<and> ready), cReason = reason, cMessage = emsg, LastTransitionTime = t\<rparr>"
  have cs: "?cs = setCondition (setCondition (ptConditions (ptStatus pt)) (?a t1)) (?b t2)"
    using assms v by (simp add: template_status_def Let_def)
  have "''TemplateValid'' \<noteq> ConditionReady" by (simp add: condition_types)
  then have a: "condition_of ''TemplateValid'' ?cs = condition_of ''TemplateValid'' (setCondition (ptConditions (ptStatus pt)) (?a t1))"
    unfolding cs by (simp add: conds.put_other)
  have ka: "setCondition ?cs (?a t) = ?cs" for t
    using conds.put_same [of "?a t1" "ptConditions (ptStatus pt)"] a
    by (intro setCondition_again) (auto simp: merge_condition_def split: option.splits)
  have kb: "setCondition ?cs (?b t) = ?cs" for t
    using conds.put_same [of "?b t2" "setCondition (ptConditions (ptStatus pt)) (?a t1)"] cs
    by (intro setCondition_again) (auto simp: merge_condition_def split: option.splits)
  have "ptStatus pt'\<lparr>ptObservedGeneration := Generation (ptMeta pt')\<rparr> = ptStatus pt'"
    using assms v by (simp add: template_status_def Let_def)
  then show ?thesis using ka kb v by (simp add: template_status_def Let_def)
qed

lemma template_status_differs:
  assumes "template_status pt tv ev t1 t2 = template_status pt' tv' ev' t3 t4"
  shows "snd ev = snd ev'"
proof -
  obtain d where "condition_of ConditionReady (ptConditions (template_status pt tv ev t1 t2)) = Some d"
    "cReason d = fst (snd ev)" "cMessage d = snd (snd ev)"
    using template_status_conditions [of pt tv ev t1 t2] by blast
  moreover obtain d' where "condition_of ConditionReady (ptConditions (template_status pt' tv' ev' t3 t4)) = Some d'"
    "cReason d' = fst (snd ev')" "cMessage d' = snd (snd ev')"
    using template_status_conditions [of pt' tv' ev' t3 t4] by blast
  ultimately show ?thesis using assms by (simp add: prod_eq_iff)
qed

text \<open>What a template's controller sees of an endpoint.\<close>

definition endpoint_seen :: "ModelEndpoint option \<Rightarrow> bool option" where
  "endpoint_seen = map_option (Available \<circ> epStatus)"

definition seen_as :: "ModelEndpoint option \<Rightarrow> go_error + ModelEndpoint \<Rightarrow> bool" where
  "seen_as x got \<longleftrightarrow> (case got of Inl err \<Rightarrow> x = None | Inr e \<Rightarrow> x = Some e)"

lemma endpoint_verdict_seen:
  assumes "seen_as x got" "seen_as y got'" "\<forall>e. x = Some e \<longrightarrow> Name (epMeta e) = n" "\<forall>e. y = Some e \<longrightarrow> Name (epMeta e) = n"
  shows "snd (endpoint_verdict got) = snd (endpoint_verdict got') \<longleftrightarrow> endpoint_seen x = endpoint_seen y"
    "endpoint_seen x = endpoint_seen y \<Longrightarrow> endpoint_verdict got = endpoint_verdict got'"
  using assms by (auto simp: seen_as_def endpoint_seen_def endpoint_verdict_def split: sum.splits)


locale watched_templates = kube_api K store + watch_api W
  for K :: "'w kube" and store :: "'w \<Rightarrow> Store" and W :: "watches \<Rightarrow> kobject \<Rightarrow> NamespacedName set"
begin

lemma template_run:
  assumes run: "PromptTemplate_Reconcile r req w = ((res, None), w')" and r: "ptClient r = K"
    and pt: "stTemplates (store w) req = Some pt" "IsZero (DeletionTimestamp (ptMeta pt))"
      "FinalizerName \<in> set (Finalizers (ptMeta pt))"
  shows "\<exists>got t1 t2 tv. tv = template_verdict (tParse (ptEngine r) ''validate'' (Template (ptSpec pt)))
    \<and> seen_as (stEndpoints (store w) (referenced_endpoint req pt)) got
    \<and> stTemplates (store w') req = Some (pt\<lparr>ptStatus := template_status pt tv (endpoint_verdict got) t1 t2\<rparr>)
    \<and> woken W PromptTemplate_watches (store w) (store w') =
        (if template_status pt tv (endpoint_verdict got) t1 t2 = ptStatus pt then {} else {req})"
proof -
  obtain got t1 t2 where got: "case got of Inl err \<Rightarrow> stEndpoints (store w) (referenced_endpoint req pt) = None
        | Inr e \<Rightarrow> stEndpoints (store w) (referenced_endpoint req pt) = Some e"
    and st: "stTemplates (store w') = (stTemplates (store w))(req \<mapsto> pt\<lparr>ptStatus := template_status pt
          (template_verdict (tParse (ptEngine r) ''validate'' (Template (ptSpec pt)))) (endpoint_verdict got) t1 t2\<rparr>)"
    using template_synced [OF run r pt] by blast
  obtain g w1 where get: "rGet (ptAPI K) req w = (g, w1)" by fastforce
  have "\<exists>pt'. g = Inr pt'"
    using run r get pt(1) pt.get_missing [of req w _ w1]
    by (cases g) (auto simp: PromptTemplate_Reconcile_def split: if_splits)
  then have key: "keyOf (ptMeta pt) = req" using get pt(1) pt.get_found [of req w _ w1] by auto
  have same: "pt\<lparr>ptStatus := s\<rparr> = pt \<longleftrightarrow> s = ptStatus pt" for s
    by (metis PromptTemplate.select_convs(3) PromptTemplate.surjective PromptTemplate.update_convs(3))
  have "woken W PromptTemplate_watches (store w) (store w') =
      (if template_status pt (template_verdict (tParse (ptEngine r) ''validate'' (Template (ptSpec pt)))) (endpoint_verdict got) t1 t2
        = ptStatus pt then {} else {req})"
    using key pt(1) unfolding woken_templates st table_changes_update by (auto simp: same eq_commute [of pt])
  then show ?thesis using got st by (intro exI conjI) (auto simp: seen_as_def)
qed

text \<open>Two reconciliations of a template, between which the endpoints may change.\<close>

lemma template_second_run:
  assumes r: "ptClient r = K"
    and pt: "stTemplates (store w) req = Some pt" "IsZero (DeletionTimestamp (ptMeta pt))"
      "FinalizerName \<in> set (Finalizers (ptMeta pt))"
    and run1: "PromptTemplate_Reconcile r req w = ((res1, None), w1)"
    and run2: "stTemplates (store v) = stTemplates (store w1)" "PromptTemplate_Reconcile r req v = ((res2, None), v')"
    and named: "\<forall>st \<in> {store w, store v}. \<forall>e. stEndpoints st (referenced_endpoint req pt) = Some e \<longrightarrow>
      Name (epMeta e) = refName (ptModelEndpointRef (ptSpec pt))"
  shows "woken W PromptTemplate_watches (store v) (store v') =
    (if endpoint_seen (stEndpoints (store v) (referenced_endpoint req pt)) =
        endpoint_seen (stEndpoints (store w) (referenced_endpoint req pt)) then {} else {req})"
proof -
  let ?ref = "referenced_endpoint req pt"
  obtain got1 t1 t2 tv where tv: "tv = template_verdict (tParse (ptEngine r) ''validate'' (Template (ptSpec pt)))"
    and one: "seen_as (stEndpoints (store w) ?ref) got1"
      "stTemplates (store w1) req = Some (pt\<lparr>ptStatus := template_status pt tv (endpoint_verdict got1) t1 t2\<rparr>)"
    using template_run [OF run1 r pt] by blast
  define pt1 where "pt1 = pt\<lparr>ptStatus := template_status pt tv (endpoint_verdict got1) t1 t2\<rparr>"
  have pt1: "stTemplates (store v) req = Some pt1" "IsZero (DeletionTimestamp (ptMeta pt1))"
    "FinalizerName \<in> set (Finalizers (ptMeta pt1))" "referenced_endpoint req pt1 = ?ref" "ptSpec pt1 = ptSpec pt"
    using one(2) run2(1) pt(2,3) by (simp_all add: pt1_def referenced_endpoint_def)
  obtain got2 t3 t4 where two: "seen_as (stEndpoints (store v) ?ref) got2"
    "woken W PromptTemplate_watches (store v) (store v') =
        (if template_status pt1 tv (endpoint_verdict got2) t3 t4 = ptStatus pt1 then {} else {req})"
    using template_run [OF run2(2) r pt1(1-3)] unfolding pt1(4,5) tv [symmetric] by blast
  have names: "\<forall>e. stEndpoints (store v) ?ref = Some e \<longrightarrow> Name (epMeta e) = refName (ptModelEndpointRef (ptSpec pt))"
    "\<forall>e. stEndpoints (store w) ?ref = Some e \<longrightarrow> Name (epMeta e) = refName (ptModelEndpointRef (ptSpec pt))"
    using named by simp_all
  have "template_status pt1 tv (endpoint_verdict got2) t3 t4 = ptStatus pt1 \<longleftrightarrow>
      endpoint_seen (stEndpoints (store v) ?ref) = endpoint_seen (stEndpoints (store w) ?ref)"
  proof
    assume "template_status pt1 tv (endpoint_verdict got2) t3 t4 = ptStatus pt1"
    then have "template_status pt1 tv (endpoint_verdict got2) t3 t4 = template_status pt tv (endpoint_verdict got1) t1 t2"
      by (simp add: pt1_def)
    then have "snd (endpoint_verdict got2) = snd (endpoint_verdict got1)" by (rule template_status_differs)
    then show "endpoint_seen (stEndpoints (store v) ?ref) = endpoint_seen (stEndpoints (store w) ?ref)"
      using endpoint_verdict_seen(1) [OF two(1) one(1) names] by simp
  next
    assume "endpoint_seen (stEndpoints (store v) ?ref) = endpoint_seen (stEndpoints (store w) ?ref)"
    then have "endpoint_verdict got2 = endpoint_verdict got1"
      using endpoint_verdict_seen(2) [OF two(1) one(1) names] by simp
    then show "template_status pt1 tv (endpoint_verdict got2) t3 t4 = ptStatus pt1"
      using template_status_again [OF pt1_def] by simp
  qed
  then show ?thesis using two(2) by simp
qed

end

interpretation templates: watched_templates "cluster_kube :: 'z cluster_scheme kube" objects table_watch
  by unfold_locales


subsection \<open>Properties\<close>

text \<open>C25: a policy's controller keeps calling Bedrock, and rests only while Bedrock answers the same.
  After a successful reconciliation the next one, with nothing in between, sends an UpdateGuardrail with
  the recorded identifier and the configuration that Bedrock holds already, although the spec has not
  changed; its status write wakes the controller again if and only if the answer differs (another
  version, or another error text). A reconciliation that created the guardrail always wakes the
  controller at once, since it wrote the identifier.\<close>

theorem policy_loop_rests:
  assumes "guardrail_env (gpClient r) store (gpBedrock r) remote" "watch_api W"
    and "stPolicies (store w) req = Some gp" "IsZero (DeletionTimestamp (gpMeta gp))"
      "FinalizerName \<in> set (Finalizers (gpMeta gp))"
    and "GuardrailPolicy_Reconcile r req w = ((res1, None), ops1, w1)" "stPolicies (store w1) req = Some gp1"
    and "fst (syncGuardrail r gp (snd (rGet (gpAPI (gpClient r)) req w))) = Inr (gid, ver)"
    and "store v = store w1" "GuardrailPolicy_Reconcile r req v = ((res2, None), ops2, v')"
    and "answer = fst (gUpdate (gpBedrock r) (updateInput gp1) (snd (rGet (gpAPI (gpClient r)) req v)))"
  shows "GuardrailIdentifier (updateInput gp1) = Some gid
    \<and> remote w1 gid = Some (GuardrailInput.truncate (updateInput gp1))
    \<and> woken W GuardrailPolicy_watches (store v) (store v') =
        (case answer of Inr ver' \<Rightarrow> if ToString ver' = ver then {} else {req} | Inl err \<Rightarrow> {req})
    \<and> (GuardrailId (gpStatus gp) = [] \<longrightarrow> woken W GuardrailPolicy_watches (store w) (store w1) = {req})"
proof -
  have env: "watched_policies (gpClient r) store (gpBedrock r) remote W"
    by (rule watched_policies.intro [OF assms(1,2)])
  let ?s = "fst (syncGuardrail r gp1 (snd (rGet (gpAPI (gpClient r)) req v)))"
  note second = watched_policies.policy_second_run [OF env refl refl assms(3-7,9,10) assms(8) [symmetric] refl]
  have gid: "GuardrailId (gpStatus gp1) = gid" "gid \<noteq> []" "wanted_guardrail gp1 = wanted_guardrail gp"
    "remote w1 gid = Some (wanted_guardrail gp)" using second(2) [OF refl] by simp_all
  have s: "?s = (case answer of Inl err \<Rightarrow> Inl (Wrapf (''UpdateGuardrail '' @ gid) err) | Inr ver' \<Rightarrow> Inr (gid, ToString ver'))"
    using gid(1,2) assms(11) by (simp add: syncGuardrail_def updateGuardrail_def split: prod.split sum.split)
  have "GuardrailIdentifier (updateInput gp1) = Some gid" "GuardrailInput.truncate (updateInput gp1) = wanted_guardrail gp"
    using updateInput_wanted [of gp1] gid by simp_all
  moreover have "woken W GuardrailPolicy_watches (store v) (store v') =
      (case answer of Inr ver' \<Rightarrow> if ToString ver' = ver then {} else {req} | Inl err \<Rightarrow> {req})"
    using second(1) unfolding s by (auto simp: sync_report_def split: sum.splits)
  moreover have "GuardrailId (gpStatus gp) = [] \<Longrightarrow> woken W GuardrailPolicy_watches (store w) (store w1) = {req}"
    using second(3) gid(1,2) by auto
  ultimately show ?thesis using gid(4) by simp
qed

lemma policy_second_sync:
  fixes w1 :: guardrail_world
  assumes "w1 = snd (snd (GuardrailPolicy_Reconcile guardrail_reconciler policy_req
      (policy_world (no_secrets [FinalizerName] None []) [] [])))"
  shows "fst (GuardrailPolicy_Reconcile guardrail_reconciler policy_req w1) = (zero_result\<lparr>RequeueAfter := requeueSteadyState\<rparr>, None)"
    "\<exists>gp1. stPolicies (objects w1) policy_req = Some gp1 \<and> fst (gUpdate mem_bedrock (updateInput gp1)
      (snd (rGet (gpAPI cluster_kube) policy_req w1))) = Inr (Some ''DRAFT'')"
    "fst (syncGuardrail guardrail_reconciler (no_secrets [FinalizerName] None []) (snd (rGet (gpAPI cluster_kube) policy_req
      (policy_world (no_secrets [FinalizerName] None []) [] [])))) = Inr (''gr-'', ''DRAFT'')"
  unfolding assms
  by (simp_all add: policy_step_defs policy_defs updateInput_wanted synced_condition_def)

theorem policy_loop_rests_witness:
  "\<exists>w1 w2. snd (snd (GuardrailPolicy_Reconcile guardrail_reconciler policy_req
      (policy_world (no_secrets [FinalizerName] None []) [] []))) = w1
    \<and> snd (snd (GuardrailPolicy_Reconcile guardrail_reconciler policy_req w1)) = w2
    \<and> woken table_watch GuardrailPolicy_watches (objects (policy_world (no_secrets [FinalizerName] None []) [] [])) (objects w1) = {policy_req}
    \<and> woken table_watch GuardrailPolicy_watches (objects w1) (objects w2) = {}"
proof -
  let ?gp = "no_secrets [FinalizerName] None []"
  let ?w = "policy_world ?gp [] []"
  have pre: "stPolicies (objects ?w) policy_req = Some ?gp" "IsZero (DeletionTimestamp (gpMeta ?gp))"
    "FinalizerName \<in> set (Finalizers (gpMeta ?gp))" "GuardrailId (gpStatus ?gp) = []"
    by (simp_all add: policy_defs)
  obtain ops1 w1 where run1: "GuardrailPolicy_Reconcile guardrail_reconciler policy_req ?w
      = ((zero_result\<lparr>RequeueAfter := requeueSteadyState\<rparr>, None), ops1, w1)"
    using policy_sync_run by (metis prod.collapse)
  then have w1: "w1 = snd (snd (GuardrailPolicy_Reconcile guardrail_reconciler policy_req ?w))" by simp
  note next_sync = policy_second_sync [OF w1]
  obtain gp1 where gp1: "stPolicies (objects w1) policy_req = Some gp1"
    "fst (gUpdate mem_bedrock (updateInput gp1) (snd (rGet (gpAPI cluster_kube) policy_req w1))) = Inr (Some ''DRAFT'')"
    using next_sync(2) by blast
  obtain ops2 w2 where run2: "GuardrailPolicy_Reconcile guardrail_reconciler policy_req w1
      = ((zero_result\<lparr>RequeueAfter := requeueSteadyState\<rparr>, None), ops2, w2)"
    using next_sync(1) by (metis prod.collapse)
  have r: "gpClient guardrail_reconciler = cluster_kube" "gpBedrock guardrail_reconciler = mem_bedrock" by simp_all
  from policy_loop_rests [OF policy_env table_watch.watch_api_axioms pre(1-3) run1 gp1(1) next_sync(3) [folded r(1)] refl run2 refl]
  show ?thesis using run1 run2 gp1(2) pre(4) by (simp add: ToString_def)
qed

text \<open>C26: a template's controller does not notice what becomes of the endpoint that the template
  names: it watches templates only, so that any change of endpoints wakes no template, and the Ready
  condition stays as it is until the timer. When a template is reconciled again after such a change, its
  status is written, and wakes the controller once more, if and only if the endpoint has appeared,
  disappeared or changed its availability.\<close>

theorem endpoint_changes_unnoticed:
  assumes "kube_api (ptClient r) store" "watch_api W"
    and "stTemplates (store w) req = Some pt" "IsZero (DeletionTimestamp (ptMeta pt))"
      "FinalizerName \<in> set (Finalizers (ptMeta pt))"
    and "PromptTemplate_Reconcile r req w = ((res1, None), w1)"
    and "stTemplates (store v) = stTemplates (store w1)" "PromptTemplate_Reconcile r req v = ((res2, None), v')"
    and "ref = \<lparr>nnNamespace = nnNamespace req, nnName = refName (ptModelEndpointRef (ptSpec pt))\<rparr>"
    and "\<forall>st \<in> {store w, store v}. \<forall>e. stEndpoints st ref = Some e \<longrightarrow> Name (epMeta e) = nnName ref"
  shows "woken W PromptTemplate_watches (store w1) (store v) = {}
    \<and> woken W PromptTemplate_watches (store v) (store v') =
        (if map_option (\<lambda>e. Available (epStatus e)) (stEndpoints (store v) ref) =
            map_option (\<lambda>e. Available (epStatus e)) (stEndpoints (store w) ref) then {} else {req})"
proof -
  have env: "watched_templates (ptClient r) store W" by (rule watched_templates.intro [OF assms(1,2)])
  have ref: "ref = referenced_endpoint req pt" using assms(9) by (simp add: referenced_endpoint_def)
  have named: "\<forall>st \<in> {store w, store v}. \<forall>e. stEndpoints st (referenced_endpoint req pt) = Some e \<longrightarrow>
      Name (epMeta e) = refName (ptModelEndpointRef (ptSpec pt))"
    using assms(10) unfolding ref by (simp add: referenced_endpoint_def)
  show ?thesis
    using watched_templates.template_second_run [OF env refl assms(3-8) named] assms(7)
    by (simp add: watch_api.woken_templates [OF assms(2)] endpoint_seen_def comp_def ref)
qed


text \<open>The endpoint appears after the first reconciliation.\<close>

definition with_endpoint :: "ModelEndpoint \<Rightarrow> 'z cluster_scheme \<Rightarrow> 'z cluster_scheme" where
  "with_endpoint ep w =
     w\<lparr>objects := (objects w)\<lparr>stEndpoints := (stEndpoints (objects w))(keyOf (epMeta ep) \<mapsto> ep)\<rparr>\<rparr>"

lemma template_second_look:
  fixes w1 :: cluster
  assumes "w1 = snd (PromptTemplate_Reconcile (template_reconciler field_engine) summarize_req
      (template_world (summarize ''Summarize in a {{.tone}} way.'' [FinalizerName]) []))"
  shows "fst (PromptTemplate_Reconcile (template_reconciler field_engine) summarize_req
      (with_endpoint (demo_endpoint [FinalizerName] None) w1)) = (zero_result\<lparr>RequeueAfter := requeueTransient\<rparr>, None)"
    "stTemplates (objects (with_endpoint (demo_endpoint [FinalizerName] None) w1)) = stTemplates (objects w1)"
    "stEndpoints (objects w1) = Map.empty"
  unfolding assms
  by (simp_all add: PromptTemplate_Reconcile_def summarize_defs mem_get_def next_fault_def with_endpoint_def demo_endpoint_def
      template_finish_def mem_patch_def referenced_endpoint_def endpoint_verdict_def Let_def template_status_def template_verdict_def split: option.split)

theorem endpoint_changes_unnoticed_witness:
  "\<exists>w1 v v'. snd (PromptTemplate_Reconcile (template_reconciler field_engine) summarize_req
      (template_world (summarize ''Summarize in a {{.tone}} way.'' [FinalizerName]) [])) = w1
    \<and> v = with_endpoint (demo_endpoint [FinalizerName] None) w1
    \<and> snd (PromptTemplate_Reconcile (template_reconciler field_engine) summarize_req v) = v'
    \<and> woken table_watch PromptTemplate_watches (objects w1) (objects v) = {}
    \<and> woken table_watch PromptTemplate_watches (objects v) (objects v') = {summarize_req}"
proof -
  let ?pt = "summarize ''Summarize in a {{.tone}} way.'' [FinalizerName]" and ?r = "template_reconciler field_engine"
  let ?w = "template_world ?pt []" and ?ref = "\<lparr>nnNamespace = ''team-a'', nnName = ''haiku''\<rparr>"
  have pre: "stTemplates (objects ?w) summarize_req = Some ?pt" "IsZero (DeletionTimestamp (ptMeta ?pt))"
    "FinalizerName \<in> set (Finalizers (ptMeta ?pt))" "stEndpoints (objects ?w) = Map.empty"
    "?ref = \<lparr>nnNamespace = nnNamespace summarize_req, nnName = refName (ptModelEndpointRef (ptSpec ?pt))\<rparr>"
    by (simp_all add: summarize_defs)
  obtain w1 where run1: "PromptTemplate_Reconcile ?r summarize_req ?w = ((zero_result\<lparr>RequeueAfter := requeueTransient\<rparr>, None), w1)"
    using summarize_run by (metis prod.collapse)
  then have w1: "w1 = snd (PromptTemplate_Reconcile ?r summarize_req ?w)" by simp
  let ?v = "with_endpoint (demo_endpoint [FinalizerName] None) w1"
  note again = template_second_look [OF w1]
  obtain v' where run2: "PromptTemplate_Reconcile ?r summarize_req ?v = ((zero_result\<lparr>RequeueAfter := requeueTransient\<rparr>, None), v')"
    using again(1) by (metis prod.collapse)
  have eps: "stEndpoints (objects ?v) ?ref = Some (demo_endpoint [FinalizerName] None)"
    by (simp add: with_endpoint_def demo_endpoint_def keyOf_def)
  have named: "\<forall>st \<in> {objects ?w, objects ?v}. \<forall>e. stEndpoints st ?ref = Some e \<longrightarrow> Name (epMeta e) = nnName ?ref"
    using pre(4) eps by (simp add: demo_endpoint_def)
  have api: "kube_api (ptClient ?r) objects" by (simp add: mem.kube_api_axioms)
  from endpoint_changes_unnoticed [OF api table_watch.watch_api_axioms pre(1-3) run1 again(2) run2 pre(5) named]
  show ?thesis using run1 run2 eps pre(4) by (intro exI conjI) auto
qed

end
