(* ===== verification/Admission.thy ===== *)
theory Admission
  imports Api_Json Webhook Proxy_Properties
begin

section \<open>Admission of documents (internal/webhook/modelendpoint\_webhook.go)\<close>

text \<open>
  The webhooks on the JSON documents that the API server sends: DecodeRaw, the handler, and for the
  defaulter the marshalled endpoint that PatchResponseFromRaw compares with the raw object. The decoder
  is controller-runtime's, built from the scheme of the manager; \<open>admission_api\<close> states it. The API
  server sends a new object to the mutating webhook, applies the patch, and sends the result to the
  validating one.
\<close>

subsection \<open>Documents\<close>

text \<open>The kind and version that a document names.\<close>

fun text_field :: "string \<Rightarrow> json \<Rightarrow> string option" where
  "text_field k (JObj kvs) = (case map_of kvs k of Some (JStr s) \<Rightarrow> Some s | _ \<Rightarrow> None)"
| "text_field k j = None"

definition names_endpoint :: "json \<Rightarrow> bool" where
  "names_endpoint j \<longleftrightarrow> text_field ''kind'' j = Some ''ModelEndpoint''
     \<and> text_field ''apiVersion'' j = Some (api_version GroupVersion)"

lemma names_enc: "names_endpoint (enc_endpoint M ep)"
  by (simp add: names_endpoint_def enc_endpoint_def enc_struct_def map_filter_simps)

abbreviation endpoint_kind :: group_version_kind where
  "endpoint_kind \<equiv> \<lparr>gkGroupVersion = GroupVersion, gkKind = ''ModelEndpoint''\<rparr>"

locale admission_api = scheme_api S + meta_api M
  for S :: "'s scheme_lib" and M :: meta_codec +
  fixes D :: "'s \<Rightarrow> json \<Rightarrow> go_error + ModelEndpoint" \<comment> \<open>NewDecoder and DecodeRaw\<close>
  assumes decode_known: "endpoint_kind \<in> set (slObjectKinds S sc (api_type ''ModelEndpoint'')) \<Longrightarrow> names_endpoint j \<Longrightarrow>
      D sc j = map_sum (\<lambda>e. ErrMsg (json_error_text e)) id (dec_endpoint M j (zero_endpoint M))"
    and decode_other: "endpoint_kind \<notin> set (slObjectKinds S sc (api_type ''ModelEndpoint'')) \<or> \<not> names_endpoint j \<Longrightarrow>
      \<exists>err. D sc j = Inl err"

subsection \<open>The handlers\<close>

datatype review =
    Refused int go_error
  | Denial string
  | Admitted string
  | Patched json json \<comment> \<open>PatchResponseFromRaw: the raw object, the object it becomes\<close>

fun response_of :: "meta_codec \<Rightarrow> json \<Rightarrow> Response \<Rightarrow> review" where
  "response_of M raw (Errored code err) = Refused code err"
| "response_of M raw (Denied msg) = Denial msg"
| "response_of M raw (Allowed msg) = Admitted msg"
| "response_of M raw (PatchTo ep) = Patched raw (enc_endpoint M ep)"

definition Validator_serve :: "('s \<Rightarrow> json \<Rightarrow> go_error + ModelEndpoint) \<Rightarrow> meta_codec \<Rightarrow> 's \<Rightarrow> json \<Rightarrow> review" where
  "Validator_serve D M sc raw = response_of M raw (Validator_Handle (D sc raw))"

definition Defaulter_serve :: "('s \<Rightarrow> json \<Rightarrow> go_error + ModelEndpoint) \<Rightarrow> meta_codec \<Rightarrow> 's \<Rightarrow> json \<Rightarrow> review" where
  "Defaulter_serve D M sc raw = response_of M raw (Defaulter_Handle (D sc raw))"

text \<open>The webhook server: the handler of the path.\<close>

definition serve_hook :: "('s \<Rightarrow> json \<Rightarrow> go_error + ModelEndpoint) \<Rightarrow> meta_codec \<Rightarrow> 's \<Rightarrow> (string \<times> hook) list
    \<Rightarrow> string \<Rightarrow> json \<Rightarrow> review option" where
  "serve_hook D M sc hooks path raw =
     map_option (\<lambda>h. case h of ValidatorHook \<Rightarrow> Validator_serve D M sc raw | DefaulterHook \<Rightarrow> Defaulter_serve D M sc raw)
       (map_of hooks path)"

text \<open>The way of a new object: what is stored, if it is admitted.\<close>

definition admit :: "('s \<Rightarrow> json \<Rightarrow> go_error + ModelEndpoint) \<Rightarrow> meta_codec \<Rightarrow> 's \<Rightarrow> (string \<times> hook) list \<Rightarrow> json \<Rightarrow> json option" where
  "admit D M sc hooks raw =
     (case serve_hook D M sc hooks ''/mutate-ai-kernelpanic09-io-v1alpha1-modelendpoint'' raw of
        Some (Patched old new) \<Rightarrow>
          (case serve_hook D M sc hooks ''/validate-ai-kernelpanic09-io-v1alpha1-modelendpoint'' new of
             Some (Admitted msg) \<Rightarrow> Some new
           | _ \<Rightarrow> None)
      | _ \<Rightarrow> None)"

lemma apply_defaults_typed: "typed_endpoint M ep \<Longrightarrow> typed_endpoint M (apply_defaults ep)"
  by (auto simp: typed_endpoint_def typed_spec_def fits_def split: option.splits)

context admission_api begin

lemma decode_scheme:
  assumes "init_scheme S = Inr sc" "names_endpoint j"
  shows "D sc j = map_sum (\<lambda>e. ErrMsg (json_error_text e)) id (dec_endpoint M j (zero_endpoint M))"
proof -
  obtain sc' where "init_scheme S = Inr sc'"
    "\<forall>t \<in> set (concat SchemeBuilder). slObjectKinds S sc' t = [\<lparr>gkGroupVersion = GroupVersion, gkKind = gtName t\<rparr>]"
    using scheme_known by blast
  then have "endpoint_kind \<in> set (slObjectKinds S sc (api_type ''ModelEndpoint''))"
    using assms(1) by (simp add: SchemeBuilder_def endpoint_types_def) (simp add: api_type_def)
  then show ?thesis by (rule decode_known [OF _ assms(2)])
qed

lemma decode_typed:
  assumes "init_scheme S = Inr sc" "D sc j = Inr ep"
  shows "names_endpoint j" "typed_endpoint M ep" "dec_endpoint M j (zero_endpoint M) = Inr ep"
proof -
  show n: "names_endpoint j" using decode_other [of sc j] assms(2) by (metis sum.distinct(1))
  show "dec_endpoint M j (zero_endpoint M) = Inr ep"
    using decode_scheme [OF assms(1) n] assms(2) by (cases "dec_endpoint M j (zero_endpoint M)") simp_all
  then show "typed_endpoint M ep" by (rule dec_endpoint_typed [OF _ zero_typed])
qed

lemma decode_enc:
  assumes "init_scheme S = Inr sc" "typed_endpoint M ep"
  shows "D sc (enc_endpoint M ep) = Inr ep"
  using decode_scheme [OF assms(1) names_enc] endpoint_roundtrip [OF assms(2)] by simp

end

text \<open>A decoder that follows its documentation.\<close>

definition plain_decoder :: "(group_version_kind \<times> go_type) list \<Rightarrow> json \<Rightarrow> go_error + ModelEndpoint" where
  "plain_decoder sc j =
     (if endpoint_kind \<in> set (table_kinds sc (api_type ''ModelEndpoint'')) \<and> names_endpoint j
      then map_sum (\<lambda>e. ErrMsg (json_error_text e)) id (dec_endpoint plain_codec j (zero_endpoint plain_codec))
      else Inl (ErrMsg ''no kind is registered in the scheme''))"

interpretation plain_admission: admission_api table_scheme plain_codec plain_decoder
  by unfold_locales (auto simp: plain_decoder_def table_scheme_def)

context admission_api begin

abbreviation hooks :: "(string \<times> hook) list" where
  "hooks \<equiv> [fst Validator_SetupWithManager, fst Defaulter_SetupWithManager]"

lemma admit_eq:
  assumes "init_scheme S = Inr sc"
  shows "admit D M sc hooks raw =
    (case D sc raw of Inl err \<Rightarrow> None
     | Inr ep \<Rightarrow> if validateModelEndpoint ep = None then Some (enc_endpoint M (apply_defaults ep)) else None)"
proof (cases "D sc raw")
  case (Inr ep)
  have "D sc (enc_endpoint M (apply_defaults ep)) = Inr (apply_defaults ep)"
    by (rule decode_enc [OF assms apply_defaults_typed]) (rule decode_typed(2) [OF assms Inr])
  then show ?thesis using Inr
    by (simp add: admit_def serve_hook_def Validator_SetupWithManager_def Defaulter_SetupWithManager_def Defaulter_serve_def
        Validator_serve_def Defaulter_Handle_def Validator_Handle_def apply_defaults_valid split: option.split)
qed (simp add: admit_def serve_hook_def Validator_SetupWithManager_def Defaulter_SetupWithManager_def Defaulter_serve_def
    Defaulter_Handle_def)

end

text \<open>An endpoint as its owner wrote it, without a rate, and as it is stored.\<close>

abbreviation limited_haiku :: ModelEndpoint where
  "limited_haiku \<equiv> haiku (Some \<lparr>RequestsPerMinute = 60\<rparr>)"

lemma haiku_typed: "typed_endpoint plain_codec (haiku None)" "typed_endpoint plain_codec limited_haiku"
  by (simp_all add: typed_endpoint_def typed_spec_def typed_status_def haiku_def plain_codec_def meta_fits_def fits_def)

lemma haiku_defaults: "apply_defaults (haiku None) = limited_haiku"
  by (simp add: apply_defaults_def haiku_def Let_def)

lemma haiku_valid: "validateModelEndpoint (haiku None) = None"
proof -
  have "MatchString irsaArnPattern ''arn:aws:iam::123456789012:role/bedrock''" by code_simp
  then show ?thesis
    by (simp add: validateModelEndpoint_def haiku_def validateRegion_def validRegions_def
        validateModelId_def knownModelPrefixes_def has_prefix_def)
qed

lemma haiku_decoded:
  assumes "init_scheme table_scheme = Inr sc"
  shows "plain_decoder sc (enc_endpoint plain_codec (haiku None)) = Inr (haiku None)"
    "plain_decoder sc (enc_endpoint plain_codec limited_haiku) = Inr limited_haiku"
  by (rule plain_admission.decode_enc [OF assms haiku_typed(1)], rule plain_admission.decode_enc [OF assms haiku_typed(2)])

subsection \<open>Properties\<close>



text \<open>C18: the numbers of a decoded endpoint and of a decoded invoke request stay within int32 on their way
  to Bedrock: the defaults fit, the token limit that Invoke gets fits, one that is written into the request
  body is positive, and the burst that getLimiter computes from the rate is at least 1 and fits, so that no
  conversion between the integer types of the program changes a value.\<close>

theorem decoded_numbers_fit:
  assumes "admission_api S M D" "init_scheme S = Inr sc"
    and "D sc raw = Inr ep" "unmarshal dec_invoke zero_invoke body = Inr req"
  shows "fits 32 (irMaxTokens req) \<and> fits 32 (iiMaxTokens (invoke_input req ep))
    \<and> typed_endpoint M (apply_defaults ep) \<and> fits 32 (iiMaxTokens (invoke_input req (apply_defaults ep)))
    \<and> (\<forall>ic n. crInferenceConfig (build_request (invoke_input req ep)) = Some ic \<longrightarrow> icMaxTokens ic = Some n \<longrightarrow>
        0 < n \<and> n < 2 ^ 31)
    \<and> (\<forall>rl. RateLimit (epSpec ep) = Some rl \<longrightarrow>
        1 \<le> limiter_burst (RequestsPerMinute rl) \<and> fits 32 (limiter_burst (RequestsPerMinute rl)))"
proof -
  obtain j where j: "dec_invoke j zero_invoke = Inr req" using assms(4) by (auto simp: unmarshal_def split: sum.splits)
  have req: "fits 32 (irMaxTokens req)"
    using j [unfolded dec_invoke_def]
    by (rule dec_struct_invariant) (auto simp: zero_invoke_def dest!: into_InrD intro: dec_int_fits)
  have ep: "typed_endpoint M ep" by (rule admission_api.decode_typed(2) [OF assms(1-3)])
  have input: "fits 32 (iiMaxTokens (invoke_input req e))" if "typed_endpoint M e" for e
    using that req by (auto simp: invoke_input_def capped_def typed_endpoint_def typed_spec_def split: option.split)
  have cfg: "0 < n \<and> n < 2 ^ 31"
    if "crInferenceConfig (build_request (invoke_input req ep)) = Some ic" "icMaxTokens ic = Some n" for ic n
    using that input [OF ep] by (auto simp: build_request_def fits_def split: if_splits)
  have burst: "1 \<le> limiter_burst rpm \<and> fits 32 (limiter_burst rpm)" if "fits 32 rpm" for rpm
    using limiter_burst_bounds [of rpm] that by (auto simp: fits_def)
  show ?thesis using req input [OF ep] input [OF apply_defaults_typed [OF ep]] apply_defaults_typed [OF ep] cfg burst ep
    by (auto simp: typed_endpoint_def typed_spec_def)
qed

theorem decoded_numbers_fit_witness:
  "\<exists>sc ep. init_scheme table_scheme = Inr sc \<and> plain_decoder sc (enc_endpoint plain_codec (haiku None)) = Inr ep
    \<and> fits 32 (iiMaxTokens (invoke_input (zero_invoke\<lparr>irMaxTokens := 9999\<rparr>) ep))"
proof -
  obtain sc where sc: "init_scheme table_scheme = Inr sc" using table_scheme.scheme_known by blast
  note dec = haiku_decoded(1) [OF sc]
  have "unmarshal dec_invoke zero_invoke (Inr (JObj [(''maxTokens'', JInt 9999)])) = Inr (zero_invoke\<lparr>irMaxTokens := 9999\<rparr>)"
    by (simp add: unmarshal_def dec_invoke_def find_field_def into_def zero_invoke_def)
  from decoded_numbers_fit [OF plain_admission.admission_api_axioms sc dec this] sc dec show ?thesis by blast
qed



end
