(* ===== verification/Manager.thy ===== *)
theory Manager
  imports Proxy_Server Guardrail_Controller ModelEndpoint_Controller Setup
begin

section \<open>The manager binary (cmd/manager/main.go)\<close>

text \<open>
  What main registers with the controller-runtime manager, in which order and with which settings, and
  how it exits. The manager, the environment variables and the AWS configuration are the record
  \<open>surroundings\<close>: it answers the calls that SetupWithManager makes on the controller builder, mgr.Add
  and the probes. The scheme comes from the theory Setup. Of the loggers only the level is kept.
\<close>

subsection \<open>Flags\<close>

record flags =
  metricsAddr :: string
  probeAddr :: string
  proxyAddr :: string
  enableLeaderElection :: bool
  enableWebhooks :: bool
  leaderElectionID :: string
  proxyNamespace :: string
  proxyServiceName :: string
  logLevel :: string

definition default_flags :: flags where
  "default_flags =
     \<lparr>metricsAddr = '':8080'', probeAddr = '':8081'', proxyAddr = '':8090'', enableLeaderElection = False,
      enableWebhooks = False, leaderElectionID = ''ai.kernelpanic09.io'', proxyNamespace = ''ai-operator-system'',
      proxyServiceName = ''k8s-ai-operator-proxy'', logLevel = ''info''\<rparr>"

datatype level = LevelDebug | LevelInfo | LevelWarn | LevelError

definition log_level :: "string \<Rightarrow> level" where
  "log_level s =
     (if s = ''debug'' then LevelDebug else if s = ''warn'' then LevelWarn
      else if s = ''error'' then LevelError else LevelInfo)"

text \<open>The logger of controller-runtime runs in development mode at the debug level only.\<close>

definition zap_development :: "string \<Rightarrow> bool" where
  "zap_development s \<longleftrightarrow> log_level s = LevelDebug"

text \<open>Levels are numbers, and a record is written when its level is at least the configured one.\<close>

primrec level_number :: "level \<Rightarrow> int" where
  "level_number LevelDebug = - 4"
| "level_number LevelInfo = 0"
| "level_number LevelWarn = 4"
| "level_number LevelError = 8"

lemma level_number_bounds: "- 4 \<le> level_number l" "level_number l \<le> 8"
  by (cases l; simp)+

instantiation level :: linorder
begin

definition less_eq_level :: "level \<Rightarrow> level \<Rightarrow> bool" where
  "less_eq_level a b \<longleftrightarrow> level_number a \<le> level_number b"

definition less_level :: "level \<Rightarrow> level \<Rightarrow> bool" where
  "less_level a b \<longleftrightarrow> level_number a < level_number b"

instance
proof
  fix a b :: level
  show "a \<le> b \<Longrightarrow> b \<le> a \<Longrightarrow> a = b" by (cases a; cases b) (simp_all add: less_eq_level_def)
qed (auto simp: less_eq_level_def less_level_def)

end

lemma errors_always_logged: "log_level s \<le> LevelError"
  by (simp add: less_eq_level_def level_number_bounds)

lemma warnings_logged_iff: "log_level s \<le> LevelWarn \<longleftrightarrow> s \<noteq> ''error''"
  by (simp add: log_level_def less_eq_level_def)

lemma development_logs_all: "zap_development s \<longleftrightarrow> (\<forall>l. log_level s \<le> l)"
proof
  assume "zap_development s"
  then show "\<forall>l. log_level s \<le> l" by (simp add: zap_development_def less_eq_level_def level_number_bounds)
next
  assume "\<forall>l. log_level s \<le> l"
  then have "log_level s \<le> LevelDebug" by blast
  then show "zap_development s" by (cases "log_level s") (simp_all add: zap_development_def less_eq_level_def)
qed

subsection \<open>Registrations\<close>

record manager_options =
  moMetricsAddr :: string
  moProbeAddr :: string
  moLeaderElection :: bool
  moLeaderElectionID :: string
  moGracefulShutdown :: int
  moWebhookPort :: int

definition options_of :: "flags \<Rightarrow> manager_options" where
  "options_of fl =
     \<lparr>moMetricsAddr = metricsAddr fl, moProbeAddr = probeAddr fl, moLeaderElection = enableLeaderElection fl,
      moLeaderElectionID = leaderElectionID fl, moGracefulShutdown = 30 * 1000000000, moWebhookPort = 9443\<rparr>"

text \<open>runnableProxy makes the proxy server a runnable of the manager.\<close>

record runnableProxy =
  rpServer :: HttpServer

definition newRunnableProxy :: "HttpServer \<Rightarrow> runnableProxy" where
  "newRunnableProxy s = \<lparr>rpServer = s\<rparr>"

datatype registration =
    EndpointController BedrockClient string string
  | TemplateController
  | GuardrailController AwsClient
  | ValidatorWebhook
  | DefaulterWebhook
  | ProxyRunnable runnableProxy
  | HealthzCheck
  | ReadyzCheck

text \<open>The error message that main logs before it exits with code 1.\<close>

fun failure_message :: "registration \<Rightarrow> string" where
  "failure_message (EndpointController br ns svc) = ''creating ModelEndpoint controller''"
| "failure_message TemplateController = ''creating PromptTemplate controller''"
| "failure_message (GuardrailController cl) = ''creating GuardrailPolicy controller''"
| "failure_message ValidatorWebhook = ''registering ModelEndpoint validator webhook''"
| "failure_message DefaulterWebhook = ''registering ModelEndpoint defaulter webhook''"
| "failure_message (ProxyRunnable srv) = ''adding proxy to manager''"
| "failure_message HealthzCheck = ''adding healthz check''"
| "failure_message ReadyzCheck = ''adding readyz check''"

record surroundings =
  suNewManager :: "manager_options \<Rightarrow> go_error option"
  suLoadConfig :: "go_error + AwsConfig"
  suGetenv :: "string \<Rightarrow> string"
  suComplete :: "watches \<Rightarrow> go_error option" \<comment> \<open>Complete of the controller builder\<close>
  suAdd :: "runnableProxy \<Rightarrow> go_error option"
  suHealthz :: "string \<Rightarrow> go_error option"
  suReadyz :: "string \<Rightarrow> go_error option"
  suStart :: "registration list \<Rightarrow> go_error option"

text \<open>The call that each registration makes.\<close>

fun register :: "surroundings \<Rightarrow> registration \<Rightarrow> go_error option" where
  "register su (EndpointController br ns svc) = suComplete su ModelEndpoint_watches"
| "register su TemplateController = suComplete su PromptTemplate_watches"
| "register su (GuardrailController cl) = suComplete su GuardrailPolicy_watches"
| "register su ValidatorWebhook = snd Validator_SetupWithManager"
| "register su DefaulterWebhook = snd Defaulter_SetupWithManager"
| "register su (ProxyRunnable p) = suAdd su p"
| "register su HealthzCheck = suHealthz su ''healthz''"
| "register su ReadyzCheck = suReadyz su ''readyz''"

text \<open>What is in the webhook server after some registrations.\<close>

fun hooks_of :: "registration list \<Rightarrow> (string \<times> hook) list" where
  "hooks_of [] = []"
| "hooks_of (ValidatorWebhook # rs) = fst Validator_SetupWithManager # hooks_of rs"
| "hooks_of (DefaulterWebhook # rs) = fst Defaulter_SetupWithManager # hooks_of rs"
| "hooks_of (r # rs) = hooks_of rs"

datatype exit = Success | Failure string go_error

text \<open>os.Exit(1) at the first registration that fails; the calls made are kept in order.\<close>

fun register_all :: "surroundings \<Rightarrow> registration list \<Rightarrow> registration list \<times> exit" where
  "register_all su [] = ([], Success)"
| "register_all su (x # xs) =
     (case register su x of
        Some err \<Rightarrow> ([x], Failure (failure_message x) err)
      | None \<Rightarrow> (let (made, e) = register_all su xs in (x # made, e)))"

definition guardrail_key :: "surroundings \<Rightarrow> EndpointKey" where
  "guardrail_key su =
     (let key = \<lparr>RoleArn = suGetenv su ''OPERATOR_ROLE_ARN'', ekRegion = suGetenv su ''AWS_REGION''\<rparr>
      in if ekRegion key = [] then key\<lparr>ekRegion := ''us-east-1''\<rparr> else key)"

text \<open>The registrations after the two controllers that need no guardrail client.\<close>

definition later_registrations :: "flags \<Rightarrow> go_error + AwsClient \<Rightarrow> registration list" where
  "later_registrations fl guardrailClient =
     (case guardrailClient of Inl err \<Rightarrow> [] | Inr cl \<Rightarrow> [GuardrailController cl])
     @ (if enableWebhooks fl then [ValidatorWebhook, DefaulterWebhook] else [])
     @ [ProxyRunnable (newRunnableProxy (NewServer \<lparr>ListenAddr = proxyAddr fl, cfgReadTimeout = 0, cfgWriteTimeout = 0\<rparr>)),
        HealthzCheck, ReadyzCheck]"

definition main :: "flags \<Rightarrow> surroundings \<Rightarrow> registration list \<times> exit" where
  "main fl su =
     (case suNewManager su (options_of fl) of
        Some err \<Rightarrow> ([], Failure ''creating manager'' err)
      | None \<Rightarrow>
          (case NewClient (suLoadConfig su) of
             Inl err \<Rightarrow> ([], Failure ''creating bedrock client'' err)
           | Inr br \<Rightarrow>
               (case register_all su [EndpointController br (proxyNamespace fl) (proxyServiceName fl), TemplateController] of
                  (rs, Failure msg err) \<Rightarrow> (rs, Failure msg err)
                | (rs, Success) \<Rightarrow>
                    (let (guardrailClient, br) = NewGuardrailClient br (guardrail_key su)
                     in case register_all su (later_registrations fl guardrailClient) of
                          (rs', Failure msg err) \<Rightarrow> (rs @ rs', Failure msg err)
                        | (rs', Success) \<Rightarrow>
                            (case suStart su (rs @ rs') of
                               Some err \<Rightarrow> (rs @ rs', Failure ''manager exited with error'' err)
                             | None \<Rightarrow> (rs @ rs', Success))))))"

subsection \<open>Lemmas\<close>

lemma register_all_Success:
  "snd (register_all su xs) = Success \<longleftrightarrow> (\<forall>x \<in> set xs. register su x = None)"
  by (induction xs) (auto split: option.split prod.split)

lemma register_all_done: "snd (register_all su xs) = Success \<Longrightarrow> fst (register_all su xs) = xs"
  by (induction xs) (auto split: option.splits prod.splits)

lemma register_all_prefix: "prefix (fst (register_all su xs)) xs"
  by (induction xs) (auto split: option.split prod.split)

lemma register_all_Failure:
  "register_all su xs = (rs, Failure msg err) \<Longrightarrow>
   \<exists>ys x. rs = ys @ [x] \<and> register su x = Some err \<and> msg = failure_message x \<and> (\<forall>y \<in> set ys. register su y = None)"
proof (induction xs arbitrary: rs)
  case (Cons x xs)
  show ?case
  proof (cases "register su x")
    case None
    then obtain rs' where "register_all su xs = (rs', Failure msg err)" "rs = x # rs'"
      using Cons.prems by (auto split: prod.splits)
    with Cons.IH obtain ys z where "rs = (x # ys) @ [z]" "register su z = Some err" "msg = failure_message z"
      "\<forall>y \<in> set (x # ys). register su y = None" using None by auto
    then show ?thesis by blast
  next
    case (Some e)
    then show ?thesis using Cons.prems by (intro exI [of _ "[]"] exI [of _ x]) simp
  qed
qed simp

text \<open>Building the guardrail client cannot fail, since assuming a role makes no call.\<close>

lemma NewGuardrailClient_config:
  assumes "client_wf br"
  shows "\<exists>cl br'. NewGuardrailClient br key = (Inr cl, br') \<and> client_wf br' \<and> baseConfig br' = baseConfig br \<and>
    clConfig cl = (if RoleArn key = [] then (if ekRegion key \<noteq> [] then (baseConfig br)\<lparr>cfgRegion := ekRegion key\<rparr> else baseConfig br)
      else role_config (baseConfig br) key)"
proof (cases "RoleArn key = []")
  case True
  then show ?thesis using assms
    by (auto simp: NewGuardrailClient_def NewFromConfig_def Let_def client_wf_def less_Suc_eq)
next
  case False
  obtain r c where c: "controlClient br key = (r, c)" by fastforce
  with controlClient_wf [OF assms this] False show ?thesis by (auto simp: NewGuardrailClient_def)
qed

lemma NewClient_base: "NewClient l = Inr br \<Longrightarrow> l = Inr (baseConfig br)"
  by (auto simp: NewClient_def split: sum.splits)

text \<open>The registrations of a start that succeeds.\<close>

definition all_registrations :: "flags \<Rightarrow> BedrockClient \<Rightarrow> AwsClient \<Rightarrow> registration list" where
  "all_registrations fl br cl =
     [EndpointController br (proxyNamespace fl) (proxyServiceName fl), TemplateController, GuardrailController cl]
     @ (if enableWebhooks fl then [ValidatorWebhook, DefaulterWebhook] else [])
     @ [ProxyRunnable \<lparr>rpServer = \<lparr>Addr = proxyAddr fl, ReadTimeout = 10 * 10 ^ 9, WriteTimeout = 120 * 10 ^ 9\<rparr>\<rparr>, HealthzCheck, ReadyzCheck]"

lemma later_registrations_all:
  "EndpointController br (proxyNamespace fl) (proxyServiceName fl) # TemplateController # later_registrations fl (Inr cl)
     = all_registrations fl br cl"
  by (simp add: later_registrations_def all_registrations_def NewServer_def newRunnableProxy_def)

lemma register_all_append:
  "register_all su (xs @ ys) =
     (case register_all su xs of
        (rs, Failure m e) \<Rightarrow> (rs, Failure m e)
      | (rs, Success) \<Rightarrow> (let (rs', e) = register_all su ys in (rs @ rs', e)))"
  by (induction xs) (auto split: option.split prod.split exit.split)

text \<open>main is the registration of all of them, followed by the manager's run.\<close>

lemma main_run:
  assumes "suNewManager su (options_of fl) = None" "NewClient (suLoadConfig su) = Inr br"
    and "NewGuardrailClient br (guardrail_key su) = (Inr cl, br')"
  shows "main fl su =
    (case register_all su (all_registrations fl br cl) of
       (rs, Failure m e) \<Rightarrow> (rs, Failure m e)
     | (rs, Success) \<Rightarrow> (case suStart su rs of Some err \<Rightarrow> (rs, Failure ''manager exited with error'' err) | None \<Rightarrow> (rs, Success)))"
proof -
  let ?first = "[EndpointController br (proxyNamespace fl) (proxyServiceName fl), TemplateController]"
  have all: "all_registrations fl br cl = ?first @ later_registrations fl (Inr cl)"
    using later_registrations_all [of br fl cl] by simp
  show ?thesis
    unfolding main_def assms(1) option.case assms(2) sum.case all register_all_append
    by (simp only: assms(3) Let_def prod.case split: exit.split prod.split) auto
qed

lemma main_run_all:
  assumes "suNewManager su (options_of fl) = None" "suLoadConfig su = Inr cfg"
  shows "\<exists>br cl. NewClient (Inr cfg) = Inr br
    \<and> clConfig cl = (let base = cfg\<lparr>cfgRegion := if suGetenv su ''AWS_REGION'' = [] then ''us-east-1'' else suGetenv su ''AWS_REGION''\<rparr>
        in if suGetenv su ''OPERATOR_ROLE_ARN'' = [] then base
           else base\<lparr>cfgCreds := AssumeRole (cfgCreds cfg) (suGetenv su ''OPERATOR_ROLE_ARN'') ''k8s-ai-operator''\<rparr>)
    \<and> (let rs = [EndpointController br (proxyNamespace fl) (proxyServiceName fl), TemplateController, GuardrailController cl]
          @ (if enableWebhooks fl then [ValidatorWebhook, DefaulterWebhook] else [])
          @ [ProxyRunnable \<lparr>rpServer = \<lparr>Addr = proxyAddr fl, ReadTimeout = 10 * 10 ^ 9, WriteTimeout = 120 * 10 ^ 9\<rparr>\<rparr>,
             HealthzCheck, ReadyzCheck]
       in if \<forall>x \<in> set rs. register su x = None
          then main fl su = (rs, case suStart su rs of None \<Rightarrow> Success | Some err \<Rightarrow> Failure ''manager exited with error'' err)
          else \<exists>ys x err. main fl su = (ys @ [x], Failure (failure_message x) err) \<and> prefix (ys @ [x]) rs
            \<and> register su x = Some err \<and> (\<forall>y \<in> set ys. register su y = None))"
proof -
  obtain br where br: "NewClient (suLoadConfig su) = Inr br" "baseConfig br = cfg"
    using assms(2) by (simp add: NewClient_def)
  have wf: "client_wf br" by (rule NewClient_wf [OF br(1)])
  obtain cl br' where cl: "NewGuardrailClient br (guardrail_key su) = (Inr cl, br')"
    and cfg: "clConfig cl = (let base = cfg\<lparr>cfgRegion := if suGetenv su ''AWS_REGION'' = [] then ''us-east-1'' else suGetenv su ''AWS_REGION''\<rparr>
        in if suGetenv su ''OPERATOR_ROLE_ARN'' = [] then base
           else base\<lparr>cfgCreds := AssumeRole (cfgCreds cfg) (suGetenv su ''OPERATOR_ROLE_ARN'') ''k8s-ai-operator''\<rparr>)"
    using NewGuardrailClient_config [OF wf, of "guardrail_key su"] br(2)
    by (auto simp: guardrail_key_def Let_def role_config_def)
  let ?rs = "all_registrations fl br cl"
  note run = main_run [OF assms(1) br(1) cl]
  have "if \<forall>x \<in> set ?rs. register su x = None
          then main fl su = (?rs, case suStart su ?rs of None \<Rightarrow> Success | Some err \<Rightarrow> Failure ''manager exited with error'' err)
          else \<exists>ys x err. main fl su = (ys @ [x], Failure (failure_message x) err) \<and> prefix (ys @ [x]) ?rs
            \<and> register su x = Some err \<and> (\<forall>y \<in> set ys. register su y = None)"
  proof (cases "register_all su ?rs")
    case (Pair rs e)
    show ?thesis
    proof (cases e)
      case Success
      then have "rs = ?rs" "\<forall>x \<in> set ?rs. register su x = None"
        using Pair register_all_done [of su ?rs] register_all_Success [of su ?rs] by simp_all
      then show ?thesis using run Pair Success by (simp split: option.split)
    next
      case (Failure m err)
      then obtain ys x where "rs = ys @ [x]" "register su x = Some err" "m = failure_message x"
        "\<forall>y \<in> set ys. register su y = None"
        using register_all_Failure Pair by blast
      moreover have "prefix rs ?rs" using register_all_prefix [of su ?rs] Pair by simp
      moreover have "\<not> (\<forall>x \<in> set ?rs. register su x = None)"
        using register_all_Success [of su ?rs] Pair Failure by simp
      ultimately show ?thesis using run Pair Failure by auto
    qed
  qed
  note outcome = this [unfolded all_registrations_def]
  have new: "NewClient (Inr cfg) = Inr br" using br(1) assms(2) by simp
  show ?thesis
    by (rule exI [of _ br], rule exI [of _ cl], intro conjI, rule new, rule cfg, unfold Let_def, rule outcome)
qed

subsection \<open>What main sets up\<close>

text \<open>Once the manager and the AWS configuration are there, main registers the endpoint, template
  and guardrail controllers, then the two webhooks exactly when they are enabled, then the proxy with its
  default timeouts and the probes, in this order; it stops at the first registration that fails, with
  that error, and starts the manager only when all of them succeeded, whose error is its own. The
  guardrail controller is never left out: its client is always built, in the region of AWS\_REGION or
  us-east-1, with the role of OPERATOR\_ROLE\_ARN if there is one.\<close>

theorem main_wires:
  assumes "suNewManager su (options_of fl) = None" "suLoadConfig su = Inr cfg"
  shows "\<exists>br cl. NewClient (Inr cfg) = Inr br
    \<and> clConfig cl = (let base = cfg\<lparr>cfgRegion := if suGetenv su ''AWS_REGION'' = [] then ''us-east-1'' else suGetenv su ''AWS_REGION''\<rparr>
        in if suGetenv su ''OPERATOR_ROLE_ARN'' = [] then base
           else base\<lparr>cfgCreds := AssumeRole (cfgCreds cfg) (suGetenv su ''OPERATOR_ROLE_ARN'') ''k8s-ai-operator''\<rparr>)
    \<and> (let rs = [EndpointController br (proxyNamespace fl) (proxyServiceName fl), TemplateController, GuardrailController cl]
          @ (if enableWebhooks fl then [ValidatorWebhook, DefaulterWebhook] else [])
          @ [ProxyRunnable \<lparr>rpServer = \<lparr>Addr = proxyAddr fl, ReadTimeout = 10 * 10 ^ 9, WriteTimeout = 120 * 10 ^ 9\<rparr>\<rparr>,
             HealthzCheck, ReadyzCheck]
       in if \<forall>x \<in> set rs. register su x = None
          then main fl su = (rs, case suStart su rs of None \<Rightarrow> Success | Some err \<Rightarrow> Failure ''manager exited with error'' err)
          else \<exists>ys x err. main fl su = (ys @ [x], Failure (failure_message x) err) \<and> prefix (ys @ [x]) rs
            \<and> register su x = Some err \<and> (\<forall>y \<in> set ys. register su y = None))"
  by (rule main_run_all [OF assms])

definition quiet_surroundings :: surroundings where
  "quiet_surroundings =
     \<lparr>suNewManager = (\<lambda>opts. None), suLoadConfig = Inr sample_cfg, suGetenv = (\<lambda>v. []),
      suComplete = (\<lambda>b. None), suAdd = (\<lambda>p. None), suHealthz = (\<lambda>n. None), suReadyz = (\<lambda>n. None), suStart = (\<lambda>rs. None)\<rparr>"

theorem main_wires_witness:
  "\<exists>br cl. main default_flags quiet_surroundings =
      ([EndpointController br ''ai-operator-system'' ''k8s-ai-operator-proxy'', TemplateController, GuardrailController cl,
        ProxyRunnable \<lparr>rpServer = \<lparr>Addr = '':8090'', ReadTimeout = 10 * 10 ^ 9, WriteTimeout = 120 * 10 ^ 9\<rparr>\<rparr>, HealthzCheck, ReadyzCheck], Success)
    \<and> clConfig cl = sample_cfg\<lparr>cfgRegion := ''us-east-1''\<rparr>"
proof -
  have "suNewManager quiet_surroundings (options_of default_flags) = None" "suLoadConfig quiet_surroundings = Inr sample_cfg"
    by (simp_all add: quiet_surroundings_def)
  from main_wires [OF this] show ?thesis
    by (auto simp: quiet_surroundings_def default_flags_def Let_def)
qed

text \<open>C38: a start of the manager cannot fail in its controllers or webhooks. The scheme of main knows each
  of the six types of api/v1alpha1 by exactly the kind of its name in the group version, and Services;
  so a controller builder that refuses only unknown types accepts all three controllers. With a manager,
  an AWS configuration, and runnable and probes accepted, main therefore registers the controllers, the
  webhooks if they are enabled, the proxy and the probes, in this order, gets to the manager's run and
  returns its result. The webhook server then has the two webhooks under the paths derived from group,
  version and kind, which differ, if they are enabled, and nothing otherwise.\<close>

theorem main_starts:
  assumes "scheme_api S"
    and "\<forall>b err. suComplete su b = Some err \<longrightarrow>
      (\<exists>sc. init_scheme S = Inr sc \<and> (\<exists>t \<in> set (wFor b # wOwns b). slObjectKinds S sc t = []))"
    and "suNewManager su (options_of fl) = None" "suLoadConfig su = Inr cfg"
    and "\<forall>p. suAdd su p = None" "\<forall>n. suHealthz su n = None \<and> suReadyz su n = None"
  shows "\<exists>sc br cl rs. init_scheme S = Inr sc
    \<and> rs = [EndpointController br (proxyNamespace fl) (proxyServiceName fl), TemplateController, GuardrailController cl]
          @ (if enableWebhooks fl then [ValidatorWebhook, DefaulterWebhook] else [])
          @ [ProxyRunnable \<lparr>rpServer = \<lparr>Addr = proxyAddr fl, ReadTimeout = 10 * 10 ^ 9, WriteTimeout = 120 * 10 ^ 9\<rparr>\<rparr>,
             HealthzCheck, ReadyzCheck]
    \<and> (\<forall>kind \<in> {''ModelEndpoint'', ''ModelEndpointList'', ''PromptTemplate'', ''PromptTemplateList'',
          ''GuardrailPolicy'', ''GuardrailPolicyList''}.
        slObjectKinds S sc (api_type kind) = [\<lparr>gkGroupVersion = GroupVersion, gkKind = kind\<rparr>])
    \<and> main fl su = (rs, case suStart su rs of None \<Rightarrow> Success | Some err \<Rightarrow> Failure ''manager exited with error'' err)
    \<and> hooks_of rs = (if enableWebhooks fl
        then [(webhook_path ''validate'' GroupVersion ''ModelEndpoint'', ValidatorHook),
              (webhook_path ''mutate'' GroupVersion ''ModelEndpoint'', DefaulterHook)] else [])
    \<and> distinct (map fst (hooks_of rs))"
proof -
  obtain sc where sc: "init_scheme S = Inr sc"
    "\<forall>t \<in> set (concat SchemeBuilder). slObjectKinds S sc t = [\<lparr>gkGroupVersion = GroupVersion, gkKind = gtName t\<rparr>]"
    "slObjectKinds S sc (core_type ''Service'') \<noteq> []"
    using scheme_api.scheme_known [OF assms(1)] by blast
  have kinds: "\<forall>kind \<in> {''ModelEndpoint'', ''ModelEndpointList'', ''PromptTemplate'', ''PromptTemplateList'',
          ''GuardrailPolicy'', ''GuardrailPolicyList''}.
        slObjectKinds S sc (api_type kind) = [\<lparr>gkGroupVersion = GroupVersion, gkKind = kind\<rparr>]"
    using sc(2) by (simp add: SchemeBuilder_def policy_types_def endpoint_types_def template_types_def)
      (simp add: api_type_def)
  have complete: "suComplete su b = None" if "b \<in> {ModelEndpoint_watches, PromptTemplate_watches, GuardrailPolicy_watches}" for b
  proof -
    have "\<forall>t \<in> set (wFor b # wOwns b). slObjectKinds S sc t \<noteq> []"
      using that kinds sc(3) by (auto simp: ModelEndpoint_watches_def PromptTemplate_watches_def GuardrailPolicy_watches_def)
    then show ?thesis using assms(2) sc(1) by (cases "suComplete su b") auto
  qed
  obtain br cl where wires: "let rs = [EndpointController br (proxyNamespace fl) (proxyServiceName fl), TemplateController, GuardrailController cl]
          @ (if enableWebhooks fl then [ValidatorWebhook, DefaulterWebhook] else [])
          @ [ProxyRunnable \<lparr>rpServer = \<lparr>Addr = proxyAddr fl, ReadTimeout = 10 * 10 ^ 9, WriteTimeout = 120 * 10 ^ 9\<rparr>\<rparr>,
             HealthzCheck, ReadyzCheck]
       in if \<forall>x \<in> set rs. register su x = None
          then main fl su = (rs, case suStart su rs of None \<Rightarrow> Success | Some err \<Rightarrow> Failure ''manager exited with error'' err)
          else \<exists>ys x err. main fl su = (ys @ [x], Failure (failure_message x) err) \<and> prefix (ys @ [x]) rs
            \<and> register su x = Some err \<and> (\<forall>y \<in> set ys. register su y = None)"
    using main_run_all [OF assms(3,4)] by blast
  let ?rs = "[EndpointController br (proxyNamespace fl) (proxyServiceName fl), TemplateController, GuardrailController cl]
          @ (if enableWebhooks fl then [ValidatorWebhook, DefaulterWebhook] else [])
          @ [ProxyRunnable \<lparr>rpServer = \<lparr>Addr = proxyAddr fl, ReadTimeout = 10 * 10 ^ 9, WriteTimeout = 120 * 10 ^ 9\<rparr>\<rparr>,
             HealthzCheck, ReadyzCheck]"
  have all: "\<forall>x \<in> set ?rs. register su x = None"
    using complete assms(5,6) by (auto simp: Validator_SetupWithManager_def Defaulter_SetupWithManager_def split: if_splits)
  have run: "main fl su = (?rs, case suStart su ?rs of None \<Rightarrow> Success | Some err \<Rightarrow> Failure ''manager exited with error'' err)"
    using wires all unfolding Let_def by presburger
  have hooks: "hooks_of ?rs = (if enableWebhooks fl
        then [(webhook_path ''validate'' GroupVersion ''ModelEndpoint'', ValidatorHook),
              (webhook_path ''mutate'' GroupVersion ''ModelEndpoint'', DefaulterHook)] else [])"
    by (simp add: webhook_paths [symmetric]) (simp add: Validator_SetupWithManager_def Defaulter_SetupWithManager_def)
  moreover have "distinct (map fst (hooks_of ?rs))"
    by (simp add: Validator_SetupWithManager_def Defaulter_SetupWithManager_def)
  ultimately show ?thesis using sc(1) kinds run
    by - (rule exI [of _ sc], rule exI [of _ br], rule exI [of _ cl], rule exI [of _ ?rs], blast)
qed

text \<open>A builder that looks up its types in the scheme of main.\<close>

definition strict_surroundings :: surroundings where
  "strict_surroundings = quiet_surroundings\<lparr>suComplete := (\<lambda>b.
     case init_scheme table_scheme of
       Inl err \<Rightarrow> None
     | Inr sc \<Rightarrow> if list_ex (\<lambda>t. slObjectKinds table_scheme sc t = []) (wFor b # wOwns b)
                then Some (ErrMsg ''no kind is registered for the type'') else None)\<rparr>"

theorem main_starts_witness:
  "\<exists>sc rs. init_scheme table_scheme = Inr sc
    \<and> main (default_flags\<lparr>enableWebhooks := True\<rparr>) strict_surroundings = (rs, Success)
    \<and> hooks_of rs = [(''/validate-ai-kernelpanic09-io-v1alpha1-modelendpoint'', ValidatorHook),
        (''/mutate-ai-kernelpanic09-io-v1alpha1-modelendpoint'', DefaulterHook)]"
proof -
  let ?fl = "default_flags\<lparr>enableWebhooks := True\<rparr>" and ?su = strict_surroundings
  have known: "\<forall>b err. suComplete ?su b = Some err \<longrightarrow>
      (\<exists>sc. init_scheme table_scheme = Inr sc \<and> (\<exists>t \<in> set (wFor b # wOwns b). slObjectKinds table_scheme sc t = []))"
    by (auto simp: strict_surroundings_def list_ex_iff split: sum.splits if_splits)
  have quiet: "suNewManager ?su (options_of ?fl) = None" "suLoadConfig ?su = Inr sample_cfg"
    "\<forall>p. suAdd ?su p = None" "\<forall>n. suHealthz ?su n = None \<and> suReadyz ?su n = None"
    "enableWebhooks ?fl" "suStart ?su rs = None" for rs
    by (simp_all add: strict_surroundings_def quiet_surroundings_def)
  from main_starts [OF table_scheme.scheme_api_axioms known quiet(1-4)] show ?thesis
    by (auto simp: quiet webhook_paths [symmetric] Validator_SetupWithManager_def Defaulter_SetupWithManager_def)
qed

end
