(* ===== verification/Operator_Program.thy ===== *)
theory Operator_Program
  imports Resync_Loops Admission Proxy_Server Manager
begin

section \<open>The program as a whole\<close>

text \<open>
  All parts on one cluster, as main puts them together: manifests that pass the webhooks, the reconcilers
  of endpoints and templates, the proxy, one Bedrock client that the endpoint controller and the proxy
  share, and an environment that writes other objects, injects faults and lets time pass. A state is the
  table of limiters and the operator's world. The theory shows what holds of every endpoint and of every
  call to Bedrock in the reachable states. The policy controller shares nothing with them but the cluster:
  its writes are among those of the environment.
\<close>

subsection \<open>The proxy on the operator's world\<close>

definition lift_aws :: "'w aws \<Rightarrow> 'w operator_world aws" where
  "lift_aws sdk =
     \<lparr>awsInvokeModel = (\<lambda>cl m body w.
        let (r, a) = awsInvokeModel sdk cl m body (awsWorld w) in (r, w\<lparr>awsWorld := a\<rparr>)),
      awsGetFoundationModel = (\<lambda>cl m w.
        let (r, a) = awsGetFoundationModel sdk cl m (awsWorld w) in (r, w\<lparr>awsWorld := a\<rparr>))\<rparr>"

definition operator_proxy :: "'w aws \<Rightarrow> engine \<Rightarrow> 'l limiter_lib \<Rightarrow> ('l, 'w operator_world) proxy" where
  "operator_proxy sdk T limiter =
     \<lparr>pxKube = cluster_kube, pxAws = lift_aws sdk, pxEngine = T, pxLimiter = limiter,
      pxNow = (\<lambda>w. (clock w, w\<lparr>clock := clock w + 1\<rparr>))\<rparr>"

text \<open>An SDK that records the invocations; looking up a model is none.\<close>

locale recorded_aws =
  fixes sdk :: "'w aws" and lg :: "'w \<Rightarrow> (AwsConfig \<times> string \<times> json) list"
  assumes invoke_recorded: "lg (snd (awsInvokeModel sdk cl m b a)) = lg a @ [(clConfig cl, m, b)]"
    and lookup_quiet: "lg (snd (awsGetFoundationModel sdk cl m a)) = lg a"

definition tape_aws :: "(AwsConfig \<times> string \<times> json) list aws" where
  "tape_aws =
     \<lparr>awsInvokeModel = (\<lambda>cl m body a. (Inr (Inr sample_reply), a @ [(clConfig cl, m, body)])),
      awsGetFoundationModel = (\<lambda>cl m a. (None, a))\<rparr>"

interpretation tape: recorded_aws tape_aws "\<lambda>a. a"
  by unfold_locales (simp_all add: tape_aws_def)

lemma operator_proxy_sel [simp]:
  "pxKube (operator_proxy sdk T limiter) = cluster_kube" "pxAws (operator_proxy sdk T limiter) = lift_aws sdk"
  "pxEngine (operator_proxy sdk T limiter) = T" "pxLimiter (operator_proxy sdk T limiter) = limiter"
  "pxNow (operator_proxy sdk T limiter) w = (clock w, w\<lparr>clock := clock w + 1\<rparr>)"
  by (simp_all add: operator_proxy_def)

lemma next_fault_operator: "next_fault w = (f, w') \<Longrightarrow>
    awsWorld w' = awsWorld w \<and> clock w' = clock w \<and> bedrockClient w' = bedrockClient w"
  by (auto simp: next_fault_def split: list.splits)

lemma mem_get_operator:
  "awsWorld (snd (mem_get tab meta k w)) = awsWorld w" "clock (snd (mem_get tab meta k w)) = clock w"
  "bedrockClient (snd (mem_get tab meta k w)) = bedrockClient w"
  by (auto simp: mem_get_def split: prod.split option.split dest: next_fault_operator)

context recorded_aws begin

lemma operator_proxy_env: "proxy_env (operator_proxy sdk T limiter) (lg \<circ> awsWorld) clock"
  by unfold_locales
    (auto simp: lift_aws_def case_prod_beta Let_def invoke_recorded mem_get_operator)

end

text \<open>Requests do not write the cluster.\<close>

lemma operator_keeps_objects: "keeps (operator_proxy sdk T limiter) (\<lambda>w. objects w = st)"
  by (auto simp: keeps_def lift_aws_def case_prod_beta Let_def mem_get_objects)


lemma keeps_render:
  assumes k: "keeps px P" "P w" and pt: "\<And>k v. P v \<Longrightarrow> P (snd (rGet (ptAPI (pxKube px)) k v))"
    and run: "HandleRender px r h w = (reply, ops, h', w')"
  shows "P w'"
proof (cases "\<exists>ns name req. render_wants r ns name req")
  case False
  then show ?thesis using HandleRender_unwanted [of r px h w] run k(2) by (auto simp: go_simps)
next
  case True
  then obtain ns name req where want: "render_wants r ns name req" by blast
  obtain g w1 where get: "rGet (ptAPI (pxKube px)) \<lparr>nnNamespace = ns, nnName = name\<rparr> w = (g, w1)" by fastforce
  have w1: "P w1" using pt [OF k(2), of "\<lparr>nnNamespace = ns, nnName = name\<rparr>"] get by simp
  have fwd: "P v'" if "P v" "forward_render px ns' n p x e h v = (reply', ops', h'', v')" for v v' ns' n p x e reply' ops' h''
  proof -
    obtain res c v1 where i: "Invoke (pxAws px) (endpoint_key e)
        \<lparr>iiModelId = ModelId (epSpec e), iiSystemPrompt = ptSystemPrompt (ptSpec p), iiMessages = [\<lparr>Role = ''user'', Content = x\<rparr>],
         iiMaxTokens = capped (case ptMaxTokens (ptSpec p) of None \<Rightarrow> 0 | Some n \<Rightarrow> n) (epMaxTokens (epSpec e)), iiTemperature = 0\<rparr>
        (hBedrock h) v = (res, c, v1)" by (metis prod.collapse)
    then have "v' = v1" using that(2) by (cases res) (auto simp: forward_render_def Let_def case_prod_unfold)
    then show ?thesis using Invoke_world [OF i] that(1) k(1) by (auto simp: keeps_def)
  qed
  show ?thesis
    using run w1 keeps_fetch [OF k(1) w1] unfolding HandleRender_wanted [OF want] get
    by (auto simp: Let_def split: sum.splits filled.splits prod.splits if_splits elim!: fwd [rotated])
qed

lemma served_objects:
  assumes "ServeHTTP (operator_proxy sdk T limiter) rq h w = (reply, ops, h', w')"
  shows "objects w' = objects w"
proof (cases "mux_route (rqMethod rq) (rqPath rq)")
  case (Found t)
  note keep = operator_keeps_objects [of sdk T limiter "objects w"]
  show ?thesis
  proof (cases t)
    case InvokeRoute
    then show ?thesis using assms Found keeps_invoke [OF keep, of w] by (simp add: ServeHTTP_def)
  next
    case RenderRoute
    then show ?thesis using assms Found keeps_render [OF keep, of w] by (simp add: ServeHTTP_def mem_get_objects)
  qed (use assms Found in \<open>simp add: ServeHTTP_def\<close>)
qed (use assms in \<open>simp_all add: ServeHTTP_def\<close>)

subsection \<open>Calls to Bedrock\<close>

text \<open>What a call may be for: an endpoint's region, role and model under the operator's own credentials.\<close>

definition call_for :: "AwsConfig \<Rightarrow> ModelEndpoint \<Rightarrow> AwsConfig \<times> string \<times> json \<Rightarrow> bool" where
  "call_for base ep call \<longleftrightarrow> (\<exists>input. call =
     (base\<lparr>cfgRegion := Region (epSpec ep),
        cfgCreds := AssumeRole (cfgCreds base) (IRSARoleArn (epSpec ep)) ''k8s-ai-operator''\<rparr>,
      ModelId (epSpec ep), json_request (build_request input)))"

lemma fetched_endpoint:
  "fetchEndpoint (operator_proxy sdk T limiter) ns name w = (Inr ep, w') \<Longrightarrow>
   stEndpoints (objects w) \<lparr>nnNamespace = ns, nnName = name\<rparr> = Some ep"
  using mem.ep.get_found by (fastforce simp: fetchEndpoint_def)


lemma forward_invoke_client:
  "forward_invoke px ns name ep req h w = (reply, ops, h', w') \<Longrightarrow>
   \<exists>key input v res v'. Invoke (pxAws px) key input (hBedrock h) v = (res, hBedrock h', v')"
  by (auto simp: forward_invoke_def Let_def split: prod.splits sum.splits) blast+

lemma forward_render_client:
  "forward_render px ns epName pt rendered ep h w = (reply, ops, h', w') \<Longrightarrow>
   \<exists>key input v res v'. Invoke (pxAws px) key input (hBedrock h) v = (res, hBedrock h', v')"
  by (auto simp: forward_render_def Let_def split: prod.splits sum.splits) blast+

context proxy_env begin

lemma served_client:
  assumes wf: "client_wf (hBedrock h)" and run: "ServeHTTP px r h w = (reply, ops, h', w')"
  shows "client_wf (hBedrock h') \<and> baseConfig (hBedrock h') = baseConfig (hBedrock h)"
proof -
  have "hBedrock h' = hBedrock h
      \<or> (\<exists>key input v res v'. Invoke (pxAws px) key input (hBedrock h) v = (res, hBedrock h', v'))"
  proof (cases "mux_route (rqMethod r) (rqPath r)")
    case (Found t)
    show ?thesis
    proof (cases t)
      case InvokeRoute
      then have inv: "HandleInvoke px r h w = (reply, ops, h', w')" using run Found by (simp add: ServeHTTP_def)
      show ?thesis
      proof (cases "\<exists>ns name req ep. admits px r h w ns name req ep")
        case True
        then obtain ns name req ep h2 w2 where "hBedrock h2 = hBedrock h"
          "forward_invoke px ns name ep req h2 w2 = (reply, ops, h', w')"
          using HandleInvoke_admitted [OF wf inv] by blast
        then show ?thesis using forward_invoke_client by metis
      qed (use HandleInvoke_refused [OF inv] in blast)
    next
      case RenderRoute
      then have ren: "HandleRender px r h w = (reply, ops, h', w')" using run Found by (simp add: ServeHTTP_def)
      show ?thesis
      proof (cases "\<exists>ns pt rendered ep. renders px r w ns pt rendered ep")
        case True
        then obtain ns n pt rendered ep w2 where "forward_render px ns n pt rendered ep h w2 = (reply, ops, h', w')"
          using HandleRender_admitted [OF ren] by blast
        then show ?thesis using forward_render_client [of px ns n pt rendered ep h w2] by metis
      qed (use HandleRender_refused [OF ren] in blast)
    qed (use run Found in \<open>simp add: ServeHTTP_def\<close>)
  qed (use run in \<open>simp_all add: ServeHTTP_def\<close>)
  then show ?thesis using wf Invoke_wf [OF wf] by metis
qed

end

context recorded_aws begin

lemma served_calls:
  assumes wf: "client_wf (hBedrock h)" and run: "ServeHTTP (operator_proxy sdk T limiter) rq h w = (reply, ops, h', w')"
  shows "lg (awsWorld w') = lg (awsWorld w)
    \<or> (\<exists>k ep call. stEndpoints (objects w) k = Some ep \<and> Available (epStatus ep)
        \<and> call_for (baseConfig (hBedrock h)) ep call \<and> lg (awsWorld w') = lg (awsWorld w) @ [call])"
proof -
  let ?px = "operator_proxy sdk T limiter"
  note cases = proxy_env.served_cases [OF operator_proxy_env wf run]
  have inv: "stEndpoints (objects w) \<lparr>nnNamespace = ns, nnName = name\<rparr> = Some ep \<and> Available (epStatus ep)"
    if "admits ?px rq h w ns name req ep" for ns name req ep
    using that fetched_endpoint [of sdk T limiter ns name w ep "snd (fetchEndpoint ?px ns name w)"]
    by (simp add: admits_def prod_eq_iff)
  have ren: "\<exists>k. stEndpoints (objects w) k = Some ep \<and> Available (epStatus ep)" if "renders ?px rq w ns pt rendered ep" for ns pt rendered ep
  proof -
    obtain name w1 w2 where "rGet (ptAPI (pxKube ?px)) \<lparr>nnNamespace = ns, nnName = name\<rparr> w = (Inr pt, w1)"
      "fetchEndpoint ?px ns (refName (ptModelEndpointRef (ptSpec pt))) w1 = (Inr ep, w2)" "Available (epStatus ep)"
      using \<open>renders ?px rq w ns pt rendered ep\<close> unfolding renders_def by blast
    moreover then have "objects w1 = objects w" using mem_get_objects [of stTemplates ptMeta] by (metis cluster_kube_sel(4) operator_proxy_sel(1) snd_conv)
    ultimately show ?thesis using fetched_endpoint by metis
  qed
  show ?thesis
    using cases
  proof
    assume "\<exists>ns name ep input. rqMethod rq = ''POST'' \<and> plain_segment ns \<and> name \<noteq> []
        \<and> (lg \<circ> awsWorld) w' = (lg \<circ> awsWorld) w @ [((baseConfig (hBedrock h))\<lparr>cfgRegion := Region (epSpec ep),
             cfgCreds := AssumeRole (cfgCreds (baseConfig (hBedrock h))) (IRSARoleArn (epSpec ep)) ''k8s-ai-operator''\<rparr>,
           ModelId (epSpec ep), json_request (build_request input))]
        \<and> (rqPath rq = ''/invoke/'' @ ns @ ''/'' @ name
             \<and> (\<exists>req. admits ?px rq h w ns name req ep \<and> input = invoke_input req ep)
           \<or> rqPath rq = ''/render/'' @ ns @ ''/'' @ name
             \<and> (\<exists>pt rendered. renders ?px rq w ns pt rendered ep \<and> input = render_input pt ep rendered))"
    then obtain ns name ep input where call: "(lg \<circ> awsWorld) w' = (lg \<circ> awsWorld) w @ [((baseConfig (hBedrock h))\<lparr>cfgRegion := Region (epSpec ep),
             cfgCreds := AssumeRole (cfgCreds (baseConfig (hBedrock h))) (IRSARoleArn (epSpec ep)) ''k8s-ai-operator''\<rparr>,
           ModelId (epSpec ep), json_request (build_request input))]"
      and why: "rqPath rq = ''/invoke/'' @ ns @ ''/'' @ name
             \<and> (\<exists>req. admits ?px rq h w ns name req ep \<and> input = invoke_input req ep)
           \<or> rqPath rq = ''/render/'' @ ns @ ''/'' @ name
             \<and> (\<exists>pt rendered. renders ?px rq w ns pt rendered ep \<and> input = render_input pt ep rendered)"
      by blast
    obtain k where "stEndpoints (objects w) k = Some ep" "Available (epStatus ep)" using why inv ren by blast
    then show ?thesis using call unfolding call_for_def comp_def by blast
  qed simp
qed

end


subsection \<open>What a turn of the endpoint controller does\<close>

lemma reconcile_keeps:
  assumes "P (snd (rGet (epAPI (epClient r)) req w))" "\<And>x v. P v \<Longrightarrow> P (snd (rUpdate (epAPI (epClient r)) x v))"
    "\<And>b x v. P v \<Longrightarrow> P (snd (rPatchStatus (epAPI (epClient r)) b x v))"
    "\<And>d f v. P v \<Longrightarrow> P (snd (createOrUpdateService (epClient r) d f v))" "\<And>v. P v \<Longrightarrow> P (snd (metaNow (epClient r) v))"
    "\<And>key m v. P v \<Longrightarrow> P (snd (cHealthCheck (epBedrock r) key m v))" "\<And>key v. P v \<Longrightarrow> P (cInvalidateCache (epBedrock r) key v)"
  shows "P (endpoint_turn r req w)"
proof -
  have service: "P (snd (reconcileService r ep v))" if "P v" for ep v
    using that assms(4) by (simp add: reconcileService_def case_prod_beta split: sum.split option.split)
  have deletion: "P (snd (snd (handleDeletion r ep v)))" if "P v" for ep v
    using that assms(2,7) by (simp add: handleDeletion_def Let_def case_prod_beta split: option.split)
  show ?thesis
    using assms(1-3,5,6) service deletion
    by (simp add: endpoint_turn_def ModelEndpoint_Reconcile_def Let_def case_prod_beta split: sum.split option.split)
qed

lemma mem_operator:
  "awsWorld (snd (mem_update tab set_tab meta spec status set_status set_gen obj w)) = awsWorld w"
  "bedrockClient (snd (mem_update tab set_tab meta spec status set_status set_gen obj w)) = bedrockClient w"
  "awsWorld (snd (mem_patch tab set_tab meta status set_status merge base obj w)) = awsWorld w"
  "bedrockClient (snd (mem_patch tab set_tab meta status set_status merge base obj w)) = bedrockClient w"
  "awsWorld (snd (mem_create_or_update d f w)) = awsWorld w"
  "bedrockClient (snd (mem_create_or_update d f w)) = bedrockClient w"
  by (auto simp: mem_update_def mem_patch_def mem_create_or_update_def Let_def split: prod.split option.split
      dest: next_fault_operator)

context recorded_aws begin

lemma turn_keeps:
  assumes "client_wf (bedrockClient w)" "w' = endpoint_turn (operator_reconciler sdk ns svc) req w"
  shows "client_wf (bedrockClient w') \<and> baseConfig (bedrockClient w') = baseConfig (bedrockClient w)
    \<and> lg (awsWorld w') = lg (awsWorld w)"
proof -
  let ?P = "\<lambda>v. client_wf (bedrockClient v) \<and> baseConfig (bedrockClient v) = baseConfig (bedrockClient w)
    \<and> lg (awsWorld v) = lg (awsWorld w)"
  have check: "?P (snd (cHealthCheck (bedrock_checker sdk) key m v))" if v: "?P v" for key m v
  proof -
    obtain h c a where run: "HealthCheck sdk key m (bedrockClient v) (awsWorld v) = (h, c, a)" by (metis prod.collapse)
    have "lg a = lg (awsWorld v)"
      using run lookup_quiet by (auto simp: HealthCheck_def CheckModelAvailability_def split: prod.splits sum.splits option.splits) (metis snd_conv)+
    moreover have "client_wf (bedrockClient v)" using v by simp
    ultimately show ?thesis using HealthCheck_wf [OF _ run] v run by (simp add: bedrock_checker_def)
  qed
  have "baseConfig (InvalidateCache c key) = baseConfig c" for c key by (simp add: InvalidateCache_def)
  then have evict: "?P (cInvalidateCache (bedrock_checker sdk) key v)" if "?P v" for key v
    using that InvalidateCache_wf by (simp add: bedrock_checker_def)
  have "?P (endpoint_turn (operator_reconciler sdk ns svc) req w)"
    by (rule reconcile_keeps) (use assms(1) check evict in \<open>simp_all add: mem_operator mem_get_operator\<close>)
  then show ?thesis using assms(2) by simp
qed

end


text \<open>What becomes of the endpoint of a turn.\<close>

inductive turned :: "ModelEndpoint \<Rightarrow> ModelEndpoint option \<Rightarrow> bool" where
  finalizer_added: "turned ep (Some (ep\<lparr>epMeta := (epMeta ep)\<lparr>Finalizers := Finalizers (epMeta ep) @ [FinalizerName]\<rparr>\<rparr>))"
| finalizer_removed: "turned ep (Some (ep\<lparr>epMeta := (epMeta ep)\<lparr>Finalizers := filter (\<lambda>x. x \<noteq> FinalizerName) (Finalizers (epMeta ep))\<rparr>\<rparr>))"
| removed: "turned ep None"
| status_written: "hrAvailable h \<longleftrightarrow> hrReason h = ''ModelAvailable'' \<Longrightarrow>
    turned ep (Some (ep\<lparr>epStatus := endpoint_status ep h (service_name ep) t1 t2\<rparr>))"

lemma mem_failed:
  "mem_update tab set_tab meta spec status set_status set_gen obj w = (Some e, w') \<Longrightarrow> objects w' = objects w"
  "mem_patch tab set_tab meta status set_status merge base obj w = (Some e, w') \<Longrightarrow> objects w' = objects w"
  by (auto simp: mem_update_def mem_patch_def Let_def split: prod.splits option.splits dest: next_fault_objects)

lemma service_endpoints:
  "stEndpoints (objects (snd (reconcileService (operator_reconciler sdk ns svc) ep w))) = stEndpoints (objects w)"
proof -
  have frame: "stEndpoints (objects (snd (mem_create_or_update d f w))) = stEndpoints (objects w)" for d f
    using mem.service_frame [of d f w] by simp
  show ?thesis by (simp add: reconcileService_def case_prod_beta frame split: sum.split option.split)
qed

lemma failed_turn:
  assumes "ModelEndpoint_Reconcile (operator_reconciler sdk ns svc) req w = ((res, Some err), ops, w')"
  shows "stEndpoints (objects w') = stEndpoints (objects w)"
proof -
  let ?r = "operator_reconciler sdk ns svc"
  obtain g w1 where get: "mem_get stEndpoints epMeta req w = (g, w1)" by fastforce
  have w1: "objects w1 = objects w" using mem_get_objects [of stEndpoints epMeta req w] get by simp
  show ?thesis
  proof (cases g)
    case (Inl e)
    then show ?thesis using assms get w1 by (auto simp: ModelEndpoint_Reconcile_def split: if_splits)
  next
    case (Inr ep)
    obtain h w2 where check: "cHealthCheck (bedrock_checker sdk) (endpoint_key ep) (ModelId (epSpec ep)) w1 = (h, w2)" by fastforce
    have w2: "objects w2 = objects w" using memory.health_frame [of sdk "endpoint_key ep" "ModelId (epSpec ep)" w1] check w1 by simp
    obtain s w3 where svc: "reconcileService ?r ep w2 = (s, w3)" by fastforce
    have w3: "stEndpoints (objects w3) = stEndpoints (objects w)" using service_endpoints [of sdk ns svc ep w2] svc w2 by simp
    have evict: "objects (cInvalidateCache (bedrock_checker sdk) key w1) = objects w1" for key by (rule memory.evict_frame)
    show ?thesis using assms w1 w3 evict
      by (auto simp: ModelEndpoint_Reconcile_def get Inr check svc handleDeletion_def Let_def
          split: if_splits prod.splits option.splits sum.splits dest!: mem_failed)
  qed
qed

lemma turn_effect:
  assumes "w' = endpoint_turn (operator_reconciler sdk ns svc) req w"
  shows "stEndpoints (objects w') = stEndpoints (objects w)
    \<or> (\<exists>ep new. stEndpoints (objects w) req = Some ep \<and> turned ep new
        \<and> stEndpoints (objects w') = (stEndpoints (objects w))(req := new))"
proof -
  let ?r = "operator_reconciler sdk ns svc"
  obtain res err ops where run: "ModelEndpoint_Reconcile ?r req w = ((res, err), ops, w')"
    using assms by (metis endpoint_turn_def prod.collapse)
  note r = operator_reconciler_sel [of sdk ns svc]
  show ?thesis
  proof (cases err)
    case (Some e)
    then show ?thesis using failed_turn run by blast
  next
    case None
    note run = run [unfolded None]
    show ?thesis
    proof (cases "stEndpoints (objects w) req")
      case missing: None
      have "objects w' = objects w"
        using run r
      proof (cases rule: memory.reconcile_ok_cases)
        case (missing e w1)
        then show ?thesis using mem_get_objects [of stEndpoints epMeta req w] by simp
      qed (use missing mem.ep.get_found [of req w] in \<open>auto\<close>)
      then show ?thesis by simp
    next
      case (Some ep)
      consider "\<not> IsZero (DeletionTimestamp (epMeta ep))" "FinalizerName \<notin> set (Finalizers (epMeta ep))"
        | "\<not> IsZero (DeletionTimestamp (epMeta ep))" "FinalizerName \<in> set (Finalizers (epMeta ep))"
        | "IsZero (DeletionTimestamp (epMeta ep))" "FinalizerName \<notin> set (Finalizers (epMeta ep))"
        | "IsZero (DeletionTimestamp (epMeta ep))" "FinalizerName \<in> set (Finalizers (epMeta ep))" by blast
      then show ?thesis
      proof cases
        case 1
        obtain g w1 where get: "rGet (epAPI cluster_kube) req w = (g, w1)" by fastforce
        have "objects w1 = objects w" using mem_get_objects [of stEndpoints epMeta req w] get by simp
        then have "objects w' = objects w" using run get 1 memory.get_stored [OF Some, of _ w1]
          by (cases g) (auto simp: ModelEndpoint_Reconcile_def handleDeletion_def Let_def split: if_splits)
        then show ?thesis by simp
      next
        case 2
        note st = memory.deleted_state [OF run r Some 2]
        then show ?thesis using Some turned.removed [of ep] turned.finalizer_removed [of ep]
          by (auto simp: mem.remove_eq)
      next
        case 3
        note st = memory.adding_state [OF r(1) Some 3 run]
        then show ?thesis using Some turned.finalizer_added [of ep] by auto
      next
        case 4
        obtain h t1 t2 where h: "h = fst (cHealthCheck (bedrock_checker sdk) (endpoint_key ep) (ModelId (epSpec ep)) (snd (rGet (epAPI cluster_kube) req w)))"
          "stEndpoints (objects w') = (stEndpoints (objects w))(req \<mapsto> ep\<lparr>epStatus := endpoint_status ep h (service_name ep) t1 t2\<rparr>)"
          using memory.synced_store(3) [OF run r Some 4] by blast
        have "hrAvailable h \<longleftrightarrow> hrReason h = ''ModelAvailable''" unfolding h(1) by (rule memory.health_reason)
        then show ?thesis using Some h(2) turned.status_written by blast
      qed
    qed
  qed
qed

subsection \<open>The steps of the program\<close>

text \<open>What the API server stores when a manifest is applied, from the document that the webhooks return.\<close>

definition apply_manifest :: "('s \<Rightarrow> json \<Rightarrow> go_error + ModelEndpoint) \<Rightarrow> meta_codec \<Rightarrow> 's \<Rightarrow> (string \<times> hook) list
    \<Rightarrow> json \<Rightarrow> ModelEndpoint option" where
  "apply_manifest D M sc hooks raw =
     (case admit D M sc hooks raw of
        None \<Rightarrow> None
      | Some doc \<Rightarrow> (case D sc doc of Inl err \<Rightarrow> None | Inr ep \<Rightarrow> Some ep))"

text \<open>The status is a subresource: a manifest does not set it. The generation counts changes of the spec.\<close>

definition created :: "ModelEndpoint \<Rightarrow> ModelEndpoint" where
  "created ep = ep\<lparr>epMeta := (epMeta ep)\<lparr>Generation := 1, DeletionTimestamp := None\<rparr>, epStatus := zero_status\<rparr>"

definition edited :: "ModelEndpoint \<Rightarrow> ModelEndpoint \<Rightarrow> ModelEndpoint" where
  "edited old ep = ep\<lparr>
     epMeta := (epMeta ep)\<lparr>
       Generation := (if epSpec ep = epSpec old then Generation (epMeta old) else Generation (epMeta old) + 1),
       DeletionTimestamp := DeletionTimestamp (epMeta old)\<rparr>,
     epStatus := epStatus old\<rparr>"

definition marked :: "time \<Rightarrow> ModelEndpoint \<Rightarrow> ModelEndpoint option" where
  "marked t ep = (if Finalizers (epMeta ep) = [] then None
     else Some (ep\<lparr>epMeta := (epMeta ep)\<lparr>DeletionTimestamp := Some t\<rparr>\<rparr>))"

definition store_endpoint :: "NamespacedName \<Rightarrow> ModelEndpoint option \<Rightarrow> 'w operator_world \<Rightarrow> 'w operator_world" where
  "store_endpoint k new w =
     w\<lparr>objects := (objects w)\<lparr>stEndpoints := (stEndpoints (objects w))(k := new)\<rparr>\<rparr>"

record ('l, 'w) deployment =
  dpAdmits :: "json \<Rightarrow> ModelEndpoint option"
  dpAws :: "'w aws"
  dpEngine :: engine
  dpLimiter :: "'l limiter_lib"
  dpNamespace :: string
  dpService :: string

inductive program_step :: "('l, 'w) deployment \<Rightarrow> ('w \<Rightarrow> (AwsConfig \<times> string \<times> json) list)
    \<Rightarrow> (string \<rightharpoonup> 'l) \<times> 'w operator_world \<Rightarrow> (string \<rightharpoonup> 'l) \<times> 'w operator_world \<Rightarrow> bool" for d lg where
  create: "dpAdmits d raw = Some ep \<Longrightarrow> stEndpoints (objects w) (keyOf (epMeta ep)) = None \<Longrightarrow>
    program_step d lg (tab, w) (tab, store_endpoint (keyOf (epMeta ep)) (Some (created ep)) w)"
| edit: "dpAdmits d raw = Some ep \<Longrightarrow> stEndpoints (objects w) (keyOf (epMeta ep)) = Some old \<Longrightarrow>
    program_step d lg (tab, w)
      (tab, store_endpoint (keyOf (epMeta ep)) (updated_object (epMeta (edited old ep)) (edited old ep)) w)"
| delete: "stEndpoints (objects w) k = Some ep \<Longrightarrow> program_step d lg (tab, w) (tab, store_endpoint k (marked t ep) w)"
| endpoint_turn: "program_step d lg (tab, w)
    (tab, endpoint_turn (operator_reconciler (dpAws d) (dpNamespace d) (dpService d)) req w)"
| template_turn: "program_step d lg (tab, w) (tab, template_turn (dpEngine d) req w)"
| request: "ServeHTTP (operator_proxy (dpAws d) (dpEngine d) (dpLimiter d)) rq
      \<lparr>hBedrock = bedrockClient w, rateLimiters = tab\<rparr> w = (reply, ops, h', w') \<Longrightarrow>
    program_step d lg (tab, w) (rateLimiters h', w'\<lparr>bedrockClient := hBedrock h'\<rparr>)"
| environment: "stEndpoints st = stEndpoints (objects w) \<Longrightarrow> lg a = lg (awsWorld w) \<Longrightarrow>
    program_step d lg (tab, w) (tab, w\<lparr>objects := st, clock := t, faults := fs, awsWorld := a\<rparr>)"

text \<open>
  The program after a start: the client is the one main built, as the guardrail client's construction left
  it. A restart, as after a crash, forgets the clients and the limiters and finds the cluster as it is.
\<close>

definition deployed :: "('s \<Rightarrow> json \<Rightarrow> go_error + ModelEndpoint) \<Rightarrow> meta_codec \<Rightarrow> 's \<Rightarrow> flags \<Rightarrow> registration list
    \<Rightarrow> 'w aws \<Rightarrow> engine \<Rightarrow> 'l limiter_lib \<Rightarrow> ('l, 'w) deployment" where
  "deployed D M sc fl rs sdk T limiter =
     \<lparr>dpAdmits = apply_manifest D M sc (hooks_of rs), dpAws = sdk, dpEngine = T, dpLimiter = limiter,
      dpNamespace = proxyNamespace fl, dpService = proxyServiceName fl\<rparr>"

definition started_client :: "surroundings \<Rightarrow> BedrockClient \<Rightarrow> bool" where
  "started_client su c \<longleftrightarrow>
     (case NewClient (suLoadConfig su) of Inl err \<Rightarrow> False | Inr br \<Rightarrow> c = snd (NewGuardrailClient br (guardrail_key su)))"

definition program_start :: "surroundings \<Rightarrow> ('w \<Rightarrow> (AwsConfig \<times> string \<times> json) list)
    \<Rightarrow> (string \<rightharpoonup> 'l) \<times> 'w operator_world \<Rightarrow> bool" where
  "program_start su lg s \<longleftrightarrow> fst s = Map.empty
     \<and> started_client su (bedrockClient (snd s)) \<and> stEndpoints (objects (snd s)) = Map.empty \<and> lg (awsWorld (snd s)) = []"

inductive program_reach :: "surroundings \<Rightarrow> ('l, 'w) deployment \<Rightarrow> ('w \<Rightarrow> (AwsConfig \<times> string \<times> json) list)
    \<Rightarrow> (string \<rightharpoonup> 'l) \<times> 'w operator_world \<Rightarrow> bool" for su d lg where
  start: "program_start su lg s \<Longrightarrow> program_reach su d lg s"
| step: "program_reach su d lg s \<Longrightarrow> program_step d lg s s' \<Longrightarrow> program_reach su d lg s'"
| restart: "program_reach su d lg (tab, w) \<Longrightarrow> started_client su c \<Longrightarrow>
    program_reach su d lg (Map.empty, w\<lparr>bedrockClient := c\<rparr>)"

subsection \<open>The invariant\<close>

definition sound_endpoint :: "NamespacedName \<Rightarrow> ModelEndpoint \<Rightarrow> bool" where
  "sound_endpoint k ep \<longleftrightarrow> keyOf (epMeta ep) = k \<and> validateModelEndpoint ep = None \<and> apply_defaults ep = ep
     \<and> epObservedGeneration (epStatus ep) \<le> Generation (epMeta ep)
     \<and> (Available (epStatus ep) \<longrightarrow> ServiceName (epStatus ep) = service_name ep
         \<and> (\<forall>ty \<in> {ConditionBedrockReachable, ConditionReady}. \<exists>c. condition_of ty (epConditions (epStatus ep)) = Some c
              \<and> cStatus c = ConditionTrue \<and> cReason c = ''ModelAvailable''))"

definition program_inv :: "AwsConfig \<Rightarrow> ('w \<Rightarrow> (AwsConfig \<times> string \<times> json) list)
    \<Rightarrow> (string \<rightharpoonup> 'l) \<times> 'w operator_world \<Rightarrow> bool" where
  "program_inv base lg s \<longleftrightarrow> client_wf (bedrockClient (snd s)) \<and> baseConfig (bedrockClient (snd s)) = base
     \<and> (\<forall>k ep. stEndpoints (objects (snd s)) k = Some ep \<longrightarrow> sound_endpoint k ep)
     \<and> (\<forall>call \<in> set (lg (awsWorld (snd s))). \<exists>ep. validateModelEndpoint ep = None \<and> call_for base ep call)"

text \<open>The webhooks look at the spec alone.\<close>

lemma validate_spec: "epSpec ep' = epSpec ep \<Longrightarrow> validateModelEndpoint ep' = validateModelEndpoint ep"
  by (simp only: validateModelEndpoint_def)

lemma validate_meta [simp]:
  "validateModelEndpoint (ep\<lparr>epMeta := m\<rparr>) = validateModelEndpoint ep"
  "validateModelEndpoint (ep\<lparr>epStatus := s\<rparr>) = validateModelEndpoint ep"
  by (rule validate_spec, simp)+

lemma defaults_spec: "apply_defaults ep = ep \<longleftrightarrow> epMaxTokens (epSpec ep) \<noteq> None \<and> RateLimit (epSpec ep) \<noteq> None"
proof
  assume "apply_defaults ep = ep"
  then have "epMaxTokens (epSpec (apply_defaults ep)) = epMaxTokens (epSpec ep)"
    "RateLimit (epSpec (apply_defaults ep)) = RateLimit (epSpec ep)" by simp_all
  then show "epMaxTokens (epSpec ep) \<noteq> None \<and> RateLimit (epSpec ep) \<noteq> None"
    unfolding apply_defaults_fields by (metis option.case_eq_if option.distinct(1))
qed (cases ep, auto simp: apply_defaults_def Let_def)

lemmas sound_defs = sound_endpoint_def defaults_spec keyOf_def service_name_def

text \<open>A turn of the controller keeps an endpoint sound.\<close>

lemma turned_sound:
  assumes "turned ep new" "sound_endpoint k ep" "new = Some ep'"
  shows "sound_endpoint k ep'"
  using assms(1)
proof cases
  case (status_written h t1 t2)
  let ?st = "endpoint_status ep h (service_name ep) t1 t2"
  have ep': "ep' = ep\<lparr>epStatus := ?st\<rparr>" using status_written(1) assms(3) by simp
  have conds: "\<exists>c. condition_of ty (epConditions ?st) = Some c \<and> cStatus c = ConditionTrue \<and> cReason c = ''ModelAvailable''"
    if ty: "ty \<in> {ConditionBedrockReachable, ConditionReady}" and up: "hrAvailable h" for ty
  proof -
    obtain c where "condition_of ty (epConditions ?st) = Some c" "cStatus c = conditionStatus (hrAvailable h)" "cReason c = hrReason h"
      using endpoint_status_condition [OF ty] by blast
    then show ?thesis using up status_written(2) by (simp add: conditionStatus_def)
  qed
  have st: "Available ?st = hrAvailable h" "ServiceName ?st = service_name ep" "epObservedGeneration ?st = Generation (epMeta ep)"
    by (simp_all add: endpoint_status_def Let_def)
  show ?thesis unfolding ep' sound_endpoint_def using assms(2) conds st
    by (simp add: sound_endpoint_def defaults_spec service_name_def)
qed (use assms(2,3) in \<open>auto simp: sound_defs\<close>)

lemma created_sound:
  "validateModelEndpoint ep = None \<Longrightarrow> apply_defaults ep = ep \<Longrightarrow> sound_endpoint (keyOf (epMeta ep)) (created ep)"
  by (simp add: sound_defs created_def zero_status_def)

lemma edited_sound:
  "validateModelEndpoint ep = None \<Longrightarrow> apply_defaults ep = ep \<Longrightarrow> sound_endpoint (keyOf (epMeta ep)) old \<Longrightarrow>
   sound_endpoint (keyOf (epMeta ep)) (edited old ep)"
  by (simp add: sound_defs edited_def)

lemma marked_sound: "sound_endpoint k ep \<Longrightarrow> marked t ep = Some ep' \<Longrightarrow> sound_endpoint k ep'"
  by (auto simp: sound_defs marked_def split: if_splits)

text \<open>A template's turn touches no endpoint and no client.\<close>

lemma template_keeps:
  assumes "\<And>k v. P v \<Longrightarrow> P (snd (rGet (ptAPI (ptClient r)) k v))" "\<And>x v. P v \<Longrightarrow> P (snd (rUpdate (ptAPI (ptClient r)) x v))"
    "\<And>b x v. P v \<Longrightarrow> P (snd (rPatchStatus (ptAPI (ptClient r)) b x v))"
    "\<And>k v. P v \<Longrightarrow> P (snd (rGet (epAPI (ptClient r)) k v))" "\<And>v. P v \<Longrightarrow> P (snd (metaNow (ptClient r) v))" "P w"
  shows "P (snd (PromptTemplate_Reconcile r req w))"
proof -
  have finish: "P (snd (template_finish r pt tv ev v))" if "P v" for pt tv ev v
    using that assms(3,5) by (simp add: template_finish_def Let_def case_prod_beta split: option.split)
  show ?thesis
    using assms(1,2,4,6) finish
    by (simp add: PromptTemplate_Reconcile_def Let_def case_prod_beta split: sum.split option.split)
qed

lemma next_fault_endpoints: "next_fault w = (f, w') \<Longrightarrow> stEndpoints (objects w') = stEndpoints (objects w)"
  by (auto dest: next_fault_objects)

lemma template_turn_frame:
  fixes w :: "'w operator_world"
  shows "stEndpoints (objects (template_turn T req w)) = stEndpoints (objects w)
    \<and> bedrockClient (template_turn T req w) = bedrockClient w \<and> awsWorld (template_turn T req w) = awsWorld w"
proof -
  let ?P = "\<lambda>v. stEndpoints (objects v) = stEndpoints (objects w) \<and> bedrockClient v = bedrockClient w \<and> awsWorld v = awsWorld w"
  have writes: "stEndpoints (objects (snd (rUpdate (ptAPI cluster_kube) x v))) = stEndpoints (objects v)"
    "stEndpoints (objects (snd (rPatchStatus (ptAPI cluster_kube) b x v))) = stEndpoints (objects v)" for x b and v :: "'w operator_world"
    by (auto simp: mem_update_def mem_patch_def Let_def split: prod.split option.split dest: next_fault_endpoints)
  have "?P (snd (PromptTemplate_Reconcile (template_reconciler T) req w))"
    by (rule template_keeps)
      (simp_all add: writes [unfolded cluster_kube_sel] mem_get_objects mem_get_operator mem_operator)
  then show ?thesis by (simp add: template_turn_def)
qed

lemma NewGuardrailClient_base:
  "client_wf br \<Longrightarrow> client_wf (snd (NewGuardrailClient br key)) \<and> baseConfig (snd (NewGuardrailClient br key)) = baseConfig br"
  using NewGuardrailClient_config [of br key] by auto

lemma started_client_base:
  "started_client su c \<Longrightarrow> suLoadConfig su = Inr base \<Longrightarrow> client_wf c \<and> baseConfig c = base"
  using NewClient_wf [of "suLoadConfig su"] NewGuardrailClient_base by (auto simp: started_client_def NewClient_def)

lemma start_inv: "program_start su lg s \<Longrightarrow> suLoadConfig su = Inr base \<Longrightarrow> program_inv base lg s"
  using started_client_base by (auto simp: program_start_def program_inv_def)

lemma inv_store:
  assumes "program_inv base lg (tab, w)" "\<And>ep. new = Some ep \<Longrightarrow> sound_endpoint k ep"
  shows "program_inv base lg (tab, store_endpoint k new w)"
  using assms by (auto simp: program_inv_def store_endpoint_def)

lemma inv_keep:
  assumes "program_inv base lg (tab, w)" "client_wf (bedrockClient w')" "baseConfig (bedrockClient w') = baseConfig (bedrockClient w)"
    and "\<And>k ep. stEndpoints (objects w') k = Some ep \<Longrightarrow> sound_endpoint k ep" "lg (awsWorld w') = lg (awsWorld w)"
  shows "program_inv base lg (tab', w')"
  using assms by (simp add: program_inv_def)

lemma program_step_inv:
  assumes "program_step d lg s s'" "program_inv base lg s" "recorded_aws (dpAws d) lg"
    and admits: "\<And>raw ep. dpAdmits d raw = Some ep \<Longrightarrow> validateModelEndpoint ep = None \<and> apply_defaults ep = ep"
  shows "program_inv base lg s'"
  using assms(1)
proof cases
  case (create raw ep w tab)
  have new: "sound_endpoint (keyOf (epMeta ep)) (created ep)" using admits [OF create(3)] created_sound by blast
  show ?thesis unfolding create(2) by (rule inv_store) (use assms(2) create(1) new in simp_all)
next
  case (edit raw ep w old tab)
  have old: "sound_endpoint (keyOf (epMeta ep)) old" using assms(2) edit by (simp add: program_inv_def)
  have new: "sound_endpoint (keyOf (epMeta ep)) (edited old ep)"
    by (rule edited_sound) (use admits [OF edit(3)] old in simp_all)
  show ?thesis unfolding edit(2)
    by (rule inv_store) (use assms(2) edit(1) new in \<open>simp_all add: updated_object_def split: if_splits\<close>)
next
  case (delete w k ep tab t)
  then have old: "sound_endpoint k ep" using assms(2) by (simp add: program_inv_def)
  have inv: "program_inv base lg (tab, w)" using assms(2) delete(1) by simp
  show ?thesis unfolding delete(2) by (rule inv_store [OF inv]) (rule marked_sound [OF old])
next
  case (endpoint_turn tab w req)
  let ?w' = "endpoint_turn (operator_reconciler (dpAws d) (dpNamespace d) (dpService d)) req w"
  have inv: "client_wf (bedrockClient w)" "\<And>k ep. stEndpoints (objects w) k = Some ep \<Longrightarrow> sound_endpoint k ep"
    using assms(2) endpoint_turn by (simp_all add: program_inv_def)
  note keeps = recorded_aws.turn_keeps [OF assms(3) inv(1) refl]
  have "sound_endpoint k ep" if "stEndpoints (objects ?w') k = Some ep" for k ep
    using turn_effect [OF refl, of "dpAws d" "dpNamespace d" "dpService d" req w]
  proof
    assume "stEndpoints (objects ?w') = stEndpoints (objects w)"
    then show ?thesis using that inv(2) by simp
  next
    assume "\<exists>old new. stEndpoints (objects w) req = Some old \<and> turned old new
        \<and> stEndpoints (objects ?w') = (stEndpoints (objects w))(req := new)"
    then obtain old new where new: "stEndpoints (objects w) req = Some old" "turned old new"
      "stEndpoints (objects ?w') = (stEndpoints (objects w))(req := new)" by blast
    show ?thesis
    proof (cases "k = req")
      case True
      then have "new = Some ep" using that new(3) by simp
      then show ?thesis using turned_sound [OF new(2) inv(2) [OF new(1)]] True by simp
    next
      case False
      then show ?thesis using that new(3) inv(2) by simp
    qed
  qed
  note sound = this
  show ?thesis unfolding endpoint_turn(2)
    by (rule inv_keep [of base lg tab w]) (use assms(2) keeps sound endpoint_turn(1) in \<open>simp_all only: simp_thms\<close>)
next
  case (template_turn tab w req)
  then show ?thesis using assms(2) template_turn_frame [of "dpEngine d" req w] by (simp add: program_inv_def)
next
  case (request rq w tab reply ops h' w')
  let ?h = "\<lparr>hBedrock = bedrockClient w, rateLimiters = tab\<rparr>"
  have inv: "client_wf (hBedrock ?h)" "baseConfig (bedrockClient w) = base"
    "\<And>k ep. stEndpoints (objects w) k = Some ep \<Longrightarrow> sound_endpoint k ep"
    "\<forall>call \<in> set (lg (awsWorld w)). \<exists>ep. validateModelEndpoint ep = None \<and> call_for base ep call"
    using assms(2) request by (simp_all add: program_inv_def)
  note px = recorded_aws.operator_proxy_env [OF assms(3)]
  have client: "client_wf (hBedrock h') \<and> baseConfig (hBedrock h') = base"
    using proxy_env.served_client [OF px inv(1) request(3)] inv(2) by simp
  have store: "objects w' = objects w" by (rule served_objects [OF request(3)])
  have "\<forall>call \<in> set (lg (awsWorld w')). \<exists>ep. validateModelEndpoint ep = None \<and> call_for base ep call"
    using recorded_aws.served_calls [OF assms(3) inv(1) request(3)]
  proof
    assume "\<exists>k ep call. stEndpoints (objects w) k = Some ep \<and> Available (epStatus ep)
        \<and> call_for (baseConfig (hBedrock ?h)) ep call \<and> lg (awsWorld w') = lg (awsWorld w) @ [call]"
    then obtain k ep call where call: "stEndpoints (objects w) k = Some ep" "call_for (baseConfig (hBedrock ?h)) ep call"
      "lg (awsWorld w') = lg (awsWorld w) @ [call]" by blast
    have "validateModelEndpoint ep = None" using inv(3) [OF call(1)] by (simp only: sound_endpoint_def)
    moreover have "call_for base ep call" using call(2) inv(2) by simp
    ultimately show ?thesis using inv(4) unfolding call(3) by auto
  qed (use inv(4) in simp)
  then show ?thesis using client store inv(3) request by (simp add: program_inv_def)
next
  case (environment st w a tab t fs)
  then show ?thesis using assms(2) by (simp add: program_inv_def)
qed

lemma program_reach_inv:
  assumes "program_reach su d lg s" "suLoadConfig su = Inr base" "recorded_aws (dpAws d) lg"
    and "\<And>raw ep. dpAdmits d raw = Some ep \<Longrightarrow> validateModelEndpoint ep = None \<and> apply_defaults ep = ep"
  shows "program_inv base lg s"
  using assms(1)
proof induction
  case (start s)
  then show ?case by (rule start_inv) (rule assms(2))
next
  case (step s s')
  show ?case by (rule program_step_inv [OF step(2,3) assms(3)]) (rule assms(4))
next
  case (restart tab w c)
  then show ?case using started_client_base [OF _ assms(2)] by (simp add: program_inv_def)
qed

subsection \<open>What main puts together\<close>

lemma main_hooks:
  assumes "main fl su = (rs, Success)" "enableWebhooks fl"
  shows "hooks_of rs = [fst Validator_SetupWithManager, fst Defaulter_SetupWithManager]"
    and "\<exists>base. suLoadConfig su = Inr base"
proof -
  have manager: "suNewManager su (options_of fl) = None"
    using assms(1) by (cases "suNewManager su (options_of fl)") (simp_all add: main_def)
  obtain br where br: "NewClient (suLoadConfig su) = Inr br"
    using assms(1) manager by (cases "NewClient (suLoadConfig su)") (simp_all add: main_def)
  show "\<exists>base. suLoadConfig su = Inr base" using NewClient_base [OF br] by blast
  obtain cl br' where "NewGuardrailClient br (guardrail_key su) = (Inr cl, br')"
    using NewGuardrailClient_config [OF NewClient_wf [OF br], of "guardrail_key su"] by blast
  note run = main_run [OF manager br this]
  obtain made e where made: "register_all su (all_registrations fl br cl) = (made, e)" by fastforce
  then have e: "e = Success" "rs = made" using assms(1) run by (cases e; auto split: option.splits)+
  then have "rs = all_registrations fl br cl" using register_all_done [of su "all_registrations fl br cl"] made by simp
  then show "hooks_of rs = [fst Validator_SetupWithManager, fst Defaulter_SetupWithManager]"
    using assms(2) by (simp add: all_registrations_def)
qed

lemma applied_sound:
  assumes "admission_api S M D" "init_scheme S = Inr sc"
    and hooks: "hooks = [fst Validator_SetupWithManager, fst Defaulter_SetupWithManager]"
    and stored: "apply_manifest D M sc hooks raw = Some ep"
  shows "validateModelEndpoint ep = None \<and> apply_defaults ep = ep"
proof -
  obtain old where old: "D sc raw = Inr old" "validateModelEndpoint old = None"
    "D sc (enc_endpoint M (apply_defaults old)) = Inr ep"
    using stored unfolding apply_manifest_def hooks admission_api.admit_eq [OF assms(1,2)]
    by (auto split: sum.splits if_splits)
  have "typed_endpoint M (apply_defaults old)"
    by (rule apply_defaults_typed) (rule admission_api.decode_typed(2) [OF assms(1,2) old(1)])
  then have "ep = apply_defaults old" using admission_api.decode_enc [OF assms(1,2)] old(3) by simp
  then show ?thesis using old(2) by (simp add: apply_defaults_idem apply_defaults_valid)
qed

lemma deployed_inv:
  assumes "admission_api S M D" "init_scheme S = Inr sc" "recorded_aws sdk lg"
    and "main fl su = (rs, Success)" "enableWebhooks fl" "suLoadConfig su = Inr base"
    and "program_reach su (deployed D M sc fl rs sdk T limiter) lg s"
  shows "program_inv base lg s"
proof (rule program_reach_inv [OF assms(7,6)])
  show "recorded_aws (dpAws (deployed D M sc fl rs sdk T limiter)) lg" using assms(3) by (simp add: deployed_def)
  show "validateModelEndpoint ep = None \<and> apply_defaults ep = ep"
    if "dpAdmits (deployed D M sc fl rs sdk T limiter) raw = Some ep" for raw ep
    using applied_sound [OF assms(1,2) main_hooks(1) [OF assms(4,5)]] that by (simp add: deployed_def)
qed

subsection \<open>From a manifest to a call\<close>

text \<open>Every turn asks the API server at least once, so that a turn uses up an entry of the fault script.\<close>

lemma next_fault_length: "next_fault w = (f, w') \<Longrightarrow> length (faults w') = length (faults w) - 1"
  by (auto simp: next_fault_def split: list.splits)

lemma mem_faults:
  "length (faults (snd (mem_get tab meta k w))) = length (faults w) - 1"
  "length (faults (snd (mem_update tab set_tab meta spec status set_status set_gen obj w))) \<le> length (faults w)"
  "length (faults (snd (mem_patch tab set_tab meta status set_status merge base obj w))) \<le> length (faults w)"
  "length (faults (snd (mem_create_or_update d f w))) \<le> length (faults w)"
  by (auto simp: mem_get_def mem_update_def mem_patch_def mem_create_or_update_def Let_def
      split: prod.split option.split dest!: next_fault_length)

lemma turn_faults: "length (faults (endpoint_turn (operator_reconciler sdk ns svc) req w)) \<le> length (faults w) - 1"
proof -
  let ?P = "\<lambda>v :: 'a operator_world. length (faults v) \<le> length (faults w) - 1"
  show ?thesis
    by (rule reconcile_keeps [where P = ?P])
      (simp_all add: mem_faults(1) le_trans [OF mem_faults(2)] le_trans [OF mem_faults(3)] le_trans [OF mem_faults(4)]
        bedrock_checker_def case_prod_beta Let_def)
qed

lemma turns_faults: "length (faults ((endpoint_turn (operator_reconciler sdk ns svc) req ^^ n) w)) \<le> length (faults w) - n"
proof (induction n)
  case (Suc n)
  show ?case
    using turn_faults [of sdk ns svc req "(endpoint_turn (operator_reconciler sdk ns svc) req ^^ n) w"] Suc by simp
qed simp

lemma turns_reach:
  assumes "program_reach su d lg (tab, w)"
  shows "program_reach su d lg (tab, (endpoint_turn (operator_reconciler (dpAws d) (dpNamespace d) (dpService d)) req ^^ n) w)"
  by (induction n) (auto intro: assms program_reach.step program_step.endpoint_turn)

context recorded_aws begin

lemma turns_keep:
  assumes "client_wf (bedrockClient w)" "w' = (endpoint_turn (operator_reconciler sdk ns svc) req ^^ n) w"
  shows "client_wf (bedrockClient w') \<and> baseConfig (bedrockClient w') = baseConfig (bedrockClient w)
    \<and> lg (awsWorld w') = lg (awsWorld w)"
  unfolding assms(2) by (induction n) (use assms(1) turn_keeps [OF _ refl] in auto)

end

text \<open>An API server that answers and a limiter that is full: the gates of the handler.\<close>

lemma served_admits:
  assumes rq: "rqMethod rq = ''POST''" "parsePathSegments (rqPath rq) ''/invoke/'' = Some (ns, name)"
      "unmarshal dec_invoke zero_invoke (rqBody rq) = Inr req"
    and w: "faults w = []" "stEndpoints (objects w) \<lparr>nnNamespace = ns, nnName = name\<rparr> = Some ep"
      "keyOf (epMeta ep) = \<lparr>nnNamespace = ns, nnName = name\<rparr>" "Available (epStatus ep)"
    and rate: "RateLimit (epSpec ep) = Some rl" "1 \<le> RequestsPerMinute rl" "rateLimiters h (limiter_key ns name) = None"
    and full: "\<And>r b t. 0 \<le> r \<Longrightarrow> 1 \<le> b \<Longrightarrow> fst (Allow limiter t (NewLimiter limiter r b))"
  shows "admits (operator_proxy sdk T limiter) rq h w ns name req ep"
proof -
  have "fst (fetchEndpoint (operator_proxy sdk T limiter) ns name w) = Inr ep"
    using w by (simp add: fetchEndpoint_def mem_get_def next_fault_def)
  moreover have "1 \<le> limiter_burst (RequestsPerMinute rl)" by (simp add: limiter_burst_def Let_def)
  then have "fst (Allow limiter t (NewLimiter limiter (limiter_rate (RequestsPerMinute rl)) (limiter_burst (RequestsPerMinute rl))))" for t
    using full [of "limiter_rate (RequestsPerMinute rl)" "limiter_burst (RequestsPerMinute rl)" t]
      limiter_rate_nonneg [of "RequestsPerMinute rl"] rate(2) by simp
  ultimately show ?thesis
    using rq w(4) rate(1,3) by (simp add: admits_def take_token_def getLimiter_def Let_def case_prod_beta)
qed

lemma manifest_served:
  assumes rec: "recorded_aws (dpAws d) lg" "bedrock_up (dpAws d)"
    and full: "\<And>r b t. 0 \<le> r \<Longrightarrow> 1 \<le> b \<Longrightarrow> fst (Allow (dpLimiter d) t (NewLimiter (dpLimiter d) r b))"
    and reach: "program_reach su d lg (tab, w)" "program_inv base lg (tab, w)"
    and stored: "dpAdmits d raw = Some ep" "keyOf (epMeta ep) = \<lparr>nnNamespace = ns, nnName = name\<rparr>"
      "stEndpoints (objects w) \<lparr>nnNamespace = ns, nnName = name\<rparr> = None" "validateModelEndpoint ep = None" "apply_defaults ep = ep"
    and rq: "mux_route (rqMethod rq) (rqPath rq) = Found InvokeRoute" "rqMethod rq = ''POST''"
      "parsePathSegments (rqPath rq) ''/invoke/'' = Some (ns, name)" "unmarshal dec_invoke zero_invoke (rqBody rq) = Inr req"
      "tab (limiter_key ns name) = None"
    and w2: "w2 = (endpoint_turn (operator_reconciler (dpAws d) (dpNamespace d) (dpService d)) \<lparr>nnNamespace = ns, nnName = name\<rparr>
        ^^ (length (faults w) + 2)) (store_endpoint \<lparr>nnNamespace = ns, nnName = name\<rparr> (Some (created ep)) w)"
  shows "program_reach su d lg (tab, w2)
    \<and> (\<exists>ep'. stEndpoints (objects w2) \<lparr>nnNamespace = ns, nnName = name\<rparr> = Some ep' \<and> epSpec ep' = epSpec ep
        \<and> Available (epStatus ep'))
    \<and> (\<exists>reply ops h' w3.
      ServeHTTP (operator_proxy (dpAws d) (dpEngine d) (dpLimiter d)) rq \<lparr>hBedrock = bedrockClient w2, rateLimiters = tab\<rparr> w2
        = (reply, ops, h', w3)
    \<and> lg (awsWorld w3) = lg (awsWorld w) @ [(base\<lparr>cfgRegion := Region (epSpec ep),
         cfgCreds := AssumeRole (cfgCreds base) (IRSARoleArn (epSpec ep)) ''k8s-ai-operator''\<rparr>,
       ModelId (epSpec ep), json_request (build_request (invoke_input req ep)))])"
proof -
  let ?k = "\<lparr>nnNamespace = ns, nnName = name\<rparr>" and ?r = "operator_reconciler (dpAws d) (dpNamespace d) (dpService d)"
  let ?w1 = "store_endpoint ?k (Some (created ep)) w" and ?px = "operator_proxy (dpAws d) (dpEngine d) (dpLimiter d)"
  let ?h = "\<lparr>hBedrock = bedrockClient w2, rateLimiters = tab\<rparr>"
  have reach1: "program_reach su d lg (tab, ?w1)"
    using program_reach.step [OF reach(1)] program_step.create [OF stored(1), of w lg tab] stored(2,3) by simp
  have reach2: "program_reach su d lg (tab, w2)" unfolding w2 by (rule turns_reach [OF reach1])
  have w1: "stEndpoints (objects ?w1) ?k = Some (created ep)" "faults ?w1 = faults w" "awsWorld ?w1 = awsWorld w"
    "bedrockClient ?w1 = bedrockClient w" by (simp_all add: store_endpoint_def)
  have "live_endpoint ?k (epSpec ep) 1 ?w1"
    using w1(1) stored(2) by (simp add: live_endpoint_def declared_endpoint_def created_def keyOf_def IsZero_def)
  then have live: "bedrock_up (dpAws d) \<and> live_endpoint ?k (epSpec ep) 1 ?w1" using rec(2) by blast
  have rank: "endpoint_rank ?k ?w1 \<le> length (faults w) + 2" using w1(1,2) by (simp add: endpoint_rank_def)
  have settled: "endpoint_settled ?k w2" unfolding w2 by (rule endpoint_loop.converges [OF live rank])
  have live2: "live_endpoint ?k (epSpec ep) 1 w2"
    unfolding w2 by (rule endpoint_loop.inv_runs [OF live, THEN conjunct2])
  obtain ep' where ep': "stEndpoints (objects w2) ?k = Some ep'" "keyOf (epMeta ep') = ?k" "epSpec ep' = epSpec ep"
    "Available (epStatus ep')"
    using settled live2
    by (auto simp: endpoint_settled_def live_endpoint_def declared_endpoint_def endpoint_ready_def split: option.splits)
  have calm: "faults w2 = []"
    using turns_faults [where n = "length (faults w) + 2" and w = ?w1 and req = ?k, of "dpAws d" "dpNamespace d" "dpService d"] w1(2) w2
    by simp
  have client1: "client_wf (bedrockClient ?w1)" using reach(2) w1(4) by (simp add: program_inv_def)
  have client: "client_wf (bedrockClient w2)" "baseConfig (bedrockClient w2) = base" "lg (awsWorld w2) = lg (awsWorld w)"
    using recorded_aws.turns_keep [OF rec(1) client1 w2] reach(2) w1(3,4) by (simp_all add: program_inv_def)
  obtain rl where rl: "RateLimit (epSpec ep) = Some rl" using stored(5) unfolding defaults_spec by blast
  have rpm: "1 \<le> RequestsPerMinute rl"
    using stored(4) rl by (auto simp: validateModelEndpoint_iff validateRateLimit_def split: if_splits)
  have adm: "admits ?px rq ?h w2 ns name req ep'"
    by (rule served_admits [OF rq(2-4) calm ep'(1,2,4) _ rpm]) (use ep'(3) rl rq(5) full in simp_all)
  obtain reply ops h' w3 where run: "ServeHTTP ?px rq ?h w2 = (reply, ops, h', w3)" by (metis prod.collapse)
  then have inner: "HandleInvoke ?px rq ?h w2 = (reply, ops, h', w3)" using rq(1) by (simp add: ServeHTTP_def)
  note px = recorded_aws.operator_proxy_env [OF rec(1), of "dpEngine d" "dpLimiter d"]
  obtain h2 v where h2: "hBedrock h2 = bedrockClient w2" "lg (awsWorld v) = lg (awsWorld w2)"
    and fwd: "forward_invoke ?px ns name ep' req h2 v = (reply, ops, h', w3)"
    using proxy_env.HandleInvoke_admitted [OF px _ inner adm] client(1) by auto
  have "lg (awsWorld w3) = lg (awsWorld v) @ [(role_config (baseConfig (hBedrock h2)) (endpoint_key ep'), ModelId (epSpec ep'),
      json_request (build_request (invoke_input req ep')))]"
    using proxy_env.forward_step [OF px _ fwd] client(1) h2(1) by auto
  moreover have "invoke_input req ep' = invoke_input req ep" using ep'(3) by (simp add: invoke_input_def)
  moreover have "role_config base (endpoint_key ep') = base\<lparr>cfgRegion := Region (epSpec ep),
         cfgCreds := AssumeRole (cfgCreds base) (IRSARoleArn (epSpec ep)) ''k8s-ai-operator''\<rparr>"
    using ep'(3) by (simp add: role_config_def endpoint_key_def)
  ultimately show ?thesis using run reach2 client(2,3) h2 ep' by auto
qed

subsection \<open>A run of the program\<close>

definition demo_flags :: flags where
  "demo_flags = default_flags\<lparr>enableWebhooks := True\<rparr>"

definition demo_start :: "BedrockClient \<Rightarrow> (string \<rightharpoonup> bucket) \<times> (AwsConfig \<times> string \<times> json) list operator_world" where
  "demo_start br = (Map.empty,
     \<lparr>objects = \<lparr>stEndpoints = Map.empty, stTemplates = Map.empty, stPolicies = Map.empty, stServices = Map.empty\<rparr>,
      clock = 0, faults = [Some (ErrMsg ''conflict'')], bedrockClient = br, awsWorld = []\<rparr>)"

lemma demo_main: "\<exists>rs. main demo_flags quiet_surroundings = (rs, Success) \<and> enableWebhooks demo_flags"
proof -
  have "suNewManager quiet_surroundings (options_of demo_flags) = None" "suLoadConfig quiet_surroundings = Inr sample_cfg"
    by (simp_all add: quiet_surroundings_def)
  from main_run_all [OF this] show ?thesis
    by (auto simp: quiet_surroundings_def demo_flags_def Let_def Validator_SetupWithManager_def Defaulter_SetupWithManager_def)
qed

lemma demo_manifest:
  assumes "init_scheme table_scheme = Inr sc" "main fl su = (rs, Success)" "enableWebhooks fl"
  shows "apply_manifest plain_decoder plain_codec sc (hooks_of rs) (enc_endpoint plain_codec (haiku None)) = Some limited_haiku"
  unfolding apply_manifest_def main_hooks(1) [OF assms(2,3)] plain_admission.admit_eq [OF assms(1)]
  by (simp add: haiku_decoded [OF assms(1)] haiku_valid haiku_defaults)

lemma tape_up: "bedrock_up tape_aws"
  by (simp add: bedrock_up_def tape_aws_def)

lemma bucket_full: "0 \<le> r \<Longrightarrow> 1 \<le> b \<Longrightarrow> fst (Allow token_bucket t (NewLimiter token_bucket r b))"
  by (simp add: token_bucket_def bucket_credit_def second_def add_increasing2)

abbreviation haiku_key :: NamespacedName where
  "haiku_key \<equiv> \<lparr>nnNamespace = ''team-a'', nnName = ''haiku''\<rparr>"

abbreviation haiku_post :: HttpRequest where
  "haiku_post \<equiv> \<lparr>rqMethod = ''POST'', rqPath = ''/invoke/team-a/haiku'', rqBody = Inr (JObj [])\<rparr>"

lemma demo_request:
  "mux_route (rqMethod haiku_post) (rqPath haiku_post) = Found InvokeRoute"
  "parsePathSegments (rqPath haiku_post) ''/invoke/'' = Some (''team-a'', ''haiku'')"
  "unmarshal dec_invoke zero_invoke (rqBody haiku_post) = Inr zero_invoke"
  using haiku_route parse_haiku by (simp_all add: unmarshal_def dec_invoke_def find_field_def into_def)

lemma demo_key: "keyOf (epMeta limited_haiku) = haiku_key"
  by (simp add: keyOf_def haiku_def)

abbreviation demo_deployment :: "(group_version_kind \<times> go_type) list \<Rightarrow> registration list
    \<Rightarrow> (bucket, (AwsConfig \<times> string \<times> json) list) deployment" where
  "demo_deployment sc rs \<equiv> deployed plain_decoder plain_codec sc demo_flags rs tape_aws field_engine token_bucket"

lemma demo_start_reach:
  "\<exists>br. program_reach quiet_surroundings d (\<lambda>a. a) (demo_start br)"
proof -
  have load: "suLoadConfig quiet_surroundings = Inr sample_cfg" by (simp add: quiet_surroundings_def)
  obtain br where br: "NewClient (Inr sample_cfg) = Inr br" by (simp add: NewClient_def)
  have "program_start quiet_surroundings (\<lambda>a. a) (demo_start (snd (NewGuardrailClient br (guardrail_key quiet_surroundings))))"
    by (simp add: program_start_def started_client_def demo_start_def load br)
  then show ?thesis using program_reach.start by blast
qed

text \<open>The run: one manifest, turns until the endpoint is ready, one request.\<close>

lemma demo_program:
  "\<exists>sc rs w2 w3 tab' ep call. init_scheme table_scheme = Inr sc \<and> main demo_flags quiet_surroundings = (rs, Success)
    \<and> program_reach quiet_surroundings (demo_deployment sc rs) (\<lambda>a. a) (Map.empty, w2)
    \<and> stEndpoints (objects w2) haiku_key = Some ep \<and> Available (epStatus ep)
    \<and> program_reach quiet_surroundings (demo_deployment sc rs) (\<lambda>a. a) (tab', w3) \<and> awsWorld w3 = [call]"
proof -
  obtain sc where sc: "init_scheme table_scheme = Inr sc" using table_scheme.scheme_known by blast
  obtain rs where rs: "main demo_flags quiet_surroundings = (rs, Success)" "enableWebhooks demo_flags" using demo_main by blast
  let ?d = "demo_deployment sc rs"
  have load: "suLoadConfig quiet_surroundings = Inr sample_cfg" by (simp add: quiet_surroundings_def)
  obtain br where reach: "program_reach quiet_surroundings ?d (\<lambda>a. a) (demo_start br)" using demo_start_reach by blast
  have sel: "dpAws ?d = tape_aws" "dpLimiter ?d = token_bucket" "dpEngine ?d = field_engine"
    "dpAdmits ?d raw = apply_manifest plain_decoder plain_codec sc (hooks_of rs) raw" for raw by (simp_all add: deployed_def)
  note inv = deployed_inv [OF plain_admission.admission_api_axioms sc tape.recorded_aws_axioms rs load reach]
  note stored = demo_manifest [OF sc rs]
  note sound = applied_sound [OF plain_admission.admission_api_axioms sc main_hooks(1) [OF rs] stored]
  obtain w where w: "stEndpoints (objects w) haiku_key = None" "awsWorld w = []" "demo_start br = (Map.empty, w)"
    by (rule that [of "snd (demo_start br)"]) (simp_all add: demo_start_def)
  have aws: "recorded_aws (dpAws ?d) (\<lambda>a. a)" "bedrock_up (dpAws ?d)"
    unfolding sel by (rule tape.recorded_aws_axioms, rule tape_up)
  have full: "fst (Allow (dpLimiter ?d) t (NewLimiter (dpLimiter ?d) r b))" if "0 \<le> r" "1 \<le> b" for r b t
    unfolding sel by (rule bucket_full [OF that])
  have adm: "dpAdmits ?d (enc_endpoint plain_codec (haiku None)) = Some limited_haiku" unfolding sel by (rule stored)
  note served = manifest_served [OF aws full reach [unfolded w(3)] inv [unfolded w(3)] adm demo_key w(1) conjunct1 [OF sound]
      conjunct2 [OF sound] demo_request(1) HttpRequest.select_convs(1) demo_request(2,3) _ refl]
  obtain w2 ep reply ops h' w3 call where run: "program_reach quiet_surroundings ?d (\<lambda>a. a) (Map.empty, w2)"
    "stEndpoints (objects w2) haiku_key = Some ep" "Available (epStatus ep)"
    "ServeHTTP (operator_proxy tape_aws field_engine token_bucket) haiku_post \<lparr>hBedrock = bedrockClient w2, rateLimiters = Map.empty\<rparr> w2
       = (reply, ops, h', w3)" "awsWorld w3 = awsWorld w @ [call]"
    using served [unfolded sel] by auto
  have "program_reach quiet_surroundings ?d (\<lambda>a. a) (rateLimiters h', w3\<lparr>bedrockClient := hBedrock h'\<rparr>)"
    using program_reach.step [OF run(1) program_step.request] run(4) sel by metis
  moreover have "awsWorld (w3\<lparr>bedrockClient := hBedrock h'\<rparr>) = [call]" using run(5) w(2) by simp
  ultimately show ?thesis using sc rs(1) run(1-3) by blast
qed

subsection \<open>Properties of the program\<close>







end
