(* ===== verification/Spec2Isabelle.thy ===== *)
theory Spec2Isabelle
  imports Pricing Controller_Helpers Metrics Bedrock_Invoke Client_Concurrency Kube ModelEndpoint_Controller
    PromptTemplate_Controller Guardrail_Controller Webhook Proxy_Properties Concurrent_Requests Render_Properties Proxy_Server
    Deep_Copy Status_Patch Resync_Loops Admission Manager Operator_Program
begin

text \<open>
  A verification development for k8s-ai-operator (Go): a Kubernetes operator that offers AWS Bedrock
  models as resources of a cluster, and the HTTP proxy through which workloads call them.

  \<^bold>\<open>The program.\<close> A ModelEndpoint names a model, a region and a role; its controller checks with Bedrock
  that the model may be used, publishes the verdict in the status and keeps a Service that leads to the
  proxy. A PromptTemplate names an endpoint and a text with variables; its controller checks both. A
  GuardrailPolicy is mirrored as a guardrail of the Bedrock account. The proxy answers POST requests on
  /invoke and /render: it reads the resources, applies the gates (availability, rate limit, token cap),
  calls Bedrock through a client cache and accounts for the answer in metrics. Admission webhooks check
  and default the endpoints on their way in. The manager binary registers all of it.

  \<^bold>\<open>Theories and sources\<close> (paths under src/; each theory follows the order of its source):

  \<^item> Prelude, Float64, Json, Regexp, Text\_Template, Rate\_Limiter, Kube, Reconciler, Heap\_Copy: what the
    program uses of Go, its standard library and the Kubernetes libraries. Strings are byte strings, a
    float64 is the rational it denotes with rounding written out, JSON decoding works on values, a
    regular expression has a language and a matcher by derivatives, text templates, rate limiters and
    the API server are interfaces with laws.
  \<^item> Api\_Types: api/v1alpha1/*\_types.go, a record per struct. Webhook has their schema markers, Api\_Json
    the JSON tags of ModelEndpoint.
  \<^item> Setup: api/v1alpha1/groupversion\_info.go, the init functions of the types and of the manager, every
    SetupWithManager with its watches, and the paths of the webhooks.
  \<^item> Deep\_Copy: api/v1alpha1/zz\_generated\_deepcopy.go, each DeepCopyInto, DeepCopy and DeepCopyObject
    on an explicit heap of pointers and slices.
  \<^item> Pricing: internal/bedrock/cost.go. Bedrock\_Client: the caches, the roles and the locking of
    internal/bedrock/client.go; Client\_Concurrency: the interleavings of its critical sections.
    Bedrock\_Invoke: Invoke with its wire format, and internal/bedrock/health.go.
  \<^item> Metrics: internal/metrics/metrics.go. Calls on metrics are recorded in order.
  \<^item> Controller\_Helpers, ModelEndpoint\_Controller, PromptTemplate\_Controller, Guardrail\_Controller:
    internal/controller/*.go, the last with internal/bedrock/guardrail.go. A Reconcile is one function
    from request and world to result, error, metric calls and next world.
    Watch\_Loop: what the watches of the endpoint controller do with the writes of its own Reconcile and
    with the loss of a Service. Status\_Patch: its status patch among other writers. Resync\_Loops: the
    watches of the policy and the template controller.
  \<^item> Webhook: internal/webhook/modelendpoint\_webhook.go, the validator, the defaulter, and the schema.
    Admission: the same handlers on the JSON documents that the API server sends, and the pipeline from
    a manifest to the stored endpoint.
  \<^item> Proxy\_Handler: internal/proxy/handler.go, with the lemmas about its gates and its limiter table;
    Proxy\_Properties and Render\_Properties: what is claimed of the two handlers. Proxy\_Concurrency:
    HandleInvoke cut into its sections, on a shared state with limiters behind pointers;
    Proxy\_Interleaving: pools of requests whose sections interleave; Concurrent\_Requests: what holds of
    them. Proxy\_Server: internal/proxy/server.go, the mux, the health endpoint and the protocol of Start.
  \<^item> Manager: cmd/manager/main.go. Operator\_Program: the parts as main puts them together, one step relation
    on one cluster: manifests through the webhooks of the server that main set up, turns of the endpoint
    and the template controller, requests to the proxy, one Bedrock client shared by controller and proxy,
    faults, other writers, restarts. This theory: properties of two components together.

  \<^bold>\<open>Interfaces.\<close> Code outside the repository is an argument: \<open>kube\<close> (the controller-runtime client),
  \<open>aws\<close> and \<open>guardrail_sdk\<close> (the SDK), \<open>limiter_lib\<close>, \<open>engine\<close> (text/template), \<open>copy_lib\<close>, \<open>scheme_lib\<close>
  and \<open>meta_codec\<close> (apimachinery) and \<open>surroundings\<close> (the manager). What the program relies on are the
  assumptions of the locales \<open>resource_api\<close>, \<open>kube_api\<close>, \<open>endpoint_env\<close>, \<open>guardrail_env\<close>, \<open>rate_limiter\<close>,
  \<open>template_engine\<close>, \<open>apimachinery\<close>, \<open>guardrail_service\<close>, \<open>proxy_env\<close>, \<open>metered_proxy\<close>, \<open>scheme_api\<close>,
  \<open>watch_api\<close>, \<open>watched_endpoints\<close>, \<open>watched_policies\<close>, \<open>watched_templates\<close>, \<open>meta_api\<close>, \<open>admission_api\<close>,
  \<open>merge_patch_api\<close>, \<open>endpoint_calls\<close> and \<open>recorded_aws\<close>. Each is interpreted: on an in-memory API
  server with a script of faults, an in-memory Bedrock account, a token bucket in exact arithmetic, a
  template language of plain text and fields, a table of types, event handlers by owner references, a
  codec of object metadata, the merge patch of RFC 7386, a cluster in which others write during the
  health check, and an SDK that records its invocations. The locales \<open>client_cache\<close>, \<open>upsert\<close>,
  \<open>float_rounding\<close>, \<open>deep\<close> and \<open>converging\<close> are contracts between parts of the program itself (both
  client caches, the condition list, binary64 rounding, every generated copy, the reconcile loops).

  \<^bold>\<open>What is shown.\<close>

  \<^item> Proxy: Bedrock is called only after every gate, at most once, with the endpoint's credentials and
    model; the metrics and the reply agree with the answer; the token cap holds for what is not
    negative; rendering fills the declared variables, and panics when a default meets a nil map; the mux
    adds no other way in; Start ends on its context or its listener.
  \<^item> Concurrent requests: the sections of a request alone are \<open>HandleInvoke\<close>; in every interleaving the
    rate of an endpoint is bounded at every moment, each call to Bedrock is that of an admitted request,
    an endpoint has one limiter, and no request waits for another.
  \<^item> Controllers: what a successful reconciliation leaves in the cluster and in Bedrock, that the
    finalizer comes first and deletion cleans up, that an endpoint always stays queued, and that under
    any script of n faults n + 2 turns reach the settled state (one turn for the finalizer, one for the
    work, one for each fault at most). No predicate filters the watches: the endpoint's own status write
    wakes its controller, and the loop rests when a verdict repeats; the loss of a Service wakes the
    endpoint that owns it. What others write to an endpoint while Bedrock is asked survives the status
    patch. The policy controller updates its guardrail on every turn and rests while Bedrock's answer
    repeats; a template does not notice what becomes of its endpoint until its timer.
  \<^item> Bedrock client: the caches never mix credentials of different endpoints, concurrent lookups
    linearize and always progress, and the request body carries the whole input.
  \<^item> Money: the binary64 cost is within half a micro-dollar and the stated relative error of the exact
    price, is monotone, and its six decimals print the number itself.
  \<^item> Admission: the exact sets that validator and schema accept, where they differ, and idempotence of
    the defaulter; an endpoint survives its JSON encoding, a decoded one has numbers of its Go types,
    and what passes both webhooks is stored with its defaults. Deep copies: same value, no shared cell.
  \<^item> Manager: when every registration succeeds, main has registered everything in the order of the code,
    each webhook has its path, the scheme knows each type, and the manager is started.
  \<^item> The whole program: in every state that is reachable from a start with webhooks, whatever the order of
    events, each stored endpoint is one the webhooks pass unchanged, with a cap, a rate and a status that is
    true to its conditions, and every call ever made to Bedrock stays in the regions, vendors and roles that
    the validator allows; a manifest that passes is, after n + 2 turns under n faults, served by the proxy.
  \<^item> Across components: a validated and defaulted endpoint bounds the rate, a template found valid is
    one that the proxy parses, and the proxy refuses exactly what the last health check refused.

  \<^bold>\<open>Bounds and termination.\<close> Every function is total; no fuel is used. Loops of the program are
  structural recursions over its lists. The step relations are \<open>section_step\<close> (a caller takes at most
  two critical sections), \<open>pool_step\<close> (a request takes at most eight), \<open>start_step\<close> (at most seven
  events) and \<open>program_step\<close> (one whole operation each: a turn or a request is not cut into its sections
  there, as it is in \<open>pool_step\<close>; it goes on for ever).

  \<^bold>\<open>Assumptions of the model.\<close> A read of the API server returns what is stored (a stale cache of the
  client is not modelled), and a failed call has no effect there. Request bodies arrive parsed into a
  JSON value or a decoder error; request paths have no percent-encoding. Each slice owns its whole
  array. Concurrent requests interleave between library calls and critical sections, where Allow is one
  step with its reading of the clock (it holds the limiter's lock) and the metric calls of an answer are
  one step (they commute with those of others); requests to /render do not take part in the pools.
  Integers stay within their Go type, which the JSON decoders enforce; the decoder of the API machinery
  matches keys exactly. \<open>hHeaders\<close> are the headers the
  handler sets itself. Contexts are not cancelled in the middle of a request. TypeMeta, annotations and
  other metadata that the program does not read are left out. In Operator\_Program endpoints are written only
  by manifests that pass both webhooks and by the operator; the policy controller, which shares no state
  with the other parts but the cluster, is among the other writers.

  \<^bold>\<open>Not modelled.\<close> Loggers and log lines, the help texts of metrics and flags, the package comment of
  api/v1alpha1/doc.go, the tests, and the YAML of manifests and charts.
\<close>

section \<open>Properties across components\<close>

subsection \<open>From the webhooks to the proxy's limiter\<close>

lemma admitted_limit:
  assumes "Defaulter_Handle (Inr ep) = PatchTo ep'" "Validator_Handle (Inr ep') = Allowed ''''"
  shows "\<exists>rl. RateLimit (epSpec ep') = Some rl \<and> 1 \<le> RequestsPerMinute rl \<and> RequestsPerMinute rl \<le> 3600"
proof -
  have "ep' = apply_defaults ep" using assms(1) by (simp add: Defaulter_Handle_def)
  then have "RateLimit (epSpec ep') \<noteq> None" by (simp add: apply_defaults_def Let_def)
  then obtain rl where rl: "RateLimit (epSpec ep') = Some rl" by blast
  moreover have "validateModelEndpoint ep' = None"
    using assms(2) by (simp add: Validator_Handle_def split: option.splits)
  ultimately show ?thesis
    by (auto simp: validateModelEndpoint_def validateRateLimit_def split: option.splits if_splits)
qed

text \<open>C39: an endpoint whose spec went through the defaulting and the validating webhook is always rate
  limited, however its owner wrote it: any sequence of invoke requests, from a fresh proxy, gets at most
  360 invocations and 60 more per second through to it.\<close>

theorem admitted_endpoint_rate:
  assumes "Defaulter_Handle (Inr ep) = PatchTo ep'" "Validator_Handle (Inr ep') = Allowed ''''"
    and "metered_proxy px calls time_of credit limit_of" "client_wf br" "CHR ''/'' \<notin> set ns"
    and "\<forall>v e v'. P v \<longrightarrow> fetchEndpoint px ns name v = (Inr e, v') \<longrightarrow> epSpec e = epSpec ep'"
    and "keeps px P" "P w"
    and "invoke_run px rs (NewHandler br) w = (ops, h', w')"
  shows "of_nat (invocations ns name ops) \<le> (360 :: rat) + 60 * of_int (time_of w' - time_of w) / 10 ^ 9"
proof -
  obtain rpm where rpm: "RateLimit (epSpec ep') = Some \<lparr>RequestsPerMinute = rpm\<rparr>" "1 \<le> rpm" "rpm \<le> 3600"
    using admitted_limit [OF assms(1,2)] by (metis RateLimitSpec.cases RateLimitSpec.select_convs(1))
  have always: "always_limited px P ns name rpm" using assms(6) rpm(1) by (auto simp: always_limited_def)
  have bound: "of_nat (invocations ns name ops) \<le> rate_cap rpm (time_of w) (time_of w')"
    and time: "time_of w \<le> time_of w'"
    using metered_proxy.run_bound [OF assms(3-5) rpm(2) always assms(7-9)]
      metered_proxy.run_time [OF assms(3-5) rpm(2) always assms(7-9)] by simp_all
  have "limiter_burst rpm \<le> 360" using limiter_burst_bounds [of rpm] rpm(3) by linarith
  moreover have "limiter_rate rpm * of_int (time_of w' - time_of w) / second \<le> 60 * of_int (time_of w' - time_of w) / 10 ^ 9"
    using limiter_rate_le [of rpm] rpm time
    by (simp add: second_def divide_right_mono mult_right_mono del: of_int_diff)
  ultimately show ?thesis using bound by (simp add: rate_cap_def add_mono order_trans)
qed

theorem admitted_endpoint_rate_witness:
  "\<exists>ops h' w'. invoke_run haiku_proxy (replicate 3 (post ''/invoke/team-a/haiku'' (JObj []))) (NewHandler sample_client)
      (haiku_world (Some \<lparr>RequestsPerMinute = 60\<rparr>)) = (ops, h', w')
    \<and> (of_nat (invocations ''team-a'' ''haiku'' ops) :: rat) \<le> 360 + 60 * of_int (clock w' - 1000) / 10 ^ 9"
proof -
  let ?ep = "haiku (Some \<lparr>RequestsPerMinute = 60\<rparr>)"
  have defaults: "Defaulter_Handle (Inr (haiku None)) = PatchTo ?ep" by (simp add: Defaulter_Handle_def haiku_defaults)
  have valid: "Validator_Handle (Inr ?ep) = Allowed ''''"
    using haiku_valid apply_defaults_valid [of "haiku None"] by (simp add: Validator_Handle_def haiku_defaults)
  have spec: "\<forall>v e v'. serves_haiku (Some \<lparr>RequestsPerMinute = 60\<rparr>) v \<longrightarrow>
      fetchEndpoint haiku_proxy ''team-a'' ''haiku'' v = (Inr e, v') \<longrightarrow> epSpec e = epSpec ?ep"
    using haiku_reads by blast
  obtain ops h' w' where run: "invoke_run haiku_proxy (replicate 3 (post ''/invoke/team-a/haiku'' (JObj [])))
      (NewHandler sample_client) (haiku_world (Some \<lparr>RequestsPerMinute = 60\<rparr>)) = (ops, h', w')"
    by (metis prod.collapse)
  have "CHR ''/'' \<notin> set ''team-a''" by simp
  from admitted_endpoint_rate [OF defaults valid haiku_metered sample_client_wf this spec haiku_keeps haiku_start(1) run] run show ?thesis
    unfolding haiku_start(2) by blast
qed

subsection \<open>From the endpoint controller to the proxy\<close>

lemma forward_invoke_code: "forward_invoke px ns name ep req h w = (Responded resp, ops, h', w') \<Longrightarrow> hCode resp \<noteq> 503"
  by (auto simp: forward_invoke_def Let_def metered_def go_simps
      split: prod.splits sum.splits if_splits)

lemma HandleInvoke_code:
  assumes "invoke_wants rq ns name req" "fetchEndpoint px ns name w = (Inr e, w1)"
  shows "(\<exists>resp. fst (HandleInvoke px rq h w) = Responded resp \<and> hCode resp = 503) \<longleftrightarrow> \<not> Available (epStatus e)"
proof (cases "Available (epStatus e)")
  case False
  then show ?thesis using assms by (simp add: HandleInvoke_def invoke_wants_def go_simps)
next
  case True
  have "hCode resp \<noteq> 503" if "fst (forward_invoke px ns name e req h' v) = Responded resp" for resp h' v
    using forward_invoke_code that by (metis prod.collapse)
  then show ?thesis using assms True
    by (auto simp: HandleInvoke_def invoke_wants_def go_simps split: option.splits prod.splits)
qed

text \<open>C40: the proxy obeys the last health check: after a reconciliation without an error, and as long
  as nobody else writes the endpoint, an invoke request whose read of the endpoint succeeds is answered
  with 503 exactly when the check had found the model unavailable, and what is read has the owner's spec.\<close>

theorem published_verdict_gates:
  fixes r :: "'w ModelEndpointReconciler" and px :: "('l, 'w) proxy"
  assumes "endpoint_env (epClient r) store (epBedrock r) cached" "pxKube px = epClient r"
    and "stEndpoints (store w) \<lparr>nnNamespace = ns, nnName = name\<rparr> = Some ep"
      "IsZero (DeletionTimestamp (epMeta ep))" "FinalizerName \<in> set (Finalizers (epMeta ep))"
    and "ModelEndpoint_Reconcile r \<lparr>nnNamespace = ns, nnName = name\<rparr> w = ((res, None), ops, w')"
    and "invoke_wants rq ns name req" "fetchEndpoint px ns name w' = (Inr e, w1)"
    and "h = fst (cHealthCheck (epBedrock r) (endpoint_key ep) (ModelId (epSpec ep))
        (snd (rGet (epAPI (epClient r)) \<lparr>nnNamespace = ns, nnName = name\<rparr> w)))"
  shows "epSpec e = epSpec ep
    \<and> ((\<exists>resp. fst (HandleInvoke px rq handler w') = Responded resp \<and> hCode resp = 503) \<longleftrightarrow> \<not> hrAvailable h)"
proof -
  let ?req = "\<lparr>nnNamespace = ns, nnName = name\<rparr>"
  obtain t1 t2 where st: "stEndpoints (store w') = (stEndpoints (store w))
      (?req \<mapsto> ep\<lparr>epStatus := endpoint_status ep h (service_name ep) t1 t2\<rparr>)"
    using endpoint_env.synced_state [OF assms(1,6) refl refl assms(3-5)] assms(9) by blast
  have "kube_api (epClient r) store" using endpoint_calls.axioms(1) [OF endpoint_env.axioms(1) [OF assms(1)]] .
  then have "stEndpoints (store w') ?req = Some e"
    using resource_api.get_found [OF kube_api.endpoints] assms(2,8) by (fastforce simp: fetchEndpoint_def)
  then have e: "e = ep\<lparr>epStatus := endpoint_status ep h (service_name ep) t1 t2\<rparr>" using st by simp
  show ?thesis using HandleInvoke_code [OF assms(7,8), of handler] by (simp add: e)
qed

text \<open>An operator whose account may not use the model, and a proxy on the same cluster.\<close>

definition denied_operator :: "nat operator_world ModelEndpointReconciler" where
  "denied_operator = operator_reconciler
     (sample_aws\<lparr>awsGetFoundationModel := (\<lambda>cl m w. (Some (ErrMsg ''AccessDeniedException''), Suc w))\<rparr>)
     ''ai-system'' ''k8s-ai-operator''"

definition cluster_proxy :: "(bucket, nat operator_world) proxy" where
  "cluster_proxy =
     \<lparr>pxKube = cluster_kube,
      pxAws = \<lparr>awsInvokeModel = (\<lambda>cl m body w. (Inr (Inr sample_reply), w)), awsGetFoundationModel = (\<lambda>cl m w. (None, w))\<rparr>,
      pxEngine = field_engine, pxLimiter = token_bucket,
      pxNow = (\<lambda>w. (clock w, w\<lparr>clock := clock w + 1\<rparr>))\<rparr>"

lemma denied_run:
  fixes w w' :: "nat operator_world"
  assumes "w = demo_world (demo_endpoint [FinalizerName] None) []"
    and "w' = snd (snd (ModelEndpoint_Reconcile denied_operator demo_req w))"
  shows "fst (ModelEndpoint_Reconcile denied_operator demo_req w) = (zero_result\<lparr>RequeueAfter := requeueTransient\<rparr>, None)"
    "\<exists>e. fetchEndpoint cluster_proxy ''team-a'' ''haiku'' w' = (Inr e, w')"
    "\<not> hrAvailable (fst (cHealthCheck (epBedrock denied_operator) (endpoint_key (demo_endpoint [FinalizerName] None))
        (ModelId (epSpec (demo_endpoint [FinalizerName] None))) (snd (rGet (epAPI (epClient denied_operator)) demo_req w))))"
  unfolding assms
  by (simp_all add: denied_operator_def cluster_proxy_def fetchEndpoint_def demo_run_defs)

theorem published_verdict_gates_witness:
  "\<exists>resp. fst (HandleInvoke cluster_proxy (post ''/invoke/team-a/haiku'' (JObj [])) (NewHandler sample_client)
      (snd (snd (ModelEndpoint_Reconcile denied_operator demo_req
        (demo_world (demo_endpoint [FinalizerName] None) []))))) = Responded resp \<and> hCode resp = 503"
proof -
  let ?ep = "demo_endpoint [FinalizerName] None"
  let ?w = "demo_world ?ep []"
  let ?rq = "post ''/invoke/team-a/haiku'' (JObj [])"
  obtain ops w' where run: "ModelEndpoint_Reconcile denied_operator demo_req ?w =
      ((zero_result\<lparr>RequeueAfter := requeueTransient\<rparr>, None), ops, w')"
    using denied_run(1) [OF refl refl] by (metis prod.collapse)
  then have w': "w' = snd (snd (ModelEndpoint_Reconcile denied_operator demo_req ?w))" by simp
  obtain e where fetch: "fetchEndpoint cluster_proxy ''team-a'' ''haiku'' w' = (Inr e, w')"
    using denied_run(2) [OF refl w'] by blast
  have env: "endpoint_env (epClient denied_operator) objects (epBedrock denied_operator) has_client"
    by (simp add: denied_operator_def memory.endpoint_env_axioms)
  have same: "pxKube cluster_proxy = epClient denied_operator"
    by (simp add: cluster_proxy_def denied_operator_def operator_reconciler_def)
  have stored: "stEndpoints (objects ?w) \<lparr>nnNamespace = ''team-a'', nnName = ''haiku''\<rparr> = Some ?ep"
    "IsZero (DeletionTimestamp (epMeta ?ep))" "FinalizerName \<in> set (Finalizers (epMeta ?ep))"
    by (simp_all add: demo_defs)
  have wants: "invoke_wants ?rq ''team-a'' ''haiku'' zero_invoke"
    by (simp add: invoke_wants_def post_def parse_haiku unmarshal_def dec_invoke_def)
  from published_verdict_gates [OF env same stored run [unfolded demo_req_def] wants fetch refl]
    denied_run(3) [OF refl refl]
  show ?thesis unfolding demo_req_def w' [unfolded demo_req_def, symmetric] by blast
qed

subsection \<open>From the template controller to the proxy\<close>

text \<open>The proxy can parse what the controller found valid: after a successful reconciliation of a
  live template, the stored condition TemplateValid is true exactly when rendering the stored template in
  the proxy fails for no variables with a parse error, and else rendering fails with one for all.\<close>

theorem valid_template_parses:
  assumes "template_engine (ptEngine r)" "kube_api (ptClient r) store"
    and "stTemplates (store w) req = Some pt" "IsZero (DeletionTimestamp (ptMeta pt))"
      "FinalizerName \<in> set (Finalizers (ptMeta pt))"
    and "PromptTemplate_Reconcile r req w = ((res, None), w')"
  shows "\<exists>pt' v. stTemplates (store w') req = Some pt' \<and> ptSpec pt' = ptSpec pt
    \<and> condition_of ''TemplateValid'' (ptConditions (ptStatus pt')) = Some v
    \<and> (if cStatus v = ConditionTrue
       then \<forall>vars e. renderTemplate (ptEngine r) (Template (ptSpec pt')) vars \<noteq> Inl (Wrapf ''parsing template'' e)
       else \<forall>vars. \<exists>e. renderTemplate (ptEngine r) (Template (ptSpec pt')) vars = Inl (Wrapf ''parsing template'' e))"
proof -
  let ?text = "Template (ptSpec pt)"
  let ?tv = "template_verdict (tParse (ptEngine r) ''validate'' ?text)"
  obtain got t1 t2 where st: "stTemplates (store w') =
      (stTemplates (store w))(req \<mapsto> pt\<lparr>ptStatus := template_status pt ?tv (endpoint_verdict got) t1 t2\<rparr>)"
    using kube_api.template_synced [OF assms(2,6) refl assms(3-5)] by blast
  obtain v where v: "condition_of ''TemplateValid'' (ptConditions (template_status pt ?tv (endpoint_verdict got) t1 t2)) = Some v"
    "cStatus v = conditionStatus (fst ?tv)"
    using template_status_conditions by blast
  have valid: "cStatus v = ConditionTrue \<longleftrightarrow> tParse (ptEngine r) ''prompt'' ?text = None"
    using template_engine.parse_name [OF assms(1), of "''validate''" ?text "''prompt''"] v(2)
    by (auto simp: template_verdict_def conditionStatus_def split: option.split)
  show ?thesis
    by (rule exI [of _ "pt\<lparr>ptStatus := template_status pt ?tv (endpoint_verdict got) t1 t2\<rparr>"], rule exI [of _ v])
      (use st v(1) valid in \<open>auto simp: renderTemplate_def split: option.splits sum.splits\<close>)
qed

theorem valid_template_parses_witness:
  "\<exists>pt' v. stTemplates (objects (snd (PromptTemplate_Reconcile (template_reconciler field_engine) summarize_req
        (template_world (summarize ''Summarize in a {{.tone}} way.'' [FinalizerName]) [])))) summarize_req = Some pt'
    \<and> condition_of ''TemplateValid'' (ptConditions (ptStatus pt')) = Some v
    \<and> (cStatus v = ConditionTrue \<longrightarrow>
        (\<forall>vars e. renderTemplate field_engine (Template (ptSpec pt')) vars \<noteq> Inl (Wrapf ''parsing template'' e)))"
proof -
  let ?pt = "summarize ''Summarize in a {{.tone}} way.'' [FinalizerName]"
  let ?w = "template_world ?pt []"
  have engine: "template_engine (ptEngine (template_reconciler field_engine :: cluster PromptTemplateReconciler))"
    by (simp add: field.template_engine_axioms)
  have api: "kube_api (ptClient (template_reconciler field_engine)) (objects :: cluster \<Rightarrow> Store)"
    by (simp add: mem.kube_api_axioms)
  have pre: "stTemplates (objects ?w) summarize_req = Some ?pt" "IsZero (DeletionTimestamp (ptMeta ?pt))"
    "FinalizerName \<in> set (Finalizers (ptMeta ?pt))"
    by (simp_all add: summarize_defs)
  obtain w' where run: "PromptTemplate_Reconcile (template_reconciler field_engine) summarize_req ?w
      = ((zero_result\<lparr>RequeueAfter := requeueTransient\<rparr>, None), w')"
    using summarize_run by (metis prod.collapse)
  from valid_template_parses [OF engine api pre run] run show ?thesis
    by (auto split: if_splits)
qed

end
